(* ===== verification/Strob_Prelude.thy ===== *)
theory Strob_Prelude
  imports Main "HOL-Library.Word" "HOL-Library.AList" "HOL-Library.Multiset"
begin

text \<open>
  Shared vocabulary of the development: the machine-integer type synonyms, the two
  container models (\<open>HashMap\<close> as an association list in iteration order, \<open>BTreeMap\<close>
  as an association list sorted by key) with the \<open>entry(k).or_insert(d)\<close> idiom, and the
  interfaces every component proof goes through:
  \<^item> \<open>entry_map\<close>: what an entry-style map promises, with the conservation lemma for
    counters kept in its values;
  \<^item> \<open>guarded_machine\<close>: an invariant kept by every step holds after every run;
  \<^item> \<open>additive_fold\<close>: a measure every step raises by a weight of the event is the sum of
    the weights after a run;
  \<^item> \<open>stream_codec\<close>: a decoder that undoes an encoder in front of any further input
    decodes every concatenation of encodings.
  Counters are words: Rust's release profile wraps on overflow, and so does \<open>+\<close> on
  words.
\<close>

named_theorems strob_inv \<open>invariants of the components, unfolded by their proofs\<close>
named_theorems strob_field \<open>how the operations act on single fields\<close>

type_synonym u16 = "16 word"
type_synonym u32 = "32 word"
type_synonym u64 = "64 word"
type_synonym u128 = "128 word"
type_synonym i32 = int
type_synonym i64 = int
type_synonym usize = nat

abbreviation u64_max :: u64 where
  "u64_max \<equiv> 18446744073709551615"

lemma unat_u64_less [simp]: "unat (w :: u64) < 18446744073709551616"
  using unsigned_less[of w, where ?'a = nat] by simp

text \<open>\<open>u64::try_from(x).unwrap_or(u64::MAX)\<close> on a \<open>u128\<close>.\<close>

definition u64_of_u128_sat :: "u128 \<Rightarrow> u64" where
  "u64_of_u128_sat x = (if unat x < 2 ^ 64 then ucast x else u64_max)"

lemma unat_u64_of_u128_sat: "unat (u64_of_u128_sat x) = min (unat x) (2 ^ 64 - 1)"
proof (cases "unat x < 2 ^ 64")
  case True
  then show ?thesis
    by (simp add: u64_of_u128_sat_def unsigned_ucast_eq min_def take_bit_nat_eq_self)
next
  case False
  then show ?thesis by (simp add: u64_of_u128_sat_def)
qed

section \<open>Lists\<close>

lemma filter_eq_const: "filter (\<lambda>x. x = k) zs = replicate (count (mset zs) k) k"
  by (induction zs) auto

lemma sum_list_filter_le_nat: "sum_list (map f (filter P xs)) \<le> (sum_list (map f xs) :: nat)"
  by (induction xs) auto

lemma of_nat_sum_list: "of_nat (sum_list (map f xs)) = sum_list (map (\<lambda>x. of_nat (f x)) xs)"
  by (induction xs) simp_all

lemma foldl_append_map: "foldl (\<lambda>s x. s @ f x) acc xs = acc @ concat (map f xs)"
  by (induction xs arbitrary: acc) auto

text \<open>Sorting by an injective key depends on the multiset of the elements only.\<close>

lemma sort_key_mset_cong:
  assumes "mset xs = mset ys" and "inj_on f (set xs)"
  shows "sort_key f xs = sort_key f ys"
proof (rule properties_for_sort_key)
  show "mset (sort_key f ys) = mset xs" using assms(1) by simp
next
  fix k assume "k \<in> set (sort_key f ys)"
  have eq: "set xs = set ys" using assms(1) by (rule mset_eq_setD)
  have all_eq: "\<And>x. x \<in> set xs \<Longrightarrow> f k = f x \<longleftrightarrow> x = k"
    using assms(2) \<open>k \<in> set (sort_key f ys)\<close> eq by (auto simp: inj_on_def)
  have rep: "filter (\<lambda>x. f k = f x) zs = replicate (count (mset zs) k) k"
    if "set zs = set xs" for zs
  proof -
    have "filter (\<lambda>x. f k = f x) zs = filter (\<lambda>x. x = k) zs"
      by (rule filter_cong) (use that all_eq in auto)
    then show ?thesis by (simp add: filter_eq_const)
  qed
  have "set (sort_key f ys) = set xs" by (simp add: eq)
  with rep[of "sort_key f ys"] rep[of xs]
  show "filter (\<lambda>x. f k = f x) (sort_key f ys) = filter (\<lambda>x. f k = f x) xs"
    using assms(1) by simp
next
  show "sorted (map f (sort_key f ys))" by simp
qed


section \<open>Interfaces\<close>

subsection \<open>Entry-style maps\<close>

text \<open>
  The contract of \<open>map.entry(k).or_insert(d)\<close> followed by an update of the slot:
  afterwards the key holds the updated old value, or the updated default when it was absent,
  and no other key changed.
\<close>

locale entry_map =
  fixes lookup :: "'m \<Rightarrow> 'k \<Rightarrow> 'v option"
    and upsert :: "'k \<Rightarrow> 'v \<Rightarrow> ('v \<Rightarrow> 'v) \<Rightarrow> 'm \<Rightarrow> 'm"
    and entries :: "'m \<Rightarrow> ('k \<times> 'v) list"
    and inv :: "'m \<Rightarrow> bool"
  assumes inv_upsert: "inv m \<Longrightarrow> inv (upsert k d f m)"
    and lookup_upsert: "inv m \<Longrightarrow>
      lookup (upsert k d f m) = (lookup m)(k \<mapsto> f (case lookup m k of None \<Rightarrow> d | Some v \<Rightarrow> v))"
    and distinct_entries: "inv m \<Longrightarrow> distinct (map fst (entries m))"
    and lookup_entries: "inv m \<Longrightarrow> lookup m = map_of (entries m)"
begin

lemma finite_dom_lookup: "inv m \<Longrightarrow> finite (dom (lookup m))"
  by (simp add: lookup_entries finite_dom_map_of)

lemma dom_upsert: "inv m \<Longrightarrow> dom (lookup (upsert k d f m)) = insert k (dom (lookup m))"
  by (simp add: lookup_upsert)

lemma keys_upsert: "inv m \<Longrightarrow>
  set (map fst (entries (upsert k d f m))) = insert k (set (map fst (entries m)))"
  using dom_upsert[of m k d f] inv_upsert[of m k d f]
  by (simp add: lookup_entries dom_map_of_conv_image_fst)

lemma sum_entries:
  fixes g :: "'v \<Rightarrow> 'c::comm_monoid_add"
  assumes "inv m"
  shows "sum_list (map (\<lambda>e. g (snd e)) (entries m)) = (\<Sum>k\<in>dom (lookup m). g (the (lookup m k)))"
proof -
  have gen: "sum_list (map (\<lambda>e. g (snd e)) es) = (\<Sum>k\<in>dom (map_of es). g (the (map_of es k)))"
    if "distinct (map fst es)" for es :: "('k \<times> 'v) list"
    using that
  proof (induction es)
    case (Cons e es)
    obtain k v where e: "e = (k, v)" by (cases e)
    have fresh: "k \<notin> dom (map_of es)"
      using Cons.prems by (auto simp: e dom_map_of_conv_image_fst)
    have "(\<Sum>j\<in>dom (map_of (e # es)). g (the (map_of (e # es) j))) =
          g v + (\<Sum>j\<in>dom (map_of es). g (the (map_of (e # es) j)))"
      using fresh by (simp add: e finite_dom_map_of)
    also have "(\<Sum>j\<in>dom (map_of es). g (the (map_of (e # es) j))) =
               (\<Sum>j\<in>dom (map_of es). g (the (map_of es j)))"
      using fresh by (intro sum.cong) (auto simp: e)
    finally show ?case using Cons by (simp add: e)
  qed simp
  show ?thesis using gen[OF distinct_entries[OF assms]] by (simp add: lookup_entries assms)
qed

text \<open>Conservation: an update that raises \<open>g\<close> of the slot by \<open>c\<close> raises the total by \<open>c\<close>.\<close>

lemma total_upsert:
  fixes g :: "'v \<Rightarrow> 'c::comm_monoid_add"
  assumes m: "inv m" and d: "g d = 0"
    and f: "\<And>v. v = d \<or> lookup m k = Some v \<Longrightarrow> g (f v) = g v + c"
  shows "sum_list (map (\<lambda>e. g (snd e)) (entries (upsert k d f m))) =
         sum_list (map (\<lambda>e. g (snd e)) (entries m)) + c"
proof -
  let ?D = "dom (lookup m)" and ?l = "lookup (upsert k d f m)"
  let ?R = "\<Sum>j\<in>?D - {k}. g (the (lookup m j))"
  have fin: "finite ?D" using m by (rule finite_dom_lookup)
  have rest: "(\<Sum>j\<in>?D - {k}. g (the (?l j))) = ?R"
    by (intro sum.cong) (auto simp: lookup_upsert m)
  have new: "(\<Sum>j\<in>insert k ?D. g (the (?l j))) = g (the (?l k)) + ?R"
    using fin rest by (simp add: sum.insert_remove)
  have old: "g (case lookup m k of None \<Rightarrow> d | Some v \<Rightarrow> v) + ?R = (\<Sum>j\<in>?D. g (the (lookup m j)))"
  proof (cases "lookup m k")
    case None
    then have "?D - {k} = ?D" by auto
    with None d show ?thesis by simp
  next
    case (Some v)
    then have "k \<in> ?D" by auto
    then show ?thesis using fin Some by (simp add: sum.remove[of ?D k])
  qed
  have slot: "g (the (?l k)) = g (case lookup m k of None \<Rightarrow> d | Some v \<Rightarrow> v) + c"
    by (cases "lookup m k") (simp_all add: lookup_upsert m f)
  have "sum_list (map (\<lambda>e. g (snd e)) (entries (upsert k d f m))) = (\<Sum>j\<in>insert k ?D. g (the (?l j)))"
    by (simp only: sum_entries[OF inv_upsert[OF m]] dom_upsert[OF m])
  also have "\<dots> = (\<Sum>j\<in>?D. g (the (lookup m j))) + c"
    using new slot old by (simp add: ac_simps)
  finally show ?thesis by (simp only: sum_entries[OF m])
qed

text \<open>A predicate of the values survives when the update and the default keep it.\<close>

lemma all_values_upsert:
  assumes m: "inv m" and "P d" and "\<And>v. P v \<Longrightarrow> P (f v)"
    and "\<And>j v. lookup m j = Some v \<Longrightarrow> P v" and "lookup (upsert k d f m) j = Some w"
  shows "P w"
  using assms by (auto simp: lookup_upsert split: if_splits option.splits)

end

subsection \<open>Machines with an invariant\<close>

locale guarded_machine =
  fixes step :: "'s \<Rightarrow> 'e \<Rightarrow> 's" and inv :: "'s \<Rightarrow> bool" and ok :: "'e \<Rightarrow> bool"
  assumes step_inv: "inv s \<Longrightarrow> ok e \<Longrightarrow> inv (step s e)"
begin

lemma run_inv: "inv s \<Longrightarrow> \<forall>e\<in>set es. ok e \<Longrightarrow> inv (foldl step s es)"
  by (induction es arbitrary: s) (auto intro: step_inv)

end

text \<open>A measure that every step raises by a weight of the event alone.\<close>

locale additive_fold = guarded_machine step inv ok
  for step :: "'s \<Rightarrow> 'e \<Rightarrow> 's" and inv :: "'s \<Rightarrow> bool" and ok :: "'e \<Rightarrow> bool" +
  fixes measure :: "'s \<Rightarrow> 'm::comm_monoid_add" and weight :: "'e \<Rightarrow> 'm"
  assumes measure_step: "inv s \<Longrightarrow> ok e \<Longrightarrow> measure (step s e) = measure s + weight e"
begin

lemma measure_run: "inv s \<Longrightarrow> \<forall>e\<in>set es. ok e \<Longrightarrow>
    measure (foldl step s es) = measure s + sum_list (map weight es)"
proof (induction es arbitrary: s)
  case (Cons e es)
  then have "inv (step s e)" by (auto intro: step_inv)
  with Cons show ?case by (simp add: measure_step ac_simps)
qed simp

lemma measure_run_perm:
  assumes "inv s" and "\<forall>e\<in>set es. ok e" and "mset es = mset es'"
  shows "measure (foldl step s es) = measure (foldl step s es')"
proof -
  have "\<forall>e\<in>set es'. ok e" using assms(2,3) by (metis set_mset_mset)
  moreover have "sum_list (map weight es) = sum_list (map weight es')"
    using assms(3) by (metis mset_map sum_mset_sum_list)
  ultimately show ?thesis using assms(1,2) by (simp add: measure_run)
qed

end

subsection \<open>Codecs on a byte stream\<close>

text \<open>Pull items off the front until the decoder has no complete one; fuel bounds the loop.\<close>

fun drain :: "nat \<Rightarrow> ('b list \<Rightarrow> ('a \<times> 'b list) option) \<Rightarrow> 'b list \<Rightarrow> 'a list \<times> 'b list" where
  "drain 0 dec bs = ([], bs)"
| "drain (Suc n) dec bs =
     (case dec bs of
        None \<Rightarrow> ([], bs)
      | Some (x, r) \<Rightarrow> (case drain n dec r of (xs, r') \<Rightarrow> (x # xs, r')))"

locale stream_codec =
  fixes encode :: "'a \<Rightarrow> 'b list" and decode :: "'b list \<Rightarrow> ('a \<times> 'b list) option"
    and wf :: "'a \<Rightarrow> bool"
  assumes decode_encode: "wf x \<Longrightarrow> decode (encode x @ r) = Some (x, r)"
begin

lemma drain_concat:
  assumes "\<forall>x\<in>set xs. wf x" and "decode r = None" and "length xs < n"
  shows "drain n decode (concat (map encode xs) @ r) = (xs, r)"
  using assms
proof (induction xs arbitrary: n)
  case Nil
  then obtain k where "n = Suc k" by (cases n) auto
  with Nil show ?case by simp
next
  case (Cons x xs)
  then obtain k where n: "n = Suc k" by (cases n) auto
  with Cons have "drain k decode (concat (map encode xs) @ r) = (xs, r)" by simp
  with Cons.prems show ?case by (simp add: n decode_encode)
qed

lemma encode_concat_inj:
  assumes "\<forall>x\<in>set xs. wf x" and "\<forall>y\<in>set ys. wf y" and "decode [] = None"
    and "concat (map encode xs) = concat (map encode ys)"
  shows "xs = ys"
proof -
  let ?n = "Suc (length xs + length ys)"
  have "(xs, []) = drain ?n decode (concat (map encode xs))"
    using drain_concat[of xs "[]" ?n] assms(1,3) by simp
  also have "\<dots> = (ys, [])" using drain_concat[of ys "[]" ?n] assms(2-4) by simp
  finally show ?thesis by simp
qed

end

section \<open>Containers\<close>

subsection \<open>\<open>HashMap\<close>\<close>

text \<open>
  A \<open>HashMap\<close> is the list of its entries in iteration order with distinct keys.  Rust leaves
  that order unspecified; the model appends new keys, and facts about iteration are stated so
  that they do not depend on the order.
\<close>

type_synonym ('k, 'v) hash_map = "('k \<times> 'v) list"

definition hm_upsert :: "'k \<Rightarrow> 'v \<Rightarrow> ('v \<Rightarrow> 'v) \<Rightarrow> ('k, 'v) hash_map \<Rightarrow> ('k, 'v) hash_map" where
  "hm_upsert k d f m = AList.update k (f (case map_of m k of None \<Rightarrow> d | Some v \<Rightarrow> v)) m"

definition hm_inv :: "('k, 'v) hash_map \<Rightarrow> bool" where
  [strob_inv]: "hm_inv m \<longleftrightarrow> distinct (map fst m)"

lemma hm_inv_Nil [simp]: "hm_inv []"
  by (simp add: hm_inv_def)

lemma hm_inv_update [simp]: "hm_inv m \<Longrightarrow> hm_inv (AList.update k v m)"
  by (simp add: hm_inv_def distinct_update)

interpretation hm: entry_map map_of hm_upsert "\<lambda>m. m" hm_inv
  by unfold_locales (auto simp: hm_upsert_def hm_inv_def distinct_update update_conv')

lemmas hm_simps = hm.inv_upsert hm.lookup_upsert

text \<open>Counters in the slots: the total and each single count.\<close>

lemma hm_count_total:
  assumes "hm_inv (m :: ('k, 'a::comm_monoid_add) hash_map)"
  shows "sum_list (map snd (hm_upsert k 0 (\<lambda>n. n + c) m)) = sum_list (map snd m) + c"
  using hm.total_upsert[OF assms, of id 0 k "\<lambda>n. n + c" c] by simp

lemma hm_count_lookup:
  assumes "hm_inv (m :: ('k, 'a::comm_monoid_add) hash_map)"
  shows "(case map_of (hm_upsert k 0 (\<lambda>n. n + c) m) j of None \<Rightarrow> 0 | Some n \<Rightarrow> n) =
         (case map_of m j of None \<Rightarrow> 0 | Some n \<Rightarrow> n) + (if j = k then c else 0)"
  using assms by (auto simp: hm.lookup_upsert split: option.split)

subsection \<open>\<open>BTreeMap\<close>\<close>

text \<open>A \<open>BTreeMap\<close> iterates in key order: the list of its entries, strictly sorted by key.\<close>

type_synonym ('k, 'v) btree_map = "('k \<times> 'v) list"

fun bt_upsert :: "'k::linorder \<Rightarrow> 'v \<Rightarrow> ('v \<Rightarrow> 'v) \<Rightarrow> ('k, 'v) btree_map \<Rightarrow> ('k, 'v) btree_map" where
  "bt_upsert k d f [] = [(k, f d)]"
| "bt_upsert k d f ((k', v) # m) =
     (if k < k' then (k, f d) # (k', v) # m
      else if k = k' then (k', f v) # m
      else (k', v) # bt_upsert k d f m)"

definition bt_inv :: "('k::linorder, 'v) btree_map \<Rightarrow> bool" where
  [strob_inv]: "bt_inv m \<longleftrightarrow> sorted_wrt (<) (map fst m)"

lemma bt_inv_Nil [simp]: "bt_inv []"
  by (simp add: bt_inv_def)

lemma bt_keys_upsert: "fst ` set (bt_upsert k d f m) = insert k (fst ` set m)"
  by (induction k d f m rule: bt_upsert.induct) auto

lemma bt_inv_upsert: "bt_inv m \<Longrightarrow> bt_inv (bt_upsert k d f m)"
proof (induction k d f m rule: bt_upsert.induct)
  case (2 k d f k' v m)
  then show ?case
    using bt_keys_upsert[of k d f m] by (auto simp: bt_inv_def)
qed (simp add: bt_inv_def)

lemma bt_lookup_upsert: "bt_inv m \<Longrightarrow> map_of (bt_upsert k d f m) =
    (map_of m)(k \<mapsto> f (case map_of m k of None \<Rightarrow> d | Some v \<Rightarrow> v))"
proof (induction k d f m rule: bt_upsert.induct)
  case (2 k d f k' v m)
  have "map_of m k = None" if "k < k'"
    using 2(2) that by (auto simp: bt_inv_def map_of_eq_None_iff)
  then show ?case using 2 by (auto simp: bt_inv_def fun_eq_iff)
qed auto

lemma bt_distinct: "bt_inv m \<Longrightarrow> distinct (map fst m)"
  by (simp add: bt_inv_def strict_sorted_iff)

interpretation bt: entry_map map_of bt_upsert "\<lambda>m. m" bt_inv
  by unfold_locales (simp_all add: bt_inv_upsert bt_lookup_upsert bt_distinct)

end
