(* ===== verification/Rust_Float.thy ===== *)
theory Rust_Float
  imports Strob_Prelude Complex_Main "HOL-Library.Log_Nat"
begin

text \<open>
  Rust's \<open>f64\<close> and \<open>f32\<close>: IEEE-754 binary64 and binary32 with rounding to nearest, ties to
  even.  A value is a finite rational, an infinity or a NaN; every arithmetic operation on
  finite operands is the exact rational operation followed by \<open>round64\<close> (or \<open>round32\<close>), so the
  model computes the same number as the hardware.  The one identification made is that of
  \<open>-0.0\<close> with \<open>0.0\<close>: no operation of the program observes the sign of a zero.

  The lemmas give what the component proofs use: rounding is monotone, odd and exact on
  representable values (in particular on integers up to \<open>2 ^ 53\<close>), hence the operations are
  monotone in each argument on finite operands.
\<close>

section \<open>Rounding a rational to a binary format\<close>

text \<open>The exponent of the leading binary digit of a positive rational.\<close>

definition ilog2 :: "rat \<Rightarrow> int" where
  "ilog2 x = (case quotient_of x of (a, b) \<Rightarrow>
     let k = bitlen a - bitlen b in if 2 powi k \<le> x then k else k - 1)"

lemma bitlen_powi:
  assumes "0 < n"
  shows "2 powi (bitlen n - 1) \<le> (of_int n :: rat)" and "(of_int n :: rat) < 2 powi bitlen n"
proof -
  have nn: "0 \<le> bitlen n" by (rule bitlen_nonneg)
  have b: "2 ^ nat (bitlen n - 1) \<le> n" "n < 2 ^ nat (bitlen n)" using bitlen_bounds[OF assms] by auto
  from b(2) nn show "(of_int n :: rat) < 2 powi bitlen n"
    by (simp add: power_int_def)
  have "1 \<le> bitlen n" using assms nn bitlen_eq_zero_iff[of n] by linarith
  with b(1) show "2 powi (bitlen n - 1) \<le> (of_int n :: rat)"
    by (simp add: power_int_def)
qed

lemma powi2_less_iff: "(2 :: rat) powi a < 2 powi b \<longleftrightarrow> a < b"
  using power_int_strict_increasing[of a b "2 :: rat"] power_int_increasing[of b a "2 :: rat"]
  by linarith

lemma powi2_le_iff: "(2 :: rat) powi a \<le> 2 powi b \<longleftrightarrow> a \<le> b"
  using powi2_less_iff[of b a] by linarith

lemma powi2_pos [simp]: "0 < (2 :: rat) powi k"
  by (simp add: zero_less_power_int)

lemma ilog2_bounds:
  assumes "0 < x"
  shows "2 powi ilog2 x \<le> x" and "x < 2 powi (ilog2 x + 1)"
proof -
  obtain a b where q: "quotient_of x = (a, b)" by (cases "quotient_of x")
  have b: "0 < b" using q by (rule quotient_of_denom_pos)
  have x: "x = of_int a / of_int b" using q by (rule quotient_of_div)
  then have a: "0 < a" using assms b by (simp add: zero_less_divide_iff)
  let ?k = "bitlen a - bitlen b"
  have la: "2 powi (bitlen a - 1) \<le> (of_int a :: rat)" "(of_int a :: rat) < 2 powi bitlen a"
    using bitlen_powi[OF a] .
  have lb: "2 powi (bitlen b - 1) \<le> (of_int b :: rat)" "(of_int b :: rat) < 2 powi bitlen b"
    using bitlen_powi[OF b] .
  have up: "x < 2 powi (?k + 1)"
  proof -
    have "2 powi (?k + 1) * 2 powi (bitlen b - 1) = (2 :: rat) powi bitlen a"
      by (simp flip: power_int_add)
    then have "of_int a < 2 powi (?k + 1) * (of_int b :: rat)"
      using la(2) lb(1) by (smt (verit) mult_left_mono powi2_pos order_less_le_trans order_less_imp_le)
    then show ?thesis using b by (simp add: x pos_divide_less_eq)
  qed
  have lo: "2 powi (?k - 1) \<le> x"
  proof -
    have "2 powi (?k - 1) * 2 powi bitlen b = (2 :: rat) powi (bitlen a - 1)"
      by (simp flip: power_int_add)
    then have "2 powi (?k - 1) * (of_int b :: rat) \<le> of_int a"
      using la(1) lb(2) by (smt (verit) mult_left_mono powi2_pos order_less_imp_le order.trans)
    then show ?thesis using b by (simp add: x pos_le_divide_eq)
  qed
  show "2 powi ilog2 x \<le> x" using lo by (simp add: ilog2_def q Let_def)
  show "x < 2 powi (ilog2 x + 1)" using up by (auto simp: ilog2_def q Let_def)
qed

lemma ilog2_mono: "0 < x \<Longrightarrow> x \<le> y \<Longrightarrow> ilog2 x \<le> ilog2 y"
  using ilog2_bounds[of x] ilog2_bounds[of y] powi2_less_iff[of "ilog2 x" "ilog2 y + 1"] by linarith

lemma ilog2_less: "0 < x \<Longrightarrow> x < 2 powi k \<Longrightarrow> ilog2 x < k"
  using ilog2_bounds(1)[of x] powi2_less_iff[of "ilog2 x" k] by linarith

text \<open>Round to the nearest integer, ties to the even one.\<close>

definition rhe :: "rat \<Rightarrow> int" where
  "rhe x = (let f = \<lfloor>x\<rfloor>; d = x - of_int f in
     if d < 1 / 2 then f else if 1 / 2 < d then f + 1 else if even f then f else f + 1)"

lemma rhe_of_int [simp]: "rhe (of_int n) = n"
  by (simp add: rhe_def)

lemma rhe_bounds: "\<lfloor>x\<rfloor> \<le> rhe x \<and> rhe x \<le> \<lfloor>x\<rfloor> + 1"
  by (auto simp: rhe_def Let_def)

lemma rhe_mono:
  assumes "x \<le> y"
  shows "rhe x \<le> rhe y"
proof (cases "\<lfloor>x\<rfloor> = \<lfloor>y\<rfloor>")
  case True
  then show ?thesis using assms by (auto simp: rhe_def Let_def)
next
  case False
  then have "\<lfloor>x\<rfloor> + 1 \<le> \<lfloor>y\<rfloor>" using floor_mono[OF assms] by linarith
  then show ?thesis using rhe_bounds[of x] rhe_bounds[of y] by linarith
qed

lemma rhe_minus: "rhe (- x) = - rhe x"
proof (cases "x = of_int \<lfloor>x\<rfloor>")
  case True
  then obtain n where "x = of_int n" by blast
  then show ?thesis by (metis of_int_minus rhe_of_int)
next
  case False
  let ?f = "\<lfloor>x\<rfloor>"
  have lt: "of_int ?f < x" "x < of_int ?f + 1" using False by (linarith, linarith)
  then have fl: "\<lfloor>- x\<rfloor> = - ?f - 1" by linarith
  then show ?thesis using lt by (auto simp: rhe_def Let_def)
qed

text \<open>
  Rounding with \<open>p\<close> significant bits and least exponent \<open>emin\<close>, before the overflow check.
\<close>

definition ulp_exp :: "nat \<Rightarrow> int \<Rightarrow> rat \<Rightarrow> int" where
  "ulp_exp p emin x = max emin (ilog2 \<bar>x\<bar> - (int p - 1))"

definition rnd :: "nat \<Rightarrow> int \<Rightarrow> rat \<Rightarrow> rat" where
  "rnd p emin x = (if x = 0 then 0
     else let u = 2 powi ulp_exp p emin x in of_int (rhe (x / u)) * u)"

lemma rnd_0 [simp]: "rnd p emin 0 = 0"
  by (simp add: rnd_def)

lemma rnd_minus: "rnd p emin (- x) = - rnd p emin x"
  by (simp add: rnd_def Let_def ulp_exp_def rhe_minus)

lemma rnd_nonneg: "0 \<le> x \<Longrightarrow> 0 \<le> rnd p emin x"
proof -
  assume "0 \<le> x"
  then have "0 \<le> x / 2 powi ulp_exp p emin x" by (simp add: zero_le_divide_iff)
  then have "rhe 0 \<le> rhe (x / 2 powi ulp_exp p emin x)" by (rule rhe_mono)
  then have "0 \<le> rhe (x / 2 powi ulp_exp p emin x)" using rhe_of_int[of 0] by simp
  then show ?thesis by (simp add: rnd_def Let_def)
qed

lemma rnd_mono_pos:
  assumes x: "0 < x" and xy: "x \<le> y" and p: "0 < p"
  shows "rnd p emin x \<le> rnd p emin y"
proof -
  define ex where "ex = ulp_exp p emin x"
  define ey where "ey = ulp_exp p emin y"
  have y: "0 < y" using assms by simp
  have rx: "rnd p emin x = of_int (rhe (x / 2 powi ex)) * 2 powi ex"
    and ry: "rnd p emin y = of_int (rhe (y / 2 powi ey)) * 2 powi ey"
    using x y by (simp_all add: rnd_def Let_def ex_def ey_def)
  have le: "ex \<le> ey"
    using ilog2_mono[OF x xy] x y by (simp add: ex_def ey_def ulp_exp_def max_def)
  show ?thesis
  proof (cases "ex = ey")
    case True
    have "rhe (x / 2 powi ey) \<le> rhe (y / 2 powi ey)"
      using xy by (intro rhe_mono divide_right_mono) (simp_all add: order_less_imp_le)
    then show ?thesis by (simp add: rx ry True mult_right_mono order_less_imp_le)
  next
    case False
    define k where "k = ilog2 y"
    have ey': "ey = k - (int p - 1)"
      using False le y by (auto simp: ey_def ex_def ulp_exp_def k_def max_def split: if_splits)
    have kx: "ilog2 x + 1 \<le> k"
      using False le ey' x by (simp add: ex_def ulp_exp_def max_def split: if_splits)
    have "(2 :: rat) powi k \<le> y" using ilog2_bounds(1)[OF y] by (simp add: k_def)
    moreover have k1: "(2 :: rat) powi k = 2 ^ (p - 1) * 2 powi ey"
      using p by (simp add: ey' flip: power_int_of_nat power_int_add)
    ultimately have "of_int (2 ^ (p - 1)) \<le> y / 2 powi ey"
      by (simp add: pos_le_divide_eq)
    then have "2 ^ (p - 1) \<le> rhe (y / 2 powi ey)" using rhe_mono rhe_of_int by metis
    then have lo: "2 powi k \<le> rnd p emin y"
      unfolding ry k1 by (intro mult_right_mono) (simp_all add: order_less_imp_le flip: of_int_le_iff)
    have "x < 2 powi (ilog2 x + 1)" using ilog2_bounds(2)[OF x] .
    also have "\<dots> \<le> (2 :: rat) powi k" using kx by (simp add: powi2_le_iff)
    finally have xk: "x \<le> 2 powi k" by simp
    have exk: "ex \<le> k" using False le ey' p by linarith
    then have k2: "(2 :: rat) powi k = 2 ^ nat (k - ex) * 2 powi ex"
      by (simp flip: power_int_add add: power_int_nonneg_exp[of "k - ex", symmetric])
    then have "x / 2 powi ex \<le> of_int (2 ^ nat (k - ex))"
      using xk by (simp add: pos_divide_le_eq)
    then have "rhe (x / 2 powi ex) \<le> 2 ^ nat (k - ex)" using rhe_mono rhe_of_int by metis
    then have hi: "rnd p emin x \<le> 2 powi k"
      unfolding rx k2 by (intro mult_right_mono) (simp_all add: order_less_imp_le flip: of_int_le_iff)
    show ?thesis using lo hi by simp
  qed
qed

lemma rnd_mono:
  assumes "x \<le> y" and p: "0 < p"
  shows "rnd p emin x \<le> rnd p emin y"
proof (cases "0 < x")
  case True
  then show ?thesis using assms by (simp add: rnd_mono_pos)
next
  case neg_x: False
  show ?thesis
  proof (cases "0 \<le> y")
    case True
    have "0 \<le> rnd p emin (- x)" using neg_x by (intro rnd_nonneg) simp
    then have "rnd p emin x \<le> 0" by (simp add: rnd_minus)
    also have "0 \<le> rnd p emin y" using True by (rule rnd_nonneg)
    finally show ?thesis .
  next
    case False
    then have "rnd p emin (- y) \<le> rnd p emin (- x)" using assms by (intro rnd_mono_pos) simp_all
    then show ?thesis by (simp add: rnd_minus)
  qed
qed

text \<open>A value with at most \<open>p\<close> significant bits and no bit below \<open>emin\<close> is left alone.\<close>

lemma rnd_exact:
  assumes m: "\<bar>m\<bar> < 2 ^ p" and e: "emin \<le> e"
  shows "rnd p emin (of_int m * 2 powi e) = of_int m * 2 powi e"
proof (cases "m = 0")
  case False
  let ?x = "of_int m * 2 powi e :: rat"
  define u where "u = ulp_exp p emin ?x"
  have pos: "0 < \<bar>?x\<bar>" using False by simp
  have "\<bar>?x\<bar> = of_int \<bar>m\<bar> * 2 powi e" by (simp add: abs_mult)
  also have "\<dots> < 2 ^ p * 2 powi e"
  proof (rule mult_strict_right_mono)
    have "(of_int \<bar>m\<bar> :: rat) < of_int (2 ^ p)" using m by (simp only: of_int_less_iff)
    then show "(of_int \<bar>m\<bar> :: rat) < 2 ^ p" by simp
  qed simp
  also have "\<dots> = 2 powi (int p + e)" by (simp add: power_int_add)
  finally have "ilog2 \<bar>?x\<bar> < int p + e" using pos by (intro ilog2_less)
  then have ue: "u \<le> e" using e by (simp add: u_def ulp_exp_def)
  have "?x / 2 powi u = of_int m * 2 powi (e - u)" by (simp add: power_int_diff)
  also have "\<dots> = of_int (m * 2 ^ nat (e - u))" using ue by (simp add: power_int_nonneg_exp)
  finally have q: "?x / 2 powi u = of_int (m * 2 ^ nat (e - u))" .
  have "rnd p emin ?x = of_int (rhe (?x / 2 powi u)) * 2 powi u"
    using False by (simp add: rnd_def Let_def u_def)
  also have "of_int (rhe (?x / 2 powi u)) = ?x / 2 powi u" by (simp only: q rhe_of_int)
  also have "?x / 2 powi u * 2 powi u = ?x" by simp
  finally show ?thesis .
qed simp


section \<open>Floating-point values\<close>

datatype rfloat = Fin rat | PInf | NInf | NaN

type_synonym f64 = rfloat
type_synonym f32 = rfloat

definition to_float :: "nat \<Rightarrow> int \<Rightarrow> int \<Rightarrow> rat \<Rightarrow> rfloat" where
  "to_float p emin emax x = (let r = rnd p emin x in
     if 2 powi emax \<le> r then PInf else if r \<le> - (2 powi emax) then NInf else Fin r)"

definition round64 :: "rat \<Rightarrow> f64" where
  "round64 = to_float 53 (- 1074) 1024"

definition round32 :: "rat \<Rightarrow> f32" where
  "round32 = to_float 24 (- 149) 128"

text \<open>A float literal of the source is the double nearest to it.\<close>

abbreviation f64_lit :: "rat \<Rightarrow> f64" where
  "f64_lit \<equiv> round64"

fun is_nan :: "rfloat \<Rightarrow> bool" where
  "is_nan NaN = True"
| "is_nan _ = False"

fun is_finite :: "rfloat \<Rightarrow> bool" where
  "is_finite (Fin _) = True"
| "is_finite _ = False"

fun f_less :: "rfloat \<Rightarrow> rfloat \<Rightarrow> bool" where
  "f_less (Fin x) (Fin y) = (x < y)"
| "f_less NInf (Fin _) = True"
| "f_less NInf PInf = True"
| "f_less (Fin _) PInf = True"
| "f_less _ _ = False"

definition f_le :: "rfloat \<Rightarrow> rfloat \<Rightarrow> bool" where
  "f_le a b \<longleftrightarrow> f_less a b \<or> (a = b \<and> \<not> is_nan a)"

fun f_neg :: "rfloat \<Rightarrow> rfloat" where
  "f_neg (Fin x) = Fin (- x)"
| "f_neg PInf = NInf"
| "f_neg NInf = PInf"
| "f_neg NaN = NaN"

definition f_signed_inf :: "bool \<Rightarrow> rfloat" where
  "f_signed_inf pos = (if pos then PInf else NInf)"

text \<open>The operations, parameterised by the rounding of the format.\<close>

fun f_add :: "(rat \<Rightarrow> rfloat) \<Rightarrow> rfloat \<Rightarrow> rfloat \<Rightarrow> rfloat" where
  "f_add r (Fin x) (Fin y) = r (x + y)"
| "f_add r NaN _ = NaN"
| "f_add r _ NaN = NaN"
| "f_add r PInf NInf = NaN"
| "f_add r NInf PInf = NaN"
| "f_add r PInf _ = PInf"
| "f_add r _ PInf = PInf"
| "f_add r NInf _ = NInf"
| "f_add r _ NInf = NInf"

definition f_sub :: "(rat \<Rightarrow> rfloat) \<Rightarrow> rfloat \<Rightarrow> rfloat \<Rightarrow> rfloat" where
  "f_sub r a b = f_add r a (f_neg b)"

fun f_positive :: "rfloat \<Rightarrow> bool" where
  "f_positive (Fin x) = (0 \<le> x)"
| "f_positive PInf = True"
| "f_positive _ = False"

fun f_mul :: "(rat \<Rightarrow> rfloat) \<Rightarrow> rfloat \<Rightarrow> rfloat \<Rightarrow> rfloat" where
  "f_mul r (Fin x) (Fin y) = r (x * y)"
| "f_mul r a b =
     (if is_nan a \<or> is_nan b \<or> a = Fin 0 \<or> b = Fin 0 then NaN
      else f_signed_inf (f_positive a = f_positive b))"

fun f_div :: "(rat \<Rightarrow> rfloat) \<Rightarrow> rfloat \<Rightarrow> rfloat \<Rightarrow> rfloat" where
  "f_div r (Fin x) (Fin y) =
     (if y = 0 then (if x = 0 then NaN else f_signed_inf (0 < x)) else r (x / y))"
| "f_div r NaN _ = NaN"
| "f_div r _ NaN = NaN"
| "f_div r (Fin x) _ = Fin 0"
| "f_div r a (Fin y) = f_signed_inf (f_positive a = (0 \<le> y))"
| "f_div r _ _ = NaN"

abbreviation f64_add :: "f64 \<Rightarrow> f64 \<Rightarrow> f64" where "f64_add \<equiv> f_add round64"
abbreviation f64_sub :: "f64 \<Rightarrow> f64 \<Rightarrow> f64" where "f64_sub \<equiv> f_sub round64"
abbreviation f64_mul :: "f64 \<Rightarrow> f64 \<Rightarrow> f64" where "f64_mul \<equiv> f_mul round64"
abbreviation f64_div :: "f64 \<Rightarrow> f64 \<Rightarrow> f64" where "f64_div \<equiv> f_div round64"
abbreviation f32_add :: "f32 \<Rightarrow> f32 \<Rightarrow> f32" where "f32_add \<equiv> f_add round32"
abbreviation f32_mul :: "f32 \<Rightarrow> f32 \<Rightarrow> f32" where "f32_mul \<equiv> f_mul round32"
abbreviation f32_div :: "f32 \<Rightarrow> f32 \<Rightarrow> f32" where "f32_div \<equiv> f_div round32"

text \<open>\<open>f64::min\<close>/\<open>max\<close> ignore a NaN operand; \<open>clamp\<close> passes NaN through.\<close>

definition f_min :: "rfloat \<Rightarrow> rfloat \<Rightarrow> rfloat" where
  "f_min a b = (if is_nan a then b else if is_nan b then a else if f_less b a then b else a)"

definition f_max :: "rfloat \<Rightarrow> rfloat \<Rightarrow> rfloat" where
  "f_max a b = (if is_nan a then b else if is_nan b then a else if f_less a b then b else a)"

definition f_clamp :: "rfloat \<Rightarrow> rfloat \<Rightarrow> rfloat \<Rightarrow> rfloat" where
  "f_clamp x lo hi = (let y = (if f_less x lo then lo else x) in if f_less hi y then hi else y)"

text \<open>\<open>f64::round\<close> (half away from zero) and the saturating cast \<open>as usize\<close>.\<close>

fun f_round :: "rfloat \<Rightarrow> rfloat" where
  "f_round (Fin x) = Fin (sgn x * of_int \<lfloor>\<bar>x\<bar> + 1 / 2\<rfloor>)"
| "f_round v = v"

fun f_to_usize :: "rfloat \<Rightarrow> usize" where
  "f_to_usize (Fin x) = (if x < 0 then 0 else min (nat \<lfloor>x\<rfloor>) (2 ^ 64 - 1))"
| "f_to_usize PInf = 2 ^ 64 - 1"
| "f_to_usize _ = 0"

text \<open>\<open>as f64\<close> on integers, \<open>as f32\<close> on doubles; \<open>f64::from(f32)\<close> keeps the value.\<close>

definition f64_of_nat :: "nat \<Rightarrow> f64" where
  "f64_of_nat n = round64 (of_nat n)"

definition f64_of_int :: "int \<Rightarrow> f64" where
  "f64_of_int n = round64 (of_int n)"

abbreviation f64_of_u64 :: "u64 \<Rightarrow> f64" where
  "f64_of_u64 w \<equiv> f64_of_nat (unat w)"

definition f32_of_nat :: "nat \<Rightarrow> f32" where
  "f32_of_nat n = round32 (of_nat n)"

fun f32_of_f64 :: "f64 \<Rightarrow> f32" where
  "f32_of_f64 (Fin x) = round32 x"
| "f32_of_f64 v = v"

text \<open>\<open>f64::powi\<close> as the repeated squaring of compiler-rt's \<open>__powidf2\<close>.\<close>

fun powi_loop :: "f64 \<Rightarrow> f64 \<Rightarrow> nat \<Rightarrow> f64" where
  "powi_loop r a b =
     (let r' = (if odd b then f64_mul r a else r)
      in if b div 2 = 0 then r' else powi_loop r' (f64_mul a a) (b div 2))"

declare powi_loop.simps [simp del]

definition f64_powi :: "f64 \<Rightarrow> nat \<Rightarrow> f64" where
  "f64_powi x n = powi_loop (Fin 1) x n"

section \<open>Facts about the operations\<close>

lemma f_le_Fin [simp]: "f_le (Fin x) (Fin y) \<longleftrightarrow> x \<le> y"
  by (auto simp: f_le_def)

lemma f_le_refl [simp]: "f_le a a \<longleftrightarrow> \<not> is_nan a"
  by (cases a) (auto simp: f_le_def)

lemma f_le_infinite [simp]:
  "f_le NInf v \<longleftrightarrow> \<not> is_nan v" "f_le v PInf \<longleftrightarrow> \<not> is_nan v"
  "\<not> f_le PInf (Fin x)" "\<not> f_le (Fin x) NInf" "\<not> f_le PInf NInf" "\<not> f_le NaN v" "\<not> f_le v NaN"
  by (cases v; simp add: f_le_def)+

lemma f_le_trans: "f_le a b \<Longrightarrow> f_le b c \<Longrightarrow> f_le a c"
  by (cases a; cases b; cases c) (auto simp: f_le_def)

lemma is_finite_not_nan [simp]: "is_finite v \<Longrightarrow> \<not> is_nan v"
  by (cases v) simp_all

lemma f_sub_Fin [simp]: "f_sub r (Fin x) (Fin y) = r (x - y)"
  by (simp add: f_sub_def)

lemma to_float_mono:
  assumes "x \<le> y" and "0 < p"
  shows "f_le (to_float p emin emax x) (to_float p emin emax y)"
proof -
  have m: "rnd p emin x \<le> rnd p emin y" using assms by (rule rnd_mono)
  moreover have "0 < (2 :: rat) powi emax" by simp
  ultimately show ?thesis by (auto simp: to_float_def Let_def f_le_def)
qed

lemma round64_mono: "x \<le> y \<Longrightarrow> f_le (round64 x) (round64 y)"
  by (simp add: round64_def to_float_mono)

lemma round64_not_nan [simp]: "\<not> is_nan (round64 x)"
  by (simp add: round64_def to_float_def Let_def)

lemma round64_int:
  assumes "\<bar>m\<bar> \<le> 2 ^ 53"
  shows "round64 (of_int m) = Fin (of_int m)"
proof -
  have ex: "rnd 53 (- 1074) (of_int m) = (of_int m :: rat)"
  proof (cases "\<bar>m\<bar> < 2 ^ 53")
    case True
    then show ?thesis using rnd_exact[of m 53 "- 1074" 0] by simp
  next
    case False
    with assms consider "m = 2 ^ 53" | "m = - (2 ^ 53)" by linarith
    then show ?thesis
      using rnd_exact[of 1 53 "- 1074" 53] rnd_exact[of "- 1" 53 "- 1074" 53] by cases simp_all
  qed
  have big: "(2 :: rat) powi 1024 > 2 powi 53" by (simp only: powi2_less_iff)
  have "\<bar>of_int m :: rat\<bar> \<le> of_int (2 ^ 53)" using assms by (simp only: of_int_le_iff flip: of_int_abs)
  then have "\<bar>of_int m :: rat\<bar> < 2 powi 1024" using big by simp
  then show ?thesis by (auto simp: round64_def to_float_def Let_def ex abs_less_iff)
qed

lemma f64_of_nat_exact: "n \<le> 2 ^ 53 \<Longrightarrow> f64_of_nat n = Fin (of_nat n)"
  using round64_int[of "int n"] by (simp add: f64_of_nat_def)

lemma f64_of_nat_mono: "m \<le> n \<Longrightarrow> f_le (f64_of_nat m) (f64_of_nat n)"
  by (simp add: f64_of_nat_def round64_mono)

text \<open>Rounding stays between representable integers: the workhorse of the bound proofs.\<close>

lemma round64_between:
  assumes "of_int m \<le> x" and "x \<le> of_int n" and "\<bar>m\<bar> \<le> 2 ^ 53" and "\<bar>n\<bar> \<le> 2 ^ 53"
  shows "\<exists>a. round64 x = Fin a \<and> of_int m \<le> a \<and> a \<le> of_int n"
proof -
  have "f_le (round64 (of_int m)) (round64 x)" "f_le (round64 x) (round64 (of_int n))"
    using assms by (auto intro: round64_mono)
  then have "f_le (Fin (of_int m)) (round64 x)" "f_le (round64 x) (Fin (of_int n))"
    using assms by (simp_all add: round64_int)
  then show ?thesis by (cases "round64 x") (auto simp: f_le_def)
qed

lemma round64_mono_Fin: "x \<le> y \<Longrightarrow> round64 x = Fin a \<Longrightarrow> round64 y = Fin b \<Longrightarrow> a \<le> b"
  using round64_mono[of x y] by simp

text \<open>The sign of a rounded value follows the sign of the exact one.\<close>

lemma round64_nonneg: "0 \<le> x \<Longrightarrow> f_le (Fin 0) (round64 x)"
  using round64_mono[of 0 x] round64_int[of 0] by simp

lemma f_clamp_unit:
  assumes "\<not> is_nan x"
  shows "\<exists>c. f_clamp x (Fin 0) (Fin 1) = Fin c \<and> 0 \<le> c \<and> c \<le> 1"
  using assms by (cases x) (auto simp: f_clamp_def Let_def)

lemma f_clamp_mono:
  assumes "f_le x y" and "f_clamp x (Fin 0) (Fin 1) = Fin a" and "f_clamp y (Fin 0) (Fin 1) = Fin b"
  shows "a \<le> b"
  using assms by (cases x; cases y) (auto simp: f_clamp_def Let_def f_le_def split: if_splits)


lemma f64_div_mono:
  assumes "f_le a b" and "0 < c"
  shows "f_le (f64_div a (Fin c)) (f64_div b (Fin c))"
proof -
  have "f_le (round64 (x / c)) (round64 (y / c))" if "x \<le> y" for x y
    using that assms(2) by (intro round64_mono) (simp add: divide_right_mono)
  then show ?thesis
    using assms by (cases a; cases b) (auto simp: f_signed_inf_def)
qed

lemma f64_mul_mono:
  assumes "f_le a b" and "0 < c"
  shows "f_le (f64_mul a (Fin c)) (f64_mul b (Fin c))"
proof -
  have "f_le (round64 (x * c)) (round64 (y * c))" if "x \<le> y" for x y
    using that assms(2) by (intro round64_mono) (simp add: mult_right_mono)
  then show ?thesis
    using assms by (cases a; cases b) (auto simp: f_signed_inf_def)
qed


text \<open>Rounding stays between any two doubles that enclose the value.\<close>

lemma round64_sandwich:
  assumes "round64 a = Fin a" and "round64 b = Fin b" and "a \<le> x" and "x \<le> b"
  shows "\<exists>y. round64 x = Fin y \<and> a \<le> y \<and> y \<le> b"
  using round64_mono[OF assms(3)] round64_mono[OF assms(4)] assms(1,2)
  by (cases "round64 x") (auto simp: f_le_def)

lemma round64_pow2:
  assumes "0 \<le> k" and "k < 1024"
  shows "round64 (2 powi k) = Fin (2 powi k)"
proof -
  have "rnd 53 (- 1074) (2 powi k) = (2 powi k :: rat)"
    using rnd_exact[of 1 53 "- 1074" k] assms by simp
  moreover have "(2 :: rat) powi k < 2 powi 1024" using assms by (simp only: powi2_less_iff)
  moreover have "- ((2 :: rat) powi 1024) < 2 powi k"
    using powi2_pos[of k] powi2_pos[of 1024] by linarith
  ultimately show ?thesis by (simp add: round64_def to_float_def Let_def)
qed

lemma round64_small_int [simp]: "round64 0 = Fin 0" "round64 1 = Fin 1" "round64 100 = Fin 100"
  using round64_int[of 0] round64_int[of 1] round64_int[of 100] by simp_all

text \<open>A \<open>u64\<close> converts to a finite double, at least one when it is positive.\<close>

lemma f64_of_nat_finite:
  assumes "n < 2 ^ 64"
  shows "\<exists>x. f64_of_nat n = Fin x \<and> 0 \<le> x \<and> (0 < n \<longrightarrow> 1 \<le> x)"
proof -
  have top: "round64 (2 ^ 64) = Fin (2 ^ 64)" using round64_pow2[of 64] by simp
  have "(of_nat n :: rat) \<le> of_nat (2 ^ 64)" using assms by (simp only: of_nat_le_iff)
  then have le: "(of_nat n :: rat) \<le> 2 ^ 64" by simp
  show ?thesis
  proof (cases "n = 0")
    case True
    then show ?thesis by (simp add: f64_of_nat_def)
  next
    case False
    then have "(1 :: rat) \<le> of_nat n" by simp
    from round64_sandwich[OF round64_small_int(2) top this le] show ?thesis
      by (auto simp: f64_of_nat_def)
  qed
qed

text \<open>A ratio of counters lies in the unit interval, and as a percentage between 0 and 100.\<close>

lemma f64_ratio_unit:
  assumes "a \<le> b" and "0 < b" and "b < 2 ^ 64"
  shows "\<exists>q. f64_div (f64_of_nat a) (f64_of_nat b) = Fin q \<and> 0 \<le> q \<and> q \<le> 1"
proof -
  obtain x where x: "f64_of_nat a = Fin x" "0 \<le> x" using f64_of_nat_finite[of a] assms by auto
  obtain y where y: "f64_of_nat b = Fin y" "1 \<le> y" using f64_of_nat_finite[of b] assms by auto
  have "x \<le> y" using f64_of_nat_mono[OF assms(1)] by (simp add: x y)
  then have "0 \<le> x / y" "x / y \<le> 1" using x y by (simp_all add: divide_le_eq)
  from round64_sandwich[OF round64_small_int(1,2) this] show ?thesis
    using y by (simp add: x)
qed

lemma f64_percent_bounds:
  assumes "a \<le> b" and "0 < b" and "b < 2 ^ 64"
  shows "\<exists>q. f64_mul (f64_div (f64_of_nat a) (f64_of_nat b)) (Fin 100) = Fin q \<and> 0 \<le> q \<and> q \<le> 100"
proof -
  obtain r where r: "f64_div (f64_of_nat a) (f64_of_nat b) = Fin r" "0 \<le> r" "r \<le> 1"
    using f64_ratio_unit[OF assms] by auto
  then have "0 \<le> r * 100" "r * 100 \<le> 100" by simp_all
  from round64_sandwich[OF round64_small_int(1,3) this] show ?thesis by (simp add: r)
qed

end
