(* ===== verification/Rust_Std.thy ===== *)
theory Rust_Std
  imports Rust_Float "HOL-Library.List_Lexorder" "HOL-Library.Char_ord"
    "HOL-Library.Product_Lexorder" "HOL-Library.Option_ord"
begin

text \<open>
  What the program uses of Rust's standard library besides integers and floats: outcomes that
  may panic, two's-complement \<open>i64\<close> results, strings (a \<open>String\<close> is the list of its UTF-8
  bytes, a byte is a \<open>char\<close>, and strings compare lexicographically by byte as \<open>Ord for str\<close>
  does), decimal printing and parsing, and \<open>Duration\<close> as a number of nanoseconds.
\<close>

section \<open>Panics and wrapping \<open>i64\<close> arithmetic\<close>

datatype 'a outcome = Returns 'a | Panics

text \<open>The value an \<open>i64\<close> operation leaves in the release profile.\<close>

definition wrap64 :: "int \<Rightarrow> i64" where
  "wrap64 x = (x + 2 ^ 63) mod 2 ^ 64 - 2 ^ 63"

lemma wrap64_id: "- (2 ^ 63) \<le> x \<Longrightarrow> x < 2 ^ 63 \<Longrightarrow> wrap64 x = x"
  by (simp add: wrap64_def)

lemma wrap64_range: "- (2 ^ 63) \<le> wrap64 x \<and> wrap64 x < 2 ^ 63"
proof -
  have "0 \<le> (x + 2 ^ 63) mod 2 ^ 64" "(x + 2 ^ 63) mod 2 ^ 64 < 2 ^ 64" by simp_all
  then show ?thesis by (simp add: wrap64_def)
qed

section \<open>Strings\<close>

type_synonym bytes = "char list"

abbreviation byte :: "char \<Rightarrow> nat" where
  "byte \<equiv> of_char"

subsection \<open>Characters of a UTF-8 string and \<open>str::trim\<close>\<close>

definition utf8_cont :: "char \<Rightarrow> bool" where
  "utf8_cont c \<longleftrightarrow> 128 \<le> byte c \<and> byte c < 192"

text \<open>The byte sequences of the characters of a valid UTF-8 string.\<close>

function utf8_chars :: "string \<Rightarrow> string list" where
  "utf8_chars [] = []"
| "utf8_chars (c # cs) = (c # takeWhile utf8_cont cs) # utf8_chars (dropWhile utf8_cont cs)"
  by pat_completeness auto
termination
  by (relation "measure length") (simp_all add: length_dropWhile_le less_Suc_eq_le)

text \<open>The characters with the Unicode property \<open>White_Space\<close>, as UTF-8 bytes.\<close>

definition utf8_white_space :: "nat list list" where
  "utf8_white_space =
     [[9], [10], [11], [12], [13], [32], [0xC2, 0x85], [0xC2, 0xA0], [0xE1, 0x9A, 0x80],
      [0xE2, 0x80, 0x80], [0xE2, 0x80, 0x81], [0xE2, 0x80, 0x82], [0xE2, 0x80, 0x83],
      [0xE2, 0x80, 0x84], [0xE2, 0x80, 0x85], [0xE2, 0x80, 0x86], [0xE2, 0x80, 0x87],
      [0xE2, 0x80, 0x88], [0xE2, 0x80, 0x89], [0xE2, 0x80, 0x8A], [0xE2, 0x80, 0xA8],
      [0xE2, 0x80, 0xA9], [0xE2, 0x80, 0xAF], [0xE2, 0x81, 0x9F], [0xE3, 0x80, 0x80]]"

definition is_white_space :: "string \<Rightarrow> bool" where
  "is_white_space c \<longleftrightarrow> map byte c \<in> set utf8_white_space"

definition str_trim :: "string \<Rightarrow> string" where
  "str_trim s =
     concat (rev (dropWhile is_white_space (rev (dropWhile is_white_space (utf8_chars s)))))"

lemma concat_utf8_chars [simp]: "concat (utf8_chars s) = s"
  by (induction s rule: utf8_chars.induct) auto

lemma utf8_chars_nonempty: "c \<in> set (utf8_chars s) \<Longrightarrow> c \<noteq> []"
  by (induction s rule: utf8_chars.induct) auto

lemma str_trim_empty_iff: "str_trim s = [] \<longleftrightarrow> (\<forall>c\<in>set (utf8_chars s). is_white_space c)"
proof -
  let ?d = "dropWhile is_white_space (utf8_chars s)"
  have drop: "dropWhile P (rev (dropWhile P xs)) = [] \<longleftrightarrow> (\<forall>c\<in>set xs. P c)" for P :: "string \<Rightarrow> bool" and xs
    by (induction xs) auto
  have nonempty: "concat (rev (dropWhile is_white_space (rev ?d))) = [] \<longleftrightarrow>
      dropWhile is_white_space (rev ?d) = []"
  proof -
    have "c \<noteq> []" if "c \<in> set (dropWhile is_white_space (rev ?d))" for c
      using that utf8_chars_nonempty[of c s] by (auto dest!: set_dropWhileD)
    moreover have "concat (rev ys) = [] \<longleftrightarrow> ys = []" if "\<And>c. c \<in> set ys \<Longrightarrow> c \<noteq> []" for ys :: "string list"
      using that by (cases ys) auto
    ultimately show ?thesis by blast
  qed
  show ?thesis by (simp only: str_trim_def nonempty drop)
qed

lemma str_trim_Nil [simp]: "str_trim [] = []"
  by (simp add: str_trim_def)

subsection \<open>Decimal printing and parsing\<close>

definition digit_char :: "nat \<Rightarrow> char" where
  "digit_char d = char_of (48 + d)"

fun show_nat :: "nat \<Rightarrow> string" where
  "show_nat n = (if n < 10 then [digit_char n] else show_nat (n div 10) @ [digit_char (n mod 10)])"

declare show_nat.simps [simp del]

definition show_int :: "int \<Rightarrow> string" where
  "show_int i = (if i < 0 then CHR ''-'' # show_nat (nat (- i)) else show_nat (nat i))"

definition is_digit :: "char \<Rightarrow> bool" where
  "is_digit c \<longleftrightarrow> 48 \<le> byte c \<and> byte c \<le> 57"

definition digits_value :: "string \<Rightarrow> nat" where
  "digits_value s = foldl (\<lambda>n c. n * 10 + (byte c - 48)) 0 s"

text \<open>\<open>str::parse::<usize>\<close>: an optional plus sign, at least one digit, no overflow.\<close>

definition parse_usize :: "string \<Rightarrow> usize option" where
  "parse_usize s =
     (let t = (case s of c # cs \<Rightarrow> (if c = CHR ''+'' then cs else s) | [] \<Rightarrow> s)
      in if t \<noteq> [] \<and> list_all is_digit t \<and> digits_value t < 2 ^ 64
         then Some (digits_value t) else None)"

lemma byte_digit_char: "d < 10 \<Longrightarrow> byte (digit_char d) = 48 + d"
  by (simp add: digit_char_def)

lemma is_digit_digit_char: "d < 10 \<Longrightarrow> is_digit (digit_char d)"
  by (simp add: is_digit_def byte_digit_char)

lemma show_nat_digits: "list_all is_digit (show_nat n)"
proof (induction n rule: show_nat.induct)
  case (1 n)
  then show ?case by (subst show_nat.simps) (simp add: is_digit_digit_char)
qed

lemma show_nat_nonempty [simp]: "show_nat n \<noteq> []"
  by (subst show_nat.simps) simp

lemma digits_value_show_nat: "digits_value (show_nat n) = n"
proof (induction n rule: show_nat.induct)
  case (1 n)
  show ?case
  proof (cases "n < 10")
    case True
    then show ?thesis by (subst show_nat.simps) (simp add: digits_value_def byte_digit_char)
  next
    case False
    then have "digits_value (show_nat (n div 10)) = n div 10" using 1 by simp
    with False show ?thesis
      by (subst show_nat.simps) (simp add: digits_value_def byte_digit_char)
  qed
qed

lemma show_nat_inj: "show_nat m = show_nat n \<Longrightarrow> m = n"
  by (metis digits_value_show_nat)

lemma parse_usize_show_nat: "n < 2 ^ 64 \<Longrightarrow> parse_usize (show_nat n) = Some n"
proof -
  assume n: "n < 2 ^ 64"
  obtain c cs where s: "show_nat n = c # cs" by (cases "show_nat n") auto
  have "is_digit c" using show_nat_digits[of n] by (simp add: s)
  then have "c \<noteq> CHR ''+''" by (auto simp: is_digit_def)
  then show ?thesis
    using n show_nat_digits[of n] digits_value_show_nat[of n]
    by (simp add: parse_usize_def s)
qed

lemma show_nat_char: "c \<in> set (show_nat n) \<Longrightarrow> is_digit c"
  using show_nat_digits[of n] by (simp add: list_all_iff)

subsection \<open>ASCII case\<close>

definition ascii_lower :: "char \<Rightarrow> char" where
  "ascii_lower c = (if 65 \<le> byte c \<and> byte c \<le> 90 then char_of (byte c + 32) else c)"

definition eq_ignore_ascii_case :: "string \<Rightarrow> string \<Rightarrow> bool" where
  "eq_ignore_ascii_case s t \<longleftrightarrow> map ascii_lower s = map ascii_lower t"

subsection \<open>Searching\<close>

text \<open>\<open>str::split_once\<close> on an ASCII character, \<open>str::contains\<close>, \<open>str::strip_prefix\<close>.\<close>

fun split_once :: "'a \<Rightarrow> 'a list \<Rightarrow> ('a list \<times> 'a list) option" where
  "split_once c [] = None"
| "split_once c (x # xs) =
     (if x = c then Some ([], xs)
      else (case split_once c xs of None \<Rightarrow> None | Some (a, b) \<Rightarrow> Some (x # a, b)))"

fun starts_with :: "'a list \<Rightarrow> 'a list \<Rightarrow> bool" where
  "starts_with s [] = True"
| "starts_with [] (p # ps) = False"
| "starts_with (x # xs) (p # ps) = (x = p \<and> starts_with xs ps)"

fun contains_sub :: "'a list \<Rightarrow> 'a list \<Rightarrow> bool" where
  "contains_sub [] p = (p = [])"
| "contains_sub (x # xs) p = (starts_with (x # xs) p \<or> contains_sub xs p)"

definition strip_prefix :: "'a list \<Rightarrow> 'a list \<Rightarrow> 'a list option" where
  "strip_prefix s p = (if starts_with s p then Some (drop (length p) s) else None)"

lemma split_once_Some: "split_once c s = Some (a, b) \<Longrightarrow> s = a @ c # b \<and> c \<notin> set a"
  by (induction s arbitrary: a) (auto split: if_splits option.splits)

lemma split_once_None: "split_once c s = None \<longleftrightarrow> c \<notin> set s"
  by (induction s) (auto split: option.splits)

lemma split_once_append: "c \<notin> set a \<Longrightarrow> split_once c (a @ c # b) = Some (a, b)"
  by (induction a) auto

lemma starts_with_append [simp]: "starts_with (p @ s) p"
  by (induction p) auto

lemma starts_with_iff: "starts_with s p \<longleftrightarrow> (\<exists>r. s = p @ r)"
  by (induction s p rule: starts_with.induct) auto

lemma contains_sub_iff: "contains_sub s p \<longleftrightarrow> (\<exists>a b. s = a @ p @ b)"
proof (induction s)
  case (Cons x xs)
  show ?case
  proof
    assume "contains_sub (x # xs) p"
    then consider b where "x # xs = [] @ p @ b" | a b where "xs = a @ p @ b"
      using Cons by (auto simp: starts_with_iff)
    then show "\<exists>a b. x # xs = a @ p @ b" by cases (blast, metis append_Cons)
  next
    assume "\<exists>a b. x # xs = a @ p @ b"
    then obtain a b where e: "x # xs = a @ p @ b" by blast
    show "contains_sub (x # xs) p"
    proof (cases a)
      case Nil
      then have "starts_with (x # xs) p" using e by (simp only: starts_with_iff append_Nil) blast
      then show ?thesis by simp
    next
      case (Cons y ys)
      then show ?thesis using e Cons.IH by auto
    qed
  qed
qed auto

section \<open>Durations\<close>

text \<open>A \<open>Duration\<close> is its length in nanoseconds.\<close>

type_synonym duration = nat

definition from_millis :: "nat \<Rightarrow> duration" where
  "from_millis n = n * 10 ^ 6"

definition from_secs :: "nat \<Rightarrow> duration" where
  "from_secs n = n * 10 ^ 9"

definition duration_new :: "nat \<Rightarrow> nat \<Rightarrow> duration" where
  "duration_new secs nanos = secs * 10 ^ 9 + nanos"

definition as_millis :: "duration \<Rightarrow> nat" where
  "as_millis d = d div 10 ^ 6"

definition as_secs_f64 :: "duration \<Rightarrow> f64" where
  "as_secs_f64 d = f64_add (f64_of_nat (d div 10 ^ 9))
                           (f64_div (f64_of_nat (d mod 10 ^ 9)) (Fin (10 ^ 9)))"

text \<open>
  \<open>Duration::from_secs_f64\<close> rounds to the nearest nanosecond, ties to even, and panics on a
  negative, non-finite or too large argument.
\<close>

fun from_secs_f64 :: "f64 \<Rightarrow> duration outcome" where
  "from_secs_f64 (Fin x) = (if x < 0 \<or> 2 ^ 64 \<le> x then Panics else Returns (nat (rhe (x * 10 ^ 9))))"
| "from_secs_f64 _ = Panics"

lemma as_millis_from_millis [simp]: "as_millis (from_millis n) = n"
  by (simp add: as_millis_def from_millis_def)

end
