(* ===== verification/Chaos.thy ===== *)
theory Chaos
  imports Rust_Std
begin

text \<open>
  The chaos engine (\<open>src/chaos.rs\<close>): faults injected into iterations at a configured rate.
  The two random draws of \<open>select_fault\<close> are arguments: \<open>r\<close> in \<open>[0, 1)\<close> and \<open>d\<close> in \<open>0..4\<close>.
\<close>

datatype chaos_fault =
  LatencySpike (duration_ms: u64) | CorruptedPayload | MetadataCorruption | ConnectionDrop

fun chaos_fault_name :: "chaos_fault \<Rightarrow> string" where
  "chaos_fault_name (LatencySpike _) = ''LatencySpike''"
| "chaos_fault_name CorruptedPayload = ''CorruptedPayload''"
| "chaos_fault_name MetadataCorruption = ''MetadataCorruption''"
| "chaos_fault_name ConnectionDrop = ''ConnectionDrop''"

record chaos_metrics =
  chm_total_injected :: u64
  chm_faults_by_type :: "(string, u64) hash_map"

definition chaos_metrics_new :: chaos_metrics where
  "chaos_metrics_new = \<lparr>chm_total_injected = 0, chm_faults_by_type = []\<rparr>"

definition record_fault :: "chaos_metrics \<Rightarrow> chaos_fault \<Rightarrow> chaos_metrics" where
  "record_fault m fault =
     m\<lparr>chm_total_injected := chm_total_injected m + 1,
       chm_faults_by_type := hm_upsert (chaos_fault_name fault) 0 (\<lambda>n. n + 1) (chm_faults_by_type m)\<rparr>"

record chaos_engine =
  ce_enabled :: bool
  ce_rate :: f32

definition chaos_engine_new :: "bool \<Rightarrow> f32 \<Rightarrow> chaos_engine" where
  "chaos_engine_new enabled rate =
     \<lparr>ce_enabled = enabled,
      ce_rate = (if is_nan rate then Fin 0 else f_clamp rate (Fin 0) (Fin 1))\<rparr>"

definition select_fault :: "chaos_engine \<Rightarrow> f32 \<Rightarrow> nat \<Rightarrow> chaos_fault option" where
  "select_fault e r d =
     (if \<not> ce_enabled e \<or> f_le (ce_rate e) r then None
      else if d = 0 then Some (LatencySpike 150)
      else if d = 1 then Some CorruptedPayload
      else if d = 2 then Some MetadataCorruption
      else Some ConnectionDrop)"

section \<open>Properties\<close>

lemma chaos_rate_unit: "\<exists>c. ce_rate (chaos_engine_new en rate) = Fin c \<and> 0 \<le> c \<and> c \<le> 1"
  using f_clamp_unit[of rate] by (auto simp: chaos_engine_new_def)

text \<open>
  The tally of faults by type is a partition of the injected faults: it is an \<open>additive_fold\<close>
  for the total over the types, and the total counter moves in step.
\<close>

definition chaos_inv :: "chaos_metrics \<Rightarrow> bool" where
  [strob_inv]: "chaos_inv m \<longleftrightarrow> hm_inv (chm_faults_by_type m) \<and>
     sum_list (map snd (chm_faults_by_type m)) = chm_total_injected m"

definition fault_count :: "chaos_metrics \<Rightarrow> string \<Rightarrow> u64" where
  "fault_count m name = (case map_of (chm_faults_by_type m) name of None \<Rightarrow> 0 | Some n \<Rightarrow> n)"

interpretation chaos_tally: additive_fold record_fault chaos_inv "\<lambda>_. True"
  chm_total_injected "\<lambda>_. 1"
  by unfold_locales (auto simp: record_fault_def chaos_inv_def hm_count_total hm.inv_upsert)

interpretation chaos_by_type: additive_fold record_fault chaos_inv "\<lambda>_. True"
  "\<lambda>m. fault_count m name" "\<lambda>f. if name = chaos_fault_name f then 1 else 0" for name
  by unfold_locales
    (auto simp: record_fault_def chaos_inv_def fault_count_def hm_count_lookup hm_count_total hm.inv_upsert)

end
