(* ===== verification/Metric_Types.thy ===== *)
theory Metric_Types
  imports Chaos
begin

text \<open>
  The metric data model (\<open>src/metrics/request.rs\<close>, \<open>protocols.rs\<close>, \<open>helpers.rs\<close>): one
  \<open>RequestMetric\<close> per iteration with its protocol sample, the builder the engines use, the
  per-protocol report blocks, and the pub/sub payload format.

  The HDR histogram is a third-party crate: every definition that uses one takes its operations
  as an argument \<open>H\<close> of type \<open>'h hdr_ops\<close>, and \<open>hdr_laws\<close> collects what the crate documents
  about them.
\<close>

section \<open>HDR histograms as a parameter\<close>

record 'h hdr_ops =
  hdr_new :: "u64 \<Rightarrow> nat \<Rightarrow> 'h"
  hdr_saturating_record :: "u64 \<Rightarrow> 'h \<Rightarrow> 'h"
  hdr_is_empty :: "'h \<Rightarrow> bool"
  hdr_len :: "'h \<Rightarrow> u64"
  hdr_mean :: "'h \<Rightarrow> f64"
  hdr_stdev :: "'h \<Rightarrow> f64"
  hdr_min :: "'h \<Rightarrow> u64"
  hdr_max :: "'h \<Rightarrow> u64"
  hdr_value_at_quantile :: "'h \<Rightarrow> f64 \<Rightarrow> u64"
  hdr_iter_recorded :: "'h \<Rightarrow> (u64 \<times> u64) list"

text \<open>
  What the crate documents: a new histogram is empty; recording adds one sample (the total
  saturates at \<open>u64::MAX\<close>); a histogram is empty when it has no samples; the counts of the
  recorded values add up to the number of samples (unless that saturated); quantiles grow
  with the quantile.
\<close>

definition hdr_laws :: "'h hdr_ops \<Rightarrow> bool" where
  "hdr_laws H \<longleftrightarrow>
     (\<forall>hi sig. hdr_len H (hdr_new H hi sig) = 0) \<and>
     (\<forall>v h. hdr_len H (hdr_saturating_record H v h) =
        (if hdr_len H h = u64_max then u64_max else hdr_len H h + 1)) \<and>
     (\<forall>h. hdr_is_empty H h \<longleftrightarrow> hdr_len H h = 0) \<and>
     (\<forall>h. hdr_len H h \<noteq> u64_max \<longrightarrow> sum_list (map snd (hdr_iter_recorded H h)) = hdr_len H h) \<and>
     (\<forall>h p q. f_le p q \<longrightarrow> hdr_value_at_quantile H h p \<le> hdr_value_at_quantile H h q)"

lemma hdr_lawsD:
  assumes "hdr_laws H"
  shows "hdr_len H (hdr_new H hi sig) = 0"
    and "hdr_len H (hdr_saturating_record H v h) =
           (if hdr_len H h = u64_max then u64_max else hdr_len H h + 1)"
    and "hdr_is_empty H h \<longleftrightarrow> hdr_len H h = 0"
    and "hdr_len H h \<noteq> u64_max \<Longrightarrow> sum_list (map snd (hdr_iter_recorded H h)) = hdr_len H h"
    and "f_le p q \<Longrightarrow> hdr_value_at_quantile H h p \<le> hdr_value_at_quantile H h q"
  using assms unfolding hdr_laws_def by blast+

section \<open>Samples of one iteration\<close>

record ws_sample =
  wss_pings_sent :: u64
  wss_pings_received :: u64
  wss_pongs_solicited :: u64
  wss_pongs_unsolicited :: u64
  wss_backpressure_max_bytes :: u64
  wss_backpressure_samples_sum :: u64
  wss_backpressure_sample_count :: u64
  wss_threshold_breaches :: u64

definition ws_is_significant :: "ws_sample \<Rightarrow> bool" where
  "ws_is_significant s \<longleftrightarrow>
     wss_pings_sent s > 0 \<or> wss_pings_received s > 0 \<or> wss_pongs_solicited s > 0 \<or>
     wss_pongs_unsolicited s > 0 \<or> wss_backpressure_max_bytes s > 0 \<or>
     wss_backpressure_sample_count s > 0 \<or> wss_threshold_breaches s > 0"

record grpc_sample =
  grs_active_streams :: u64
  grs_max_concurrent_streams :: u64
  grs_utilization :: f64
  grs_window_exhaustion_events :: u64
  grs_window_stall_us :: u64
  grs_send_capacity_bytes :: u64
  grs_has_send_capacity :: bool

definition grpc_is_significant :: "grpc_sample \<Rightarrow> bool" where
  "grpc_is_significant s \<longleftrightarrow>
     grs_active_streams s > 0 \<or> f_less (Fin 0) (grs_utilization s) \<or>
     grs_window_exhaustion_events s > 0 \<or> grs_window_stall_us s > 0 \<or> grs_has_send_capacity s"

record http3_sample =
  h3s_cwnd_bytes :: u64
  h3s_migrations_attempted :: u64
  h3s_migrations_successful :: u64

definition http3_is_significant :: "http3_sample \<Rightarrow> bool" where
  "http3_is_significant s \<longleftrightarrow> h3s_cwnd_bytes s > 0 \<or> h3s_migrations_attempted s > 0"

record stomp_sample =
  sts_messages_sent :: u64
  sts_messages_received :: u64
  sts_bytes_sent :: u64
  sts_bytes_received :: u64
  sts_errors :: u64
  sts_reconnects :: u64
  sts_send_latency_us :: "u64 option"
  sts_receive_interval_us :: "u64 option"
  sts_ttfm_us :: "u64 option"

definition is_some :: "'a option \<Rightarrow> bool" where
  "is_some x \<longleftrightarrow> x \<noteq> None"

definition stomp_is_significant :: "stomp_sample \<Rightarrow> bool" where
  "stomp_is_significant s \<longleftrightarrow>
     sts_messages_sent s > 0 \<or> sts_messages_received s > 0 \<or> sts_bytes_sent s > 0 \<or>
     sts_errors s > 0 \<or> sts_reconnects s > 0 \<or> is_some (sts_send_latency_us s) \<or>
     is_some (sts_receive_interval_us s) \<or> is_some (sts_ttfm_us s)"

record db_sample =
  dbs_rows :: u64
  dbs_errors :: u64
  dbs_acquire_us :: "u64 option"
  dbs_query_us :: "u64 option"
  dbs_pool_size :: u64
  dbs_pool_idle :: u64

definition db_is_significant :: "db_sample \<Rightarrow> bool" where
  "db_is_significant s \<longleftrightarrow>
     dbs_rows s > 0 \<or> dbs_errors s > 0 \<or> is_some (dbs_acquire_us s) \<or>
     is_some (dbs_query_us s) \<or> dbs_pool_size s > 0"

record quic_sample =
  qs_handshake_us :: "u64 option"
  qs_used_0rtt :: bool
  qs_retransmits :: "u64 option"

definition quic_is_significant :: "quic_sample \<Rightarrow> bool" where
  "quic_is_significant s \<longleftrightarrow> is_some (qs_handshake_us s) \<or> qs_used_0rtt s \<or> is_some (qs_retransmits s)"

record sse_sample =
  ses_events_received :: "u64 option"
  ses_first_event_us :: "u64 option"
  ses_event_interval_us :: "u64 option"

record graphql_sample =
  gs_errors :: u64

record graphql_ws_sample =
  gws_operations :: "u64 option"
  gws_ttfm_us :: "u64 option"
  gws_interval_us :: "u64 option"
  gws_errors :: "u64 option"

record soap_sample =
  sos_faults :: u64

datatype protocol_sample =
    Ws ws_sample
  | Grpc grpc_sample
  | Http3 "http3_sample option" "quic_sample option"
  | Sse sse_sample
  | Stomp stomp_sample
  | Db db_sample
  | Graphql graphql_sample
  | GraphqlWs graphql_ws_sample
  | Soap soap_sample

section \<open>The metric of one iteration and its builder\<close>

record connection_metrics =
  cn_connection_latency_us :: "u128 option"
  cn_timestamp_sent_ns :: "u128 option"
  cn_e2e_latency_us :: "u128 option"
  cn_dns_resolution_us :: "u64 option"
  cn_is_socket_reused :: bool

definition connection_metrics_default :: connection_metrics where
  "connection_metrics_default =
     \<lparr>cn_connection_latency_us = None, cn_timestamp_sent_ns = None, cn_e2e_latency_us = None,
      cn_dns_resolution_us = None, cn_is_socket_reused = False\<rparr>"

record request_metric =
  rm_latency_micros :: u128
  rm_status_code :: u16
  rm_bytes_received :: u64
  rm_is_reconnect :: bool
  rm_connection :: connection_metrics
  rm_protocol :: "protocol_sample option"
  rm_chaos_fault :: "chaos_fault option"

definition rm_builder :: "u128 \<Rightarrow> chaos_fault option \<Rightarrow> request_metric" where
  "rm_builder latency_micros chaos_fault =
     \<lparr>rm_latency_micros = latency_micros, rm_status_code = 0, rm_bytes_received = 0,
      rm_is_reconnect = False, rm_connection = connection_metrics_default,
      rm_protocol = None, rm_chaos_fault = chaos_fault\<rparr>"

definition rm_error :: "u128 \<Rightarrow> chaos_fault option \<Rightarrow> request_metric" where
  "rm_error latency_micros chaos_fault = rm_builder latency_micros chaos_fault"

definition rm_is_error :: "request_metric \<Rightarrow> bool" where
  "rm_is_error m =
     (if rm_status_code m = 0 \<or> rm_status_code m \<ge> 400 then True
      else case rm_protocol m of
             Some (Graphql s) \<Rightarrow> gs_errors s > 0
           | Some (GraphqlWs s) \<Rightarrow> (case gws_errors s of None \<Rightarrow> False | Some n \<Rightarrow> n > 0)
           | Some (Soap s) \<Rightarrow> sos_faults s > 0
           | Some (Stomp s) \<Rightarrow> sts_errors s > 0
           | Some (Db s) \<Rightarrow> dbs_errors s > 0
           | _ \<Rightarrow> False)"

definition rm_ws :: "request_metric \<Rightarrow> ws_sample option" where
  "rm_ws m = (case rm_protocol m of Some (Ws s) \<Rightarrow> Some s | _ \<Rightarrow> None)"

definition rm_grpc :: "request_metric \<Rightarrow> grpc_sample option" where
  "rm_grpc m = (case rm_protocol m of Some (Grpc s) \<Rightarrow> Some s | _ \<Rightarrow> None)"

definition rm_http3 :: "request_metric \<Rightarrow> http3_sample option" where
  "rm_http3 m = (case rm_protocol m of Some (Http3 (Some s) _) \<Rightarrow> Some s | _ \<Rightarrow> None)"

definition rm_quic :: "request_metric \<Rightarrow> quic_sample option" where
  "rm_quic m = (case rm_protocol m of Some (Http3 _ (Some s)) \<Rightarrow> Some s | _ \<Rightarrow> None)"

definition rm_sse :: "request_metric \<Rightarrow> sse_sample option" where
  "rm_sse m = (case rm_protocol m of Some (Sse s) \<Rightarrow> Some s | _ \<Rightarrow> None)"

definition rm_graphql :: "request_metric \<Rightarrow> graphql_sample option" where
  "rm_graphql m = (case rm_protocol m of Some (Graphql s) \<Rightarrow> Some s | _ \<Rightarrow> None)"

definition rm_graphql_ws :: "request_metric \<Rightarrow> graphql_ws_sample option" where
  "rm_graphql_ws m = (case rm_protocol m of Some (GraphqlWs s) \<Rightarrow> Some s | _ \<Rightarrow> None)"

definition rm_soap :: "request_metric \<Rightarrow> soap_sample option" where
  "rm_soap m = (case rm_protocol m of Some (Soap s) \<Rightarrow> Some s | _ \<Rightarrow> None)"

definition rm_stomp :: "request_metric \<Rightarrow> stomp_sample option" where
  "rm_stomp m = (case rm_protocol m of Some (Stomp s) \<Rightarrow> Some s | _ \<Rightarrow> None)"

definition rm_db :: "request_metric \<Rightarrow> db_sample option" where
  "rm_db m = (case rm_protocol m of Some (Db s) \<Rightarrow> Some s | _ \<Rightarrow> None)"

text \<open>The builder: \<open>with_f x b\<close> is the method \<open>b.f(x)\<close>; \<open>build\<close> is the identity.\<close>

definition with_status :: "u16 \<Rightarrow> request_metric \<Rightarrow> request_metric" where
  "with_status c b = b\<lparr>rm_status_code := c\<rparr>"

definition with_bytes :: "u64 \<Rightarrow> request_metric \<Rightarrow> request_metric" where
  "with_bytes n b = b\<lparr>rm_bytes_received := n\<rparr>"

definition with_reconnect :: "bool \<Rightarrow> request_metric \<Rightarrow> request_metric" where
  "with_reconnect r b = b\<lparr>rm_is_reconnect := r\<rparr>"

definition with_connection_latency_us :: "u128 option \<Rightarrow> request_metric \<Rightarrow> request_metric" where
  "with_connection_latency_us us b =
     b\<lparr>rm_connection := (rm_connection b)\<lparr>cn_connection_latency_us := us\<rparr>\<rparr>"

definition with_timestamp_sent_ns :: "u128 option \<Rightarrow> request_metric \<Rightarrow> request_metric" where
  "with_timestamp_sent_ns ns b =
     b\<lparr>rm_connection := (rm_connection b)\<lparr>cn_timestamp_sent_ns := ns\<rparr>\<rparr>"

definition with_e2e_latency_us :: "u128 option \<Rightarrow> request_metric \<Rightarrow> request_metric" where
  "with_e2e_latency_us us b = b\<lparr>rm_connection := (rm_connection b)\<lparr>cn_e2e_latency_us := us\<rparr>\<rparr>"

definition with_dns_resolution_us :: "u64 option \<Rightarrow> request_metric \<Rightarrow> request_metric" where
  "with_dns_resolution_us us b =
     b\<lparr>rm_connection := (rm_connection b)\<lparr>cn_dns_resolution_us := us\<rparr>\<rparr>"

definition with_socket_reused :: "bool \<Rightarrow> request_metric \<Rightarrow> request_metric" where
  "with_socket_reused r b = b\<lparr>rm_connection := (rm_connection b)\<lparr>cn_is_socket_reused := r\<rparr>\<rparr>"

definition with_quic :: "u64 option \<Rightarrow> bool \<Rightarrow> u64 option \<Rightarrow> request_metric \<Rightarrow> request_metric" where
  "with_quic handshake_us used_0rtt retransmits b =
     (let sample = \<lparr>qs_handshake_us = handshake_us, qs_used_0rtt = used_0rtt,
                    qs_retransmits = retransmits\<rparr>
      in case rm_protocol b of
           Some (Http3 h _) \<Rightarrow> b\<lparr>rm_protocol := Some (Http3 h (Some sample))\<rparr>
         | _ \<Rightarrow> b\<lparr>rm_protocol := Some (Http3 None (Some sample))\<rparr>)"

definition with_sse_events ::
    "u64 option \<Rightarrow> u64 option \<Rightarrow> u64 option \<Rightarrow> request_metric \<Rightarrow> request_metric" where
  "with_sse_events events first_event_us event_interval_us b =
     b\<lparr>rm_protocol := Some (Sse \<lparr>ses_events_received = events, ses_first_event_us = first_event_us,
                                 ses_event_interval_us = event_interval_us\<rparr>)\<rparr>"

definition with_ws :: "ws_sample option \<Rightarrow> request_metric \<Rightarrow> request_metric" where
  "with_ws sample b = (case sample of None \<Rightarrow> b | Some s \<Rightarrow> b\<lparr>rm_protocol := Some (Ws s)\<rparr>)"

definition with_graphql :: "u64 option \<Rightarrow> request_metric \<Rightarrow> request_metric" where
  "with_graphql errors b =
     (case errors of None \<Rightarrow> b | Some n \<Rightarrow> b\<lparr>rm_protocol := Some (Graphql \<lparr>gs_errors = n\<rparr>)\<rparr>)"

definition with_soap :: "u64 option \<Rightarrow> request_metric \<Rightarrow> request_metric" where
  "with_soap faults b =
     (case faults of None \<Rightarrow> b | Some n \<Rightarrow> b\<lparr>rm_protocol := Some (Soap \<lparr>sos_faults = n\<rparr>)\<rparr>)"

definition with_graphql_ws ::
    "u64 option \<Rightarrow> u64 option \<Rightarrow> u64 option \<Rightarrow> u64 option \<Rightarrow> request_metric \<Rightarrow> request_metric" where
  "with_graphql_ws operations ttfm_us interval_us errors b =
     b\<lparr>rm_protocol := Some (GraphqlWs \<lparr>gws_operations = operations, gws_ttfm_us = ttfm_us,
                                       gws_interval_us = interval_us, gws_errors = errors\<rparr>)\<rparr>"

definition with_grpc :: "grpc_sample option \<Rightarrow> request_metric \<Rightarrow> request_metric" where
  "with_grpc sample b = (case sample of None \<Rightarrow> b | Some s \<Rightarrow> b\<lparr>rm_protocol := Some (Grpc s)\<rparr>)"

definition with_http3 :: "http3_sample option \<Rightarrow> request_metric \<Rightarrow> request_metric" where
  "with_http3 sample b =
     (case sample of
        None \<Rightarrow> b
      | Some s \<Rightarrow> (case rm_protocol b of
                     Some (Http3 _ q) \<Rightarrow> b\<lparr>rm_protocol := Some (Http3 (Some s) q)\<rparr>
                   | _ \<Rightarrow> b\<lparr>rm_protocol := Some (Http3 (Some s) None)\<rparr>))"

definition with_stomp :: "stomp_sample option \<Rightarrow> request_metric \<Rightarrow> request_metric" where
  "with_stomp sample b = (case sample of None \<Rightarrow> b | Some s \<Rightarrow> b\<lparr>rm_protocol := Some (Stomp s)\<rparr>)"

definition with_db :: "db_sample option \<Rightarrow> request_metric \<Rightarrow> request_metric" where
  "with_db sample b = (case sample of None \<Rightarrow> b | Some s \<Rightarrow> b\<lparr>rm_protocol := Some (Db s)\<rparr>)"

section \<open>Report blocks per protocol\<close>

record quic_metrics =
  qm_zero_rtt_accepted_count :: u64
  qm_retransmissions :: u64
  qm_avg_handshake_ms :: "f64 option"

record sse_metrics =
  sem_total_events_received :: u64
  sem_avg_ttfb_ms :: "f64 option"

record graphql_metrics =
  gm_operations_total :: u64
  gm_error_responses_total :: u64
  gm_errors_total :: u64
  gm_operation_type :: string

text \<open>Mean and percentiles of a histogram, in milliseconds.\<close>

record percentiles =
  pc_mean_ms :: f64
  pc_p50_ms :: f64
  pc_p90_ms :: f64
  pc_p99_ms :: f64

definition percentiles_default :: percentiles where
  "percentiles_default = \<lparr>pc_mean_ms = Fin 0, pc_p50_ms = Fin 0, pc_p90_ms = Fin 0, pc_p99_ms = Fin 0\<rparr>"

text \<open>
  The report blocks carry groups of four fields \<open><x>_mean_ms\<close>, \<open><x>_p50_ms\<close>, \<open><x>_p90_ms\<close>,
  \<open><x>_p99_ms\<close> filled together by \<open>fold_percentiles\<close>; a group is one \<open>percentiles\<close> here.
\<close>

record graphql_ws_metrics =
  gwm_operations_total :: u64
  gwm_messages_total :: u64
  gwm_errors_total :: u64
  gwm_ttfm :: percentiles
  gwm_interval :: percentiles

record soap_metrics =
  som_operations_total :: u64
  som_fault_responses_total :: u64
  som_soap_version :: string

record stomp_metrics =
  stm_messages_sent_total :: u64
  stm_messages_received_total :: u64
  stm_bytes_sent_total :: u64
  stm_errors_total :: u64
  stm_reconnects_total :: u64
  stm_destination :: string
  stm_mode :: string
  stm_ack_mode :: string
  stm_receipts_enabled :: bool
  stm_send_latency :: percentiles
  stm_receive_interval :: percentiles
  stm_ttfm :: percentiles

record database_metrics =
  dbm_driver :: string
  dbm_queries_total :: u64
  dbm_rows_total :: u64
  dbm_errors_total :: u64
  dbm_pool_max :: u64
  dbm_pool_size :: u64
  dbm_fetch_mode :: string
  dbm_pool_acquire :: percentiles
  dbm_query :: percentiles

record websocket_metrics =
  wsm_pings_sent_total :: u64
  wsm_pings_received_total :: u64
  wsm_pongs_solicited_total :: u64
  wsm_pongs_unsolicited_total :: u64
  wsm_backpressure_max_bytes :: u64
  wsm_backpressure_mean_bytes :: f64
  wsm_backpressure_threshold_breaches :: u64

record grpc_metrics =
  grm_active_streams_peak :: u64
  grm_concurrency_utilization_peak :: f64
  grm_concurrency_utilization_mean :: f64
  grm_window_exhaustion_events_total :: u64
  grm_window_stall_duration_ms_total :: f64
  grm_send_capacity_min_bytes :: u64

record http3_metrics =
  h3m_cwnd_bytes_current :: u64
  h3m_cwnd_bytes_min :: u64
  h3m_cwnd_bytes_max :: u64
  h3m_cwnd_bytes_mean :: f64
  h3m_migrations_attempted_total :: u64
  h3m_migrations_successful_total :: u64
  h3m_migration_success_rate :: f64

section \<open>Helpers\<close>

abbreviation micros_per_milli :: f64 where
  "micros_per_milli \<equiv> Fin 1000"

definition histogram_highest_trackable :: u64 where
  "histogram_highest_trackable = 3600000000"

definition histogram_significant_figures :: nat where
  "histogram_significant_figures = 3"

definition new_histogram :: "'h hdr_ops \<Rightarrow> 'h" where
  "new_histogram H = hdr_new H histogram_highest_trackable histogram_significant_figures"

definition percentiles_from_histogram :: "'h hdr_ops \<Rightarrow> 'h \<Rightarrow> percentiles" where
  "percentiles_from_histogram H hist =
     (if hdr_is_empty H hist then percentiles_default
      else let ms = (\<lambda>v. f64_div (f64_of_u64 v) micros_per_milli)
           in \<lparr>pc_mean_ms = f64_div (hdr_mean H hist) micros_per_milli,
               pc_p50_ms = ms (hdr_value_at_quantile H hist (f64_lit (50 / 100))),
               pc_p90_ms = ms (hdr_value_at_quantile H hist (f64_lit (90 / 100))),
               pc_p99_ms = ms (hdr_value_at_quantile H hist (f64_lit (99 / 100)))\<rparr>)"

definition fold_percentiles :: "'h hdr_ops \<Rightarrow> 'h \<Rightarrow> (percentiles \<Rightarrow> 's \<Rightarrow> 's) \<Rightarrow> 's \<Rightarrow> 's" where
  "fold_percentiles H hist apply_fn s =
     (if hdr_is_empty H hist then s else apply_fn (percentiles_from_histogram H hist) s)"

definition graphql_ws_stats_from_histograms ::
    "'h hdr_ops \<Rightarrow> graphql_ws_metrics \<Rightarrow> 'h \<Rightarrow> 'h \<Rightarrow> graphql_ws_metrics" where
  "graphql_ws_stats_from_histograms H stats ttfm interval =
     fold_percentiles H interval (\<lambda>p s. s\<lparr>gwm_interval := p\<rparr>)
       (fold_percentiles H ttfm (\<lambda>p s. s\<lparr>gwm_ttfm := p\<rparr>) stats)"

definition stomp_stats_from_histograms ::
    "'h hdr_ops \<Rightarrow> stomp_metrics \<Rightarrow> 'h \<Rightarrow> 'h \<Rightarrow> 'h \<Rightarrow> stomp_metrics" where
  "stomp_stats_from_histograms H stats send interval ttfm =
     fold_percentiles H ttfm (\<lambda>p s. s\<lparr>stm_ttfm := p\<rparr>)
       (fold_percentiles H interval (\<lambda>p s. s\<lparr>stm_receive_interval := p\<rparr>)
         (fold_percentiles H send (\<lambda>p s. s\<lparr>stm_send_latency := p\<rparr>) stats))"

definition db_stats_from_histograms ::
    "'h hdr_ops \<Rightarrow> database_metrics \<Rightarrow> 'h \<Rightarrow> 'h \<Rightarrow> database_metrics" where
  "db_stats_from_histograms H stats acquire query =
     fold_percentiles H query (\<lambda>p s. s\<lparr>dbm_query := p\<rparr>)
       (fold_percentiles H acquire (\<lambda>p s. s\<lparr>dbm_pool_acquire := p\<rparr>) stats)"

subsection \<open>Pub/sub payloads\<close>

text \<open>\<open>ns_since_epoch\<close> of a clock reading; \<open>to_be_bytes\<close>/\<open>from_be_bytes\<close> of a \<open>u128\<close>.\<close>

definition ns_since_epoch :: "int \<Rightarrow> u128" where
  "ns_since_epoch t = (if t < 0 then 0 else word_of_int t)"

definition to_be_bytes :: "u128 \<Rightarrow> bytes" where
  "to_be_bytes w = map (\<lambda>i. char_of (unat w div 256 ^ (15 - i) mod 256)) [0..<16]"

definition from_be_bytes :: "bytes \<Rightarrow> u128" where
  "from_be_bytes bs = of_nat (foldl (\<lambda>n b. n * 256 + byte b) 0 bs)"

definition create_pubsub_payload :: "int \<Rightarrow> bytes \<Rightarrow> bytes" where
  "create_pubsub_payload clock user_payload = to_be_bytes (ns_since_epoch clock) @ user_payload"

definition parse_pubsub_payload :: "bytes \<Rightarrow> (u128 \<times> bytes) option" where
  "parse_pubsub_payload data =
     (if length data < 16 then None else Some (from_be_bytes (take 16 data), drop 16 data))"


section \<open>A histogram that satisfies the laws\<close>

text \<open>
  The exact histogram that keeps every recorded value.  It shows that \<open>hdr_laws\<close> can hold, and
  concrete runs of the model are evaluated on it.
\<close>

definition quantile_index :: "f64 \<Rightarrow> nat \<Rightarrow> nat" where
  "quantile_index q n = (case q of
      Fin x \<Rightarrow> min (n - 1) (nat \<lceil>x * of_nat n\<rceil> - 1)
    | PInf \<Rightarrow> n - 1
    | _ \<Rightarrow> 0)"

definition exact_hdr :: "u64 list hdr_ops" where
  "exact_hdr =
     \<lparr>hdr_new = \<lambda>_ _. [],
      hdr_saturating_record = \<lambda>v h. v # h,
      hdr_is_empty = \<lambda>h. h = [],
      hdr_len = \<lambda>h. if length h < 2 ^ 64 then of_nat (length h) else u64_max,
      hdr_mean = \<lambda>h. if h = [] then Fin 0 else round64 (of_nat (sum_list (map unat h)) / of_nat (length h)),
      hdr_stdev = \<lambda>_. Fin 0,
      hdr_min = \<lambda>h. if h = [] then 0 else Min (set h),
      hdr_max = \<lambda>h. if h = [] then 0 else Max (set h),
      hdr_value_at_quantile = \<lambda>h q. if h = [] then 0 else sort h ! quantile_index q (length h),
      hdr_iter_recorded = \<lambda>h. map (\<lambda>v. (v, of_nat (count_list h v))) (sort (remdups h))\<rparr>"

lemma quantile_index_less: "0 < n \<Longrightarrow> quantile_index q n < n"
  by (cases q) (auto simp: quantile_index_def)

lemma quantile_index_mono: "f_le p q \<Longrightarrow> quantile_index p n \<le> quantile_index q n"
proof -
  have "nat \<lceil>x * of_nat n\<rceil> - 1 \<le> nat \<lceil>y * of_nat n\<rceil> - 1" if "x \<le> y" for x y :: rat
    using that by (intro diff_le_mono nat_mono ceiling_mono mult_right_mono) simp_all
  then show "f_le p q \<Longrightarrow> quantile_index p n \<le> quantile_index q n"
    by (cases p; cases q) (auto simp: quantile_index_def f_le_def intro: min.coboundedI2)
qed

lemma sum_count_list_remdups: "sum_list (map (count_list xs) (sort (remdups xs))) = length xs"
proof -
  have "sum_list (map (count_list xs) (sort (remdups xs))) = sum_list (map (count_list xs) (remdups xs))"
    by (metis mset_map mset_sort sum_mset_sum_list)
  also have "\<dots> = sum (count_list xs) (set xs)"
    by (simp add: sum_list_distinct_conv_sum_set)
  also have "\<dots> = length xs" by (rule sum_count_set) simp_all
  finally show ?thesis .
qed

lemma exact_hdr_len_max: "hdr_len exact_hdr h \<noteq> u64_max \<Longrightarrow> length h < 2 ^ 64"
  by (auto simp: exact_hdr_def split: if_splits)

lemma exact_hdr_laws: "hdr_laws exact_hdr"
proof -
  have of_nat_max: "(of_nat n :: u64) = u64_max \<longleftrightarrow> n = 2 ^ 64 - 1" if "n < 2 ^ 64" for n
  proof
    assume "(of_nat n :: u64) = u64_max"
    then have "unat (of_nat n :: u64) = unat u64_max" by (rule arg_cong)
    then show "n = 2 ^ 64 - 1" using that by (simp add: unsigned_of_nat take_bit_nat_eq_self)
  qed simp
  have len: "hdr_len exact_hdr (v # h) =
      (if hdr_len exact_hdr h = u64_max then u64_max else hdr_len exact_hdr h + 1)" for v h
  proof (cases "length h < 2 ^ 64 - 1")
    case True
    then show ?thesis using of_nat_max[of "length h"] by (simp add: exact_hdr_def)
  next
    case False
    then consider "length h = 2 ^ 64 - 1" | "2 ^ 64 \<le> length h" by linarith
    then show ?thesis by cases (auto simp: exact_hdr_def)
  qed
  have empty: "h = [] \<longleftrightarrow> hdr_len exact_hdr h = 0" for h
  proof (cases "length h < 2 ^ 64")
    case True
    then have "(of_nat (length h) :: u64) = 0 \<longleftrightarrow> length h = 0"
      by (auto simp: word_of_nat_eq_0_iff dest: nat_dvd_not_less)
    with True show ?thesis by (simp add: exact_hdr_def)
  qed (auto simp: exact_hdr_def)
  have total: "sum_list (map snd (hdr_iter_recorded exact_hdr h)) = hdr_len exact_hdr h"
    if "hdr_len exact_hdr h \<noteq> u64_max" for h
  proof -
    have "sum_list (map snd (hdr_iter_recorded exact_hdr h)) =
          of_nat (sum_list (map (count_list h) (sort (remdups h))))"
      by (simp add: exact_hdr_def o_def of_nat_sum_list)
    then show ?thesis
      using exact_hdr_len_max[OF that] by (simp add: sum_count_list_remdups exact_hdr_def)
  qed
  have quant: "hdr_value_at_quantile exact_hdr h p \<le> hdr_value_at_quantile exact_hdr h q"
    if "f_le p q" for h p q
    using quantile_index_mono[OF that, of "length h"] quantile_index_less[of "length h" q]
    by (cases "h = []") (auto simp: exact_hdr_def intro!: sorted_nth_mono)
  have ops: "hdr_new exact_hdr hi sig = []" "hdr_saturating_record exact_hdr v h = v # h"
    "hdr_is_empty exact_hdr h \<longleftrightarrow> h = []" for hi sig v h
    by (simp_all add: exact_hdr_def)
  show ?thesis
    unfolding hdr_laws_def ops
    by (intro conjI allI impI len empty total quant) (simp add: exact_hdr_def)
qed

section \<open>Payload round trips\<close>

lemma be_value:
  "foldl (\<lambda>n b. n * 256 + byte b) 0 (map (\<lambda>i. char_of (m div 256 ^ (k - 1 - i) mod 256)) [0..<k])
   = m mod 256 ^ k"
proof (induction k arbitrary: m)
  case (Suc k)
  have *: "map (\<lambda>i. char_of (m div 256 ^ (Suc k - 1 - i) mod 256)) [0..<Suc k] =
        map (\<lambda>i. char_of (m div 256 div 256 ^ (k - 1 - i) mod 256)) [0..<k] @ [char_of (m mod 256)]"
  proof -
    have "m div 256 ^ (k - i) = m div 256 div 256 ^ (k - 1 - i)" if "i < k" for i
    proof -
      have "k - i = Suc (k - 1 - i)" using that by simp
      then show ?thesis by (simp only: power_Suc div_mult2_eq)
    qed
    then show ?thesis by simp
  qed
  show ?case
    by (simp only: * foldl_append Suc foldl.simps) (simp add: mod_mult2_eq algebra_simps)
qed simp

lemma be_digits:
  "map (\<lambda>i. char_of (foldl (\<lambda>n b. n * 256 + byte b) 0 bs div 256 ^ (length bs - 1 - i) mod 256))
     [0..<length bs] = bs"
proof (induction bs rule: rev_induct)
  case (snoc b bs)
  let ?v = "foldl (\<lambda>n b. n * 256 + byte b) 0 bs"
  have b: "byte b < (256 :: nat)" by simp
  have shift: "(?v * 256 + byte b) div 256 ^ (length bs - i) = ?v div 256 ^ (length bs - 1 - i)"
    if "i < length bs" for i
  proof -
    have "length bs - i = Suc (length bs - 1 - i)" using that by simp
    then have "(?v * 256 + byte b) div 256 ^ (length bs - i) =
        (?v * 256 + byte b) div 256 div 256 ^ (length bs - 1 - i)"
      by (simp only: power_Suc div_mult2_eq)
    also have "(?v * 256 + byte b) div 256 = ?v" using b by simp
    finally show ?thesis .
  qed
  have "map (\<lambda>i. char_of ((?v * 256 + byte b) div 256 ^ (length bs - i) mod 256)) [0..<length bs] =
        map (\<lambda>i. char_of (?v div 256 ^ (length bs - 1 - i) mod 256)) [0..<length bs]"
    by (rule map_cong) (simp_all add: shift del: char_of_mod_256)
  also have "\<dots> = bs" by (rule snoc)
  finally have "map (\<lambda>i. char_of ((?v * 256 + byte b) div 256 ^ (length bs - i) mod 256)) [0..<length bs] = bs" .
  moreover have "char_of ((?v * 256 + byte b) mod 256) = b"
    by (simp del: char_of_mod_256)
  ultimately show ?case by (simp del: char_of_mod_256)
qed simp

lemma length_to_be_bytes [simp]: "length (to_be_bytes w) = 16"
  by (simp add: to_be_bytes_def)

lemma from_to_be_bytes [simp]: "from_be_bytes (to_be_bytes w) = w"
proof -
  have "unat w < 256 ^ 16" using unsigned_less[of w] by simp
  moreover have "from_be_bytes (to_be_bytes w) = of_nat (unat w mod 256 ^ 16)"
    unfolding from_be_bytes_def to_be_bytes_def using be_value[of "unat w" 16] by simp
  ultimately show ?thesis by simp
qed

lemma to_from_be_bytes:
  assumes "length bs = 16"
  shows "to_be_bytes (from_be_bytes bs) = bs"
proof -
  let ?v = "foldl (\<lambda>n b. n * 256 + byte b) 0 bs"
  have bound: "foldl (\<lambda>n b. n * 256 + byte b) 0 cs < 256 ^ length cs" for cs :: bytes
  proof (induction cs rule: rev_induct)
    case (snoc c cs)
    let ?x = "foldl (\<lambda>n b. n * 256 + byte b) 0 cs"
    have "byte c < (256 :: nat)" "?x < 256 ^ length cs" using snoc by simp_all
    then have "?x * 256 + byte c < 256 * 256 ^ length cs" by linarith
    then show ?case by simp
  qed simp
  have "unat (of_nat ?v :: u128) = ?v"
    using bound[of bs] assms by (simp add: unsigned_of_nat take_bit_nat_eq_self)
  then show ?thesis
    unfolding to_be_bytes_def from_be_bytes_def using be_digits[of bs] assms by simp
qed


section \<open>Properties\<close>

text \<open>The pub/sub payload format is exact.  Parsing what \<open>create_pubsub_payload\<close> builds gives
  back the wall-clock nanoseconds and the user payload, and parsing succeeds on exactly the
  byte strings that start with a 16-byte big-endian timestamp, returning that timestamp.\<close>

lemma pubsub_payload_exact:
  "parse_pubsub_payload (create_pubsub_payload clock p) = Some (ns_since_epoch clock, p) \<and>
   (parse_pubsub_payload d = Some (t, q) \<longleftrightarrow> d = to_be_bytes t @ q)"
proof (intro conjI iffI)
  assume "parse_pubsub_payload d = Some (t, q)"
  then have "16 \<le> length d" "t = from_be_bytes (take 16 d)" "q = drop 16 d"
    by (auto simp: parse_pubsub_payload_def split: if_splits)
  then show "d = to_be_bytes t @ q" by (simp add: to_from_be_bytes)
qed (simp_all add: parse_pubsub_payload_def create_pubsub_payload_def)

text \<open>The percentiles reported for a latency histogram are ordered: the median is at most
  the 90th percentile, which is at most the 99th, after conversion to milliseconds in \<open>f64\<close>.\<close>

lemma percentiles_ordered:
  assumes "hdr_laws H"
  shows "f_le (pc_p50_ms (percentiles_from_histogram H hist)) (pc_p90_ms (percentiles_from_histogram H hist)) \<and>
         f_le (pc_p90_ms (percentiles_from_histogram H hist)) (pc_p99_ms (percentiles_from_histogram H hist))"
proof -
  have "f_le (f64_div (f64_of_u64 (hdr_value_at_quantile H hist (f64_lit p))) micros_per_milli)
             (f64_div (f64_of_u64 (hdr_value_at_quantile H hist (f64_lit q))) micros_per_milli)"
    if "p \<le> q" for p q
    using hdr_lawsD(5)[OF assms round64_mono[OF that], of hist]
    by (intro f64_div_mono f64_of_nat_mono) (simp_all add: word_le_nat_alt)
  then show ?thesis
    by (simp add: percentiles_from_histogram_def percentiles_default_def Let_def)
qed

text \<open>An HTTP/3 iteration keeps both of its samples.  Whatever the builder held before,
  recording the QUIC and the HTTP/3 sample in either order gives the same metric, and both
  accessors return what was recorded.\<close>

lemma http3_quic_builder_commute:
  "with_http3 (Some h) (with_quic hs zr rt b) = with_quic hs zr rt (with_http3 (Some h) b) \<and>
   rm_http3 (with_http3 (Some h) (with_quic hs zr rt b)) = Some h \<and>
   rm_quic (with_http3 (Some h) (with_quic hs zr rt b)) =
     Some \<lparr>qs_handshake_us = hs, qs_used_0rtt = zr, qs_retransmits = rt\<rparr>"
  by (auto simp: with_http3_def with_quic_def rm_http3_def rm_quic_def Let_def
      split: option.splits protocol_sample.splits)

end
