(* ===== verification/Metric_Aggregate.thy ===== *)
theory Metric_Aggregate
  imports Metric_Types
begin

text \<open>
  Aggregation of the metric stream (\<open>src/metrics/aggregate.rs\<close> and \<open>timeline.rs\<close>): the common
  counters, one accumulator per protocol, the timeline, and \<open>finalize_metrics\<close>, which folds
  them over everything received from the channel.  An \<open>Instant\<close> is a reading of the monotonic
  clock in nanoseconds; each \<open>Instant::now()\<close> of the code is an argument.
\<close>

section \<open>The aggregate and the common counters\<close>

record timeline_sample =
  ts_elapsed_sec :: f64
  ts_rps :: f64
  ts_error_rate :: f64
  ts_p50_us :: f64
  ts_p95_us :: f64
  ts_p99_us :: f64

record timeline =
  tl_interval_ms :: u64
  tl_samples :: "timeline_sample list"

record 'h aggregated_metrics =
  am_latency_histogram :: 'h
  am_e2e_latency_histogram :: 'h
  am_connection_latency_histogram :: 'h
  am_status_codes :: "(u16, u64) hash_map"
  am_total_bytes :: u64
  am_quic_metrics :: "quic_metrics option"
  am_sse_metrics :: "sse_metrics option"
  am_ws_metrics :: "websocket_metrics option"
  am_grpc_metrics :: "grpc_metrics option"
  am_http3_metrics :: "http3_metrics option"
  am_graphql_metrics :: "graphql_metrics option"
  am_graphql_ws_metrics :: "graphql_ws_metrics option"
  am_soap_metrics :: "soap_metrics option"
  am_stomp_metrics :: "stomp_metrics option"
  am_db_metrics :: "database_metrics option"
  am_timeline :: "timeline option"
  am_chaos_injected_total :: u64
  am_chaos_faults_by_type :: "(string, u64) hash_map"
  am_total_sockets_created :: u64
  am_total_connections_reused :: u64
  am_dns_resolution_sum_us :: u64
  am_dns_resolution_count :: u64

definition aggregated_metrics_default :: "'h hdr_ops \<Rightarrow> 'h aggregated_metrics" where
  "aggregated_metrics_default H =
     \<lparr>am_latency_histogram = new_histogram H, am_e2e_latency_histogram = new_histogram H,
      am_connection_latency_histogram = new_histogram H, am_status_codes = [], am_total_bytes = 0,
      am_quic_metrics = None, am_sse_metrics = None, am_ws_metrics = None, am_grpc_metrics = None,
      am_http3_metrics = None, am_graphql_metrics = None, am_graphql_ws_metrics = None,
      am_soap_metrics = None, am_stomp_metrics = None, am_db_metrics = None, am_timeline = None,
      am_chaos_injected_total = 0, am_chaos_faults_by_type = [], am_total_sockets_created = 0,
      am_total_connections_reused = 0, am_dns_resolution_sum_us = 0, am_dns_resolution_count = 0\<rparr>"

definition record_common ::
    "'h hdr_ops \<Rightarrow> 'h aggregated_metrics \<Rightarrow> request_metric \<Rightarrow> u64 \<Rightarrow> 'h aggregated_metrics" where
  "record_common H metrics metric latency_us =
     (let c = rm_connection metric;
          m1 = metrics\<lparr>am_latency_histogram :=
                 hdr_saturating_record H latency_us (am_latency_histogram metrics)\<rparr>;
          m2 = (case cn_e2e_latency_us c of
                  None \<Rightarrow> m1
                | Some e2e \<Rightarrow> m1\<lparr>am_e2e_latency_histogram :=
                    hdr_saturating_record H (u64_of_u128_sat e2e) (am_e2e_latency_histogram m1)\<rparr>);
          m3 = (case cn_connection_latency_us c of
                  None \<Rightarrow> m2
                | Some conn \<Rightarrow> m2\<lparr>am_connection_latency_histogram :=
                    hdr_saturating_record H (u64_of_u128_sat conn) (am_connection_latency_histogram m2)\<rparr>);
          m4 = (case rm_chaos_fault metric of
                  None \<Rightarrow> m3
                | Some fault \<Rightarrow> m3\<lparr>am_chaos_injected_total := am_chaos_injected_total m3 + 1,
                    am_chaos_faults_by_type :=
                      hm_upsert (chaos_fault_name fault) 0 (\<lambda>n. n + 1) (am_chaos_faults_by_type m3)\<rparr>);
          m5 = (if cn_is_socket_reused c
                then m4\<lparr>am_total_connections_reused := am_total_connections_reused m4 + 1\<rparr>
                else m4\<lparr>am_total_sockets_created := am_total_sockets_created m4 + 1\<rparr>);
          m6 = (case cn_dns_resolution_us c of
                  None \<Rightarrow> m5
                | Some dns_us \<Rightarrow> m5\<lparr>am_dns_resolution_sum_us := am_dns_resolution_sum_us m5 + dns_us,
                    am_dns_resolution_count := am_dns_resolution_count m5 + 1\<rparr>)
      in m6\<lparr>am_status_codes := hm_upsert (rm_status_code metric) 0 (\<lambda>n. n + 1) (am_status_codes m6),
            am_total_bytes := am_total_bytes m6 + rm_bytes_received metric\<rparr>)"

section \<open>Protocol accumulators\<close>

subsection \<open>QUIC\<close>

record quic_accumulator =
  qa_stats :: quic_metrics
  qa_has :: bool
  qa_handshake_sum_us :: u64
  qa_handshake_count :: u64

definition quic_accumulator_default :: quic_accumulator where
  "quic_accumulator_default =
     \<lparr>qa_stats = \<lparr>qm_zero_rtt_accepted_count = 0, qm_retransmissions = 0, qm_avg_handshake_ms = None\<rparr>,
      qa_has = False, qa_handshake_sum_us = 0, qa_handshake_count = 0\<rparr>"

definition quic_record :: "quic_accumulator \<Rightarrow> quic_sample \<Rightarrow> quic_accumulator" where
  "quic_record a sample =
     (if quic_is_significant sample
      then let a1 = a\<lparr>qa_has := True\<rparr>;
               a2 = (if qs_used_0rtt sample
                     then a1\<lparr>qa_stats := (qa_stats a1)\<lparr>qm_zero_rtt_accepted_count :=
                             qm_zero_rtt_accepted_count (qa_stats a1) + 1\<rparr>\<rparr>
                     else a1);
               a3 = (case qs_retransmits sample of
                       None \<Rightarrow> a2
                     | Some retrans \<Rightarrow> a2\<lparr>qa_stats := (qa_stats a2)\<lparr>qm_retransmissions :=
                             qm_retransmissions (qa_stats a2) + retrans\<rparr>\<rparr>)
           in (case qs_handshake_us sample of
                 None \<Rightarrow> a3
               | Some handshake \<Rightarrow> a3\<lparr>qa_handshake_sum_us := qa_handshake_sum_us a3 + handshake,
                                     qa_handshake_count := qa_handshake_count a3 + 1\<rparr>)
      else a)"

definition quic_finish :: "quic_accumulator \<Rightarrow> quic_metrics option" where
  "quic_finish a =
     (if \<not> qa_has a then None
      else if qa_handshake_count a > 0
      then Some ((qa_stats a)\<lparr>qm_avg_handshake_ms :=
             Some (f64_div (f64_div (f64_of_u64 (qa_handshake_sum_us a)) (f64_of_u64 (qa_handshake_count a)))
                           (Fin 1000))\<rparr>)
      else Some (qa_stats a))"

subsection \<open>Server-sent events\<close>

record sse_accumulator =
  sea_stats :: sse_metrics
  sea_first_event_sum_us :: u64
  sea_first_event_count :: u64

definition sse_accumulator_default :: sse_accumulator where
  "sse_accumulator_default =
     \<lparr>sea_stats = \<lparr>sem_total_events_received = 0, sem_avg_ttfb_ms = None\<rparr>,
      sea_first_event_sum_us = 0, sea_first_event_count = 0\<rparr>"

definition sse_record :: "sse_accumulator \<Rightarrow> sse_sample \<Rightarrow> sse_accumulator" where
  "sse_record a sample =
     (let a1 = (case ses_events_received sample of
                  None \<Rightarrow> a
                | Some events \<Rightarrow> a\<lparr>sea_stats := (sea_stats a)\<lparr>sem_total_events_received :=
                                  sem_total_events_received (sea_stats a) + events\<rparr>\<rparr>)
      in (case ses_first_event_us sample of
            None \<Rightarrow> a1
          | Some first \<Rightarrow> a1\<lparr>sea_first_event_sum_us := sea_first_event_sum_us a1 + first,
                            sea_first_event_count := sea_first_event_count a1 + 1\<rparr>))"

definition sse_finish :: "sse_accumulator \<Rightarrow> sse_metrics option" where
  "sse_finish a =
     (let stats = (if sea_first_event_count a > 0
                   then (sea_stats a)\<lparr>sem_avg_ttfb_ms :=
                          Some (f64_div (f64_div (f64_of_u64 (sea_first_event_sum_us a))
                                                 (f64_of_u64 (sea_first_event_count a)))
                                        (Fin 1000))\<rparr>
                   else sea_stats a)
      in if sem_total_events_received stats > 0 \<or> sea_first_event_count a > 0 then Some stats else None)"

subsection \<open>GraphQL and SOAP\<close>

record graphql_accumulator =
  ga_stats :: graphql_metrics
  ga_has :: bool

definition graphql_accumulator_default :: graphql_accumulator where
  "graphql_accumulator_default =
     \<lparr>ga_stats = \<lparr>gm_operations_total = 0, gm_error_responses_total = 0, gm_errors_total = 0,
                  gm_operation_type = []\<rparr>,
      ga_has = False\<rparr>"

definition graphql_record :: "graphql_accumulator \<Rightarrow> graphql_sample \<Rightarrow> graphql_accumulator" where
  "graphql_record a sample =
     (let st = ga_stats a
      in a\<lparr>ga_has := True,
           ga_stats := st\<lparr>gm_operations_total := gm_operations_total st + 1,
             gm_error_responses_total :=
               (if gs_errors sample > 0 then gm_error_responses_total st + 1
                else gm_error_responses_total st),
             gm_errors_total := gm_errors_total st + gs_errors sample\<rparr>\<rparr>)"

definition graphql_finish :: "graphql_accumulator \<Rightarrow> graphql_metrics option" where
  "graphql_finish a = (if ga_has a then Some (ga_stats a) else None)"

record soap_accumulator =
  soa_stats :: soap_metrics
  soa_has :: bool

definition soap_accumulator_default :: soap_accumulator where
  "soap_accumulator_default =
     \<lparr>soa_stats = \<lparr>som_operations_total = 0, som_fault_responses_total = 0, som_soap_version = []\<rparr>,
      soa_has = False\<rparr>"

definition soap_record :: "soap_accumulator \<Rightarrow> soap_sample \<Rightarrow> soap_accumulator" where
  "soap_record a sample =
     (let st = soa_stats a
      in a\<lparr>soa_has := True,
           soa_stats := st\<lparr>som_operations_total := som_operations_total st + 1,
             som_fault_responses_total :=
               (if sos_faults sample > 0 then som_fault_responses_total st + 1
                else som_fault_responses_total st)\<rparr>\<rparr>)"

definition soap_finish :: "soap_accumulator \<Rightarrow> soap_metrics option" where
  "soap_finish a = (if soa_has a then Some (soa_stats a) else None)"

subsection \<open>GraphQL over WebSocket\<close>

record 'h graphql_ws_accumulator =
  gwa_stats :: graphql_ws_metrics
  gwa_has :: bool
  gwa_ttfm :: 'h
  gwa_interval :: 'h

definition graphql_ws_accumulator_default :: "'h hdr_ops \<Rightarrow> 'h graphql_ws_accumulator" where
  "graphql_ws_accumulator_default H =
     \<lparr>gwa_stats = \<lparr>gwm_operations_total = 0, gwm_messages_total = 0, gwm_errors_total = 0,
                   gwm_ttfm = percentiles_default, gwm_interval = percentiles_default\<rparr>,
      gwa_has = False, gwa_ttfm = new_histogram H, gwa_interval = new_histogram H\<rparr>"

definition graphql_ws_record ::
    "'h hdr_ops \<Rightarrow> 'h graphql_ws_accumulator \<Rightarrow> graphql_ws_sample \<Rightarrow> 'h graphql_ws_accumulator" where
  "graphql_ws_record H a sample =
     (let a1 = (case gws_operations sample of
                  None \<Rightarrow> a
                | Some ops \<Rightarrow> a\<lparr>gwa_has := True, gwa_stats := (gwa_stats a)\<lparr>gwm_operations_total :=
                               gwm_operations_total (gwa_stats a) + ops\<rparr>\<rparr>);
          a2 = (case gws_ttfm_us sample of
                  None \<Rightarrow> a1
                | Some ttfm \<Rightarrow> a1\<lparr>gwa_has := True, gwa_ttfm := hdr_saturating_record H ttfm (gwa_ttfm a1)\<rparr>);
          a3 = (case gws_interval_us sample of
                  None \<Rightarrow> a2
                | Some interval \<Rightarrow> a2\<lparr>gwa_has := True,
                    gwa_stats := (gwa_stats a2)\<lparr>gwm_messages_total := gwm_messages_total (gwa_stats a2) + 1\<rparr>,
                    gwa_interval := hdr_saturating_record H interval (gwa_interval a2)\<rparr>)
      in (case gws_errors sample of
            None \<Rightarrow> a3
          | Some errors \<Rightarrow> a3\<lparr>gwa_has := True, gwa_stats := (gwa_stats a3)\<lparr>gwm_errors_total :=
                             gwm_errors_total (gwa_stats a3) + errors\<rparr>\<rparr>))"

definition graphql_ws_finish ::
    "'h hdr_ops \<Rightarrow> 'h graphql_ws_accumulator \<Rightarrow> graphql_ws_metrics option" where
  "graphql_ws_finish H a =
     (if \<not> gwa_has a then None
      else Some (graphql_ws_stats_from_histograms H (gwa_stats a) (gwa_ttfm a) (gwa_interval a)))"


subsection \<open>STOMP\<close>

record 'h stomp_accumulator =
  sta_stats :: stomp_metrics
  sta_has :: bool
  sta_send :: 'h
  sta_interval :: 'h
  sta_ttfm :: 'h

definition stomp_accumulator_default :: "'h hdr_ops \<Rightarrow> 'h stomp_accumulator" where
  "stomp_accumulator_default H =
     \<lparr>sta_stats = \<lparr>stm_messages_sent_total = 0, stm_messages_received_total = 0,
                   stm_bytes_sent_total = 0, stm_errors_total = 0, stm_reconnects_total = 0,
                   stm_destination = [], stm_mode = [], stm_ack_mode = [],
                   stm_receipts_enabled = False, stm_send_latency = percentiles_default,
                   stm_receive_interval = percentiles_default, stm_ttfm = percentiles_default\<rparr>,
      sta_has = False, sta_send = new_histogram H, sta_interval = new_histogram H,
      sta_ttfm = new_histogram H\<rparr>"

definition record_opt :: "'h hdr_ops \<Rightarrow> u64 option \<Rightarrow> 'h \<Rightarrow> 'h" where
  "record_opt H v hist = (case v of None \<Rightarrow> hist | Some us \<Rightarrow> hdr_saturating_record H us hist)"

definition stomp_record :: "'h hdr_ops \<Rightarrow> 'h stomp_accumulator \<Rightarrow> stomp_sample \<Rightarrow> 'h stomp_accumulator" where
  "stomp_record H a sample =
     (if \<not> stomp_is_significant sample then a
      else let st = sta_stats a
           in a\<lparr>sta_has := True,
                sta_stats := st\<lparr>
                  stm_messages_sent_total := stm_messages_sent_total st + sts_messages_sent sample,
                  stm_messages_received_total := stm_messages_received_total st + sts_messages_received sample,
                  stm_bytes_sent_total := stm_bytes_sent_total st + sts_bytes_sent sample,
                  stm_errors_total := stm_errors_total st + sts_errors sample,
                  stm_reconnects_total := stm_reconnects_total st + sts_reconnects sample\<rparr>,
                sta_send := record_opt H (sts_send_latency_us sample) (sta_send a),
                sta_interval := record_opt H (sts_receive_interval_us sample) (sta_interval a),
                sta_ttfm := record_opt H (sts_ttfm_us sample) (sta_ttfm a)\<rparr>)"

definition stomp_finish :: "'h hdr_ops \<Rightarrow> 'h stomp_accumulator \<Rightarrow> stomp_metrics option" where
  "stomp_finish H a =
     (if \<not> sta_has a then None
      else Some (stomp_stats_from_histograms H (sta_stats a) (sta_send a) (sta_interval a) (sta_ttfm a)))"

subsection \<open>Database\<close>

record 'h db_accumulator =
  dba_stats :: database_metrics
  dba_has :: bool
  dba_acquire :: 'h
  dba_query :: 'h

definition db_accumulator_default :: "'h hdr_ops \<Rightarrow> 'h db_accumulator" where
  "db_accumulator_default H =
     \<lparr>dba_stats = \<lparr>dbm_driver = [], dbm_queries_total = 0, dbm_rows_total = 0, dbm_errors_total = 0,
                   dbm_pool_max = 0, dbm_pool_size = 0, dbm_fetch_mode = [],
                   dbm_pool_acquire = percentiles_default, dbm_query = percentiles_default\<rparr>,
      dba_has = False, dba_acquire = new_histogram H, dba_query = new_histogram H\<rparr>"

definition db_record :: "'h hdr_ops \<Rightarrow> 'h db_accumulator \<Rightarrow> db_sample \<Rightarrow> 'h db_accumulator" where
  "db_record H a sample =
     (if \<not> db_is_significant sample then a
      else let st = dba_stats a
           in a\<lparr>dba_has := True,
                dba_stats := st\<lparr>
                  dbm_queries_total := dbm_queries_total st + 1,
                  dbm_rows_total := dbm_rows_total st + dbs_rows sample,
                  dbm_errors_total := dbm_errors_total st + dbs_errors sample,
                  dbm_pool_size := (if dbs_pool_size sample > 0 then dbs_pool_size sample
                                    else dbm_pool_size st)\<rparr>,
                dba_acquire := record_opt H (dbs_acquire_us sample) (dba_acquire a),
                dba_query := record_opt H (dbs_query_us sample) (dba_query a)\<rparr>)"

definition db_finish :: "'h hdr_ops \<Rightarrow> 'h db_accumulator \<Rightarrow> database_metrics option" where
  "db_finish H a =
     (if \<not> dba_has a then None
      else Some (db_stats_from_histograms H (dba_stats a) (dba_acquire a) (dba_query a)))"

subsection \<open>WebSocket\<close>

record ws_accumulator =
  wsa_stats :: websocket_metrics
  wsa_has :: bool
  wsa_bp_sum :: u64
  wsa_bp_count :: u64

definition ws_accumulator_default :: ws_accumulator where
  "ws_accumulator_default =
     \<lparr>wsa_stats = \<lparr>wsm_pings_sent_total = 0, wsm_pings_received_total = 0, wsm_pongs_solicited_total = 0,
                   wsm_pongs_unsolicited_total = 0, wsm_backpressure_max_bytes = 0,
                   wsm_backpressure_mean_bytes = Fin 0, wsm_backpressure_threshold_breaches = 0\<rparr>,
      wsa_has = False, wsa_bp_sum = 0, wsa_bp_count = 0\<rparr>"

definition ws_record :: "ws_accumulator \<Rightarrow> ws_sample \<Rightarrow> ws_accumulator" where
  "ws_record a sample =
     (if \<not> ws_is_significant sample then a
      else let st = wsa_stats a
           in a\<lparr>wsa_has := True,
                wsa_stats := st\<lparr>
                  wsm_pings_sent_total := wsm_pings_sent_total st + wss_pings_sent sample,
                  wsm_pings_received_total := wsm_pings_received_total st + wss_pings_received sample,
                  wsm_pongs_solicited_total := wsm_pongs_solicited_total st + wss_pongs_solicited sample,
                  wsm_pongs_unsolicited_total := wsm_pongs_unsolicited_total st + wss_pongs_unsolicited sample,
                  wsm_backpressure_max_bytes :=
                    (if wss_backpressure_max_bytes sample > wsm_backpressure_max_bytes st
                     then wss_backpressure_max_bytes sample else wsm_backpressure_max_bytes st),
                  wsm_backpressure_threshold_breaches :=
                    wsm_backpressure_threshold_breaches st + wss_threshold_breaches sample\<rparr>,
                wsa_bp_sum := wsa_bp_sum a + wss_backpressure_samples_sum sample,
                wsa_bp_count := wsa_bp_count a + wss_backpressure_sample_count sample\<rparr>)"

definition ws_finish :: "ws_accumulator \<Rightarrow> websocket_metrics option" where
  "ws_finish a =
     (let stats = (if wsa_bp_count a > 0
                   then (wsa_stats a)\<lparr>wsm_backpressure_mean_bytes :=
                          f64_div (f64_of_u64 (wsa_bp_sum a)) (f64_of_u64 (wsa_bp_count a))\<rparr>
                   else wsa_stats a)
      in if wsa_has a then Some stats else None)"

subsection \<open>gRPC\<close>

record grpc_accumulator =
  gra_stats :: grpc_metrics
  gra_has :: bool
  gra_util_sum :: f64
  gra_util_count :: u64
  gra_capacity_min :: u64
  gra_stall_sum_us :: u64

definition grpc_accumulator_default :: grpc_accumulator where
  "grpc_accumulator_default =
     \<lparr>gra_stats = \<lparr>grm_active_streams_peak = 0, grm_concurrency_utilization_peak = Fin 0,
                   grm_concurrency_utilization_mean = Fin 0, grm_window_exhaustion_events_total = 0,
                   grm_window_stall_duration_ms_total = Fin 0, grm_send_capacity_min_bytes = 0\<rparr>,
      gra_has = False, gra_util_sum = Fin 0, gra_util_count = 0, gra_capacity_min = u64_max,
      gra_stall_sum_us = 0\<rparr>"

definition grpc_record :: "grpc_accumulator \<Rightarrow> grpc_sample \<Rightarrow> grpc_accumulator" where
  "grpc_record a sample =
     (if \<not> grpc_is_significant sample then a
      else let st = gra_stats a
           in a\<lparr>gra_has := True,
                gra_stats := st\<lparr>
                  grm_active_streams_peak :=
                    (if grs_active_streams sample > grm_active_streams_peak st
                     then grs_active_streams sample else grm_active_streams_peak st),
                  grm_concurrency_utilization_peak :=
                    (if f_less (grm_concurrency_utilization_peak st) (grs_utilization sample)
                     then grs_utilization sample else grm_concurrency_utilization_peak st),
                  grm_window_exhaustion_events_total :=
                    grm_window_exhaustion_events_total st + grs_window_exhaustion_events sample\<rparr>,
                gra_util_sum := f64_add (gra_util_sum a) (grs_utilization sample),
                gra_util_count := gra_util_count a + 1,
                gra_stall_sum_us := gra_stall_sum_us a + grs_window_stall_us sample,
                gra_capacity_min :=
                  (if grs_has_send_capacity sample \<and> grs_send_capacity_bytes sample < gra_capacity_min a
                   then grs_send_capacity_bytes sample else gra_capacity_min a)\<rparr>)"

definition grpc_finish :: "grpc_accumulator \<Rightarrow> grpc_metrics option" where
  "grpc_finish a =
     (if \<not> gra_has a then None
      else let st = (if gra_util_count a > 0
                     then (gra_stats a)\<lparr>grm_concurrency_utilization_mean :=
                            f64_div (gra_util_sum a) (f64_of_u64 (gra_util_count a))\<rparr>
                     else gra_stats a)
           in Some (st\<lparr>grm_window_stall_duration_ms_total := f64_div (f64_of_u64 (gra_stall_sum_us a)) (Fin 1000),
                       grm_send_capacity_min_bytes :=
                         (if gra_capacity_min a = u64_max then 0 else gra_capacity_min a)\<rparr>))"

subsection \<open>HTTP/3\<close>

record http3_accumulator =
  h3a_stats :: http3_metrics
  h3a_has :: bool
  h3a_cwnd_sum :: u64
  h3a_cwnd_count :: u64
  h3a_cwnd_min :: u64

definition http3_accumulator_default :: http3_accumulator where
  "http3_accumulator_default =
     \<lparr>h3a_stats = \<lparr>h3m_cwnd_bytes_current = 0, h3m_cwnd_bytes_min = 0, h3m_cwnd_bytes_max = 0,
                   h3m_cwnd_bytes_mean = Fin 0, h3m_migrations_attempted_total = 0,
                   h3m_migrations_successful_total = 0, h3m_migration_success_rate = Fin 0\<rparr>,
      h3a_has = False, h3a_cwnd_sum = 0, h3a_cwnd_count = 0, h3a_cwnd_min = u64_max\<rparr>"

definition http3_record :: "http3_accumulator \<Rightarrow> http3_sample \<Rightarrow> http3_accumulator" where
  "http3_record a sample =
     (if \<not> http3_is_significant sample then a
      else let st = h3a_stats a; cwnd = h3s_cwnd_bytes sample
           in a\<lparr>h3a_has := True,
                h3a_stats := st\<lparr>
                  h3m_cwnd_bytes_current := cwnd,
                  h3m_cwnd_bytes_max := (if cwnd > h3m_cwnd_bytes_max st then cwnd else h3m_cwnd_bytes_max st),
                  h3m_migrations_attempted_total :=
                    h3m_migrations_attempted_total st + h3s_migrations_attempted sample,
                  h3m_migrations_successful_total :=
                    h3m_migrations_successful_total st + h3s_migrations_successful sample\<rparr>,
                h3a_cwnd_min := (if cwnd < h3a_cwnd_min a then cwnd else h3a_cwnd_min a),
                h3a_cwnd_sum := h3a_cwnd_sum a + cwnd,
                h3a_cwnd_count := h3a_cwnd_count a + 1\<rparr>)"

definition http3_finish :: "http3_accumulator \<Rightarrow> http3_metrics option" where
  "http3_finish a =
     (if \<not> h3a_has a then None
      else let st = (if h3a_cwnd_count a > 0
                     then (h3a_stats a)\<lparr>h3m_cwnd_bytes_mean :=
                            f64_div (f64_of_u64 (h3a_cwnd_sum a)) (f64_of_u64 (h3a_cwnd_count a))\<rparr>
                     else h3a_stats a)
           in Some (st\<lparr>h3m_cwnd_bytes_min := (if h3a_cwnd_min a = u64_max then 0 else h3a_cwnd_min a),
                       h3m_migration_success_rate :=
                         (if h3m_migrations_attempted_total st = 0 then Fin 1
                          else f64_div (f64_of_u64 (h3m_migrations_successful_total st))
                                       (f64_of_u64 (h3m_migrations_attempted_total st)))\<rparr>))"

subsection \<open>All protocols\<close>

record 'h protocol_accumulators =
  pa_quic :: quic_accumulator
  pa_sse :: sse_accumulator
  pa_graphql :: graphql_accumulator
  pa_graphql_ws :: "'h graphql_ws_accumulator"
  pa_soap :: soap_accumulator
  pa_stomp :: "'h stomp_accumulator"
  pa_db :: "'h db_accumulator"
  pa_ws :: ws_accumulator
  pa_grpc :: grpc_accumulator
  pa_http3 :: http3_accumulator

definition protocol_accumulators_default :: "'h hdr_ops \<Rightarrow> 'h protocol_accumulators" where
  "protocol_accumulators_default H =
     \<lparr>pa_quic = quic_accumulator_default, pa_sse = sse_accumulator_default,
      pa_graphql = graphql_accumulator_default, pa_graphql_ws = graphql_ws_accumulator_default H,
      pa_soap = soap_accumulator_default, pa_stomp = stomp_accumulator_default H,
      pa_db = db_accumulator_default H, pa_ws = ws_accumulator_default,
      pa_grpc = grpc_accumulator_default, pa_http3 = http3_accumulator_default\<rparr>"

definition protocols_record ::
    "'h hdr_ops \<Rightarrow> 'h protocol_accumulators \<Rightarrow> protocol_sample option \<Rightarrow> 'h protocol_accumulators" where
  "protocols_record H p protocol =
     (case protocol of
        None \<Rightarrow> p
      | Some (Http3 http3 quic) \<Rightarrow>
          (let p1 = (case quic of None \<Rightarrow> p | Some q \<Rightarrow> p\<lparr>pa_quic := quic_record (pa_quic p) q\<rparr>)
           in (case http3 of None \<Rightarrow> p1 | Some h \<Rightarrow> p1\<lparr>pa_http3 := http3_record (pa_http3 p1) h\<rparr>))
      | Some (Sse s) \<Rightarrow> p\<lparr>pa_sse := sse_record (pa_sse p) s\<rparr>
      | Some (Graphql s) \<Rightarrow> p\<lparr>pa_graphql := graphql_record (pa_graphql p) s\<rparr>
      | Some (GraphqlWs s) \<Rightarrow> p\<lparr>pa_graphql_ws := graphql_ws_record H (pa_graphql_ws p) s\<rparr>
      | Some (Soap s) \<Rightarrow> p\<lparr>pa_soap := soap_record (pa_soap p) s\<rparr>
      | Some (Stomp s) \<Rightarrow> p\<lparr>pa_stomp := stomp_record H (pa_stomp p) s\<rparr>
      | Some (Db s) \<Rightarrow> p\<lparr>pa_db := db_record H (pa_db p) s\<rparr>
      | Some (Ws s) \<Rightarrow> p\<lparr>pa_ws := ws_record (pa_ws p) s\<rparr>
      | Some (Grpc s) \<Rightarrow> p\<lparr>pa_grpc := grpc_record (pa_grpc p) s\<rparr>)"

definition finish_into ::
    "'h hdr_ops \<Rightarrow> 'h protocol_accumulators \<Rightarrow> 'h aggregated_metrics \<Rightarrow> 'h aggregated_metrics" where
  "finish_into H p metrics =
     metrics\<lparr>am_quic_metrics := quic_finish (pa_quic p),
             am_sse_metrics := sse_finish (pa_sse p),
             am_graphql_metrics := graphql_finish (pa_graphql p),
             am_graphql_ws_metrics := graphql_ws_finish H (pa_graphql_ws p),
             am_soap_metrics := soap_finish (pa_soap p),
             am_stomp_metrics := stomp_finish H (pa_stomp p),
             am_db_metrics := db_finish H (pa_db p),
             am_ws_metrics := ws_finish (pa_ws p),
             am_grpc_metrics := grpc_finish (pa_grpc p),
             am_http3_metrics := http3_finish (pa_http3 p)\<rparr>"

section \<open>The timeline\<close>

definition make_timeline_sample ::
    "'h hdr_ops \<Rightarrow> f64 \<Rightarrow> u64 \<Rightarrow> u64 \<Rightarrow> f64 \<Rightarrow> 'h \<Rightarrow> timeline_sample" where
  "make_timeline_sample H elapsed_sec requests errors interval_secs hist =
     \<lparr>ts_elapsed_sec = elapsed_sec,
      ts_rps = (if f_less (Fin 0) interval_secs then f64_div (f64_of_u64 requests) interval_secs else Fin 0),
      ts_error_rate = (if requests > 0
                       then f64_mul (f64_div (f64_of_u64 errors) (f64_of_u64 requests)) (Fin 100)
                       else Fin 0),
      ts_p50_us = f64_of_u64 (hdr_value_at_quantile H hist (f64_lit (50 / 100))),
      ts_p95_us = f64_of_u64 (hdr_value_at_quantile H hist (f64_lit (95 / 100))),
      ts_p99_us = f64_of_u64 (hdr_value_at_quantile H hist (f64_lit (99 / 100)))\<rparr>"

type_synonym instant = nat

definition elapsed :: "instant \<Rightarrow> instant \<Rightarrow> duration" where
  "elapsed now start = now - start"

record 'h timeline_accumulator =
  ta_enabled :: bool
  ta_interval_ms :: u64
  ta_sample_interval :: duration
  ta_run_start :: instant
  ta_last_sample_at :: instant
  ta_samples :: "timeline_sample list"
  ta_histogram :: 'h
  ta_requests :: u64
  ta_errors :: u64

definition timeline_new :: "'h hdr_ops \<Rightarrow> u64 \<Rightarrow> instant \<Rightarrow> instant \<Rightarrow> 'h timeline_accumulator" where
  "timeline_new H timeline_interval_ms now1 now2 =
     \<lparr>ta_enabled = (timeline_interval_ms > 0), ta_interval_ms = timeline_interval_ms,
      ta_sample_interval = from_millis (unat (max timeline_interval_ms 1)),
      ta_run_start = now1, ta_last_sample_at = now2, ta_samples = [],
      ta_histogram = new_histogram H, ta_requests = 0, ta_errors = 0\<rparr>"

definition record_latency ::
    "'h hdr_ops \<Rightarrow> 'h timeline_accumulator \<Rightarrow> u64 \<Rightarrow> bool \<Rightarrow> 'h timeline_accumulator" where
  "record_latency H t latency_us is_err =
     (if ta_enabled t
      then t\<lparr>ta_histogram := hdr_saturating_record H latency_us (ta_histogram t),
             ta_requests := ta_requests t + 1,
             ta_errors := (if is_err then ta_errors t + 1 else ta_errors t)\<rparr>
      else t)"

text \<open>The four clock readings of \<open>maybe_emit\<close>, in the order the code takes them.\<close>

record emit_clock =
  ec_guard :: instant
  ec_run :: instant
  ec_interval :: instant
  ec_reset :: instant

definition maybe_emit :: "'h hdr_ops \<Rightarrow> emit_clock \<Rightarrow> 'h timeline_accumulator \<Rightarrow> 'h timeline_accumulator" where
  "maybe_emit H c t =
     (if \<not> ta_enabled t \<or> elapsed (ec_guard c) (ta_last_sample_at t) < ta_sample_interval t then t
      else let t1 = (if ta_requests t > 0
                     then t\<lparr>ta_samples := ta_samples t @
                            [make_timeline_sample H
                               (as_secs_f64 (elapsed (ec_run c) (ta_run_start t)))
                               (ta_requests t) (ta_errors t)
                               (as_secs_f64 (elapsed (ec_interval c) (ta_last_sample_at t)))
                               (ta_histogram t)]\<rparr>
                     else t)
           in t1\<lparr>ta_histogram := new_histogram H, ta_requests := 0, ta_errors := 0,
                 ta_last_sample_at := ec_reset c\<rparr>)"

definition timeline_finish ::
    "'h hdr_ops \<Rightarrow> instant \<Rightarrow> instant \<Rightarrow> 'h timeline_accumulator \<Rightarrow> timeline option" where
  "timeline_finish H now1 now2 t =
     (let samples = (if ta_enabled t \<and> ta_requests t > 0
                     then ta_samples t @
                          [make_timeline_sample H
                             (as_secs_f64 (elapsed now1 (ta_run_start t)))
                             (ta_requests t) (ta_errors t)
                             (f_max (as_secs_f64 (elapsed now2 (ta_last_sample_at t))) (f64_lit (1 / 10 ^ 9)))
                             (ta_histogram t)]
                     else ta_samples t)
      in if ta_enabled t \<and> samples \<noteq> []
         then Some \<lparr>tl_interval_ms = ta_interval_ms t, tl_samples = samples\<rparr>
         else None)"

section \<open>\<open>finalize_metrics\<close>\<close>

type_synonym 'h aggregation = "'h aggregated_metrics \<times> 'h protocol_accumulators \<times> 'h timeline_accumulator"

definition aggregate_step ::
    "'h hdr_ops \<Rightarrow> 'h aggregation \<Rightarrow> request_metric \<times> emit_clock \<Rightarrow> 'h aggregation" where
  "aggregate_step H s e =
     (case s of (metrics, protocols, tline) \<Rightarrow>
      case e of (metric, clk) \<Rightarrow>
        (let latency_us = u64_of_u128_sat (rm_latency_micros metric);
             metrics' = record_common H metrics metric latency_us;
             tline' = record_latency H tline latency_us (rm_is_error metric);
             protocols' = protocols_record H protocols (rm_protocol metric)
         in (metrics', protocols', maybe_emit H clk tline')))"

text \<open>
  The metrics received from the channel before it closed, each with the clock readings taken
  while it was processed; \<open>starts\<close> and \<open>ends\<close> are the readings at creation and at the end.
\<close>

definition finalize_metrics ::
    "'h hdr_ops \<Rightarrow> (request_metric \<times> emit_clock) list \<Rightarrow> u64 \<Rightarrow> instant \<times> instant \<Rightarrow>
     instant \<times> instant \<Rightarrow> 'h aggregated_metrics" where
  "finalize_metrics H received timeline_interval_ms starts ends =
     (case foldl (aggregate_step H)
             (aggregated_metrics_default H, protocol_accumulators_default H,
              timeline_new H timeline_interval_ms (fst starts) (snd starts)) received of
        (metrics, protocols, tline) \<Rightarrow>
          (finish_into H protocols metrics)\<lparr>am_timeline := timeline_finish H (fst ends) (snd ends) tline\<rparr>)"


section \<open>Conservation\<close>

text \<open>
  Every total of the aggregate is a \<open>counter\<close>: \<open>counter_value\<close> reads it off the state of the
  fold, \<open>counter_weight\<close> is what one metric adds to it.
\<close>

datatype counter =
    Requests | StatusOf u16 | BytesReceived | Connections | ConnectionsReused
  | ChaosInjected | ChaosListed | ChaosOf string | DnsSum | DnsCount
  | GraphqlOperations | GraphqlErrorResponses | GraphqlErrors | SoapOperations | SoapFaults
  | StompSent | StompReceived | StompBytes | StompErrors | StompReconnects
  | DbQueries | DbRows | DbErrors | WsPings | WsPongs | WsBreaches

definition count_of :: "'k \<Rightarrow> ('k, u64) hash_map \<Rightarrow> u64" where
  "count_of k m = (case map_of m k of None \<Rightarrow> 0 | Some n \<Rightarrow> n)"

fun counter_value :: "counter \<Rightarrow> 'h aggregation \<Rightarrow> u64" where
  "counter_value Requests (m, p, t) = sum_list (map snd (am_status_codes m))"
| "counter_value (StatusOf c) (m, p, t) = count_of c (am_status_codes m)"
| "counter_value BytesReceived (m, p, t) = am_total_bytes m"
| "counter_value Connections (m, p, t) = am_total_sockets_created m + am_total_connections_reused m"
| "counter_value ConnectionsReused (m, p, t) = am_total_connections_reused m"
| "counter_value ChaosInjected (m, p, t) = am_chaos_injected_total m"
| "counter_value ChaosListed (m, p, t) = sum_list (map snd (am_chaos_faults_by_type m))"
| "counter_value (ChaosOf n) (m, p, t) = count_of n (am_chaos_faults_by_type m)"
| "counter_value DnsSum (m, p, t) = am_dns_resolution_sum_us m"
| "counter_value DnsCount (m, p, t) = am_dns_resolution_count m"
| "counter_value GraphqlOperations (m, p, t) = gm_operations_total (ga_stats (pa_graphql p))"
| "counter_value GraphqlErrorResponses (m, p, t) = gm_error_responses_total (ga_stats (pa_graphql p))"
| "counter_value GraphqlErrors (m, p, t) = gm_errors_total (ga_stats (pa_graphql p))"
| "counter_value SoapOperations (m, p, t) = som_operations_total (soa_stats (pa_soap p))"
| "counter_value SoapFaults (m, p, t) = som_fault_responses_total (soa_stats (pa_soap p))"
| "counter_value StompSent (m, p, t) = stm_messages_sent_total (sta_stats (pa_stomp p))"
| "counter_value StompReceived (m, p, t) = stm_messages_received_total (sta_stats (pa_stomp p))"
| "counter_value StompBytes (m, p, t) = stm_bytes_sent_total (sta_stats (pa_stomp p))"
| "counter_value StompErrors (m, p, t) = stm_errors_total (sta_stats (pa_stomp p))"
| "counter_value StompReconnects (m, p, t) = stm_reconnects_total (sta_stats (pa_stomp p))"
| "counter_value DbQueries (m, p, t) = dbm_queries_total (dba_stats (pa_db p))"
| "counter_value DbRows (m, p, t) = dbm_rows_total (dba_stats (pa_db p))"
| "counter_value DbErrors (m, p, t) = dbm_errors_total (dba_stats (pa_db p))"
| "counter_value WsPings (m, p, t) = wsm_pings_sent_total (wsa_stats (pa_ws p))"
| "counter_value WsPongs (m, p, t) = wsm_pongs_solicited_total (wsa_stats (pa_ws p))"
| "counter_value WsBreaches (m, p, t) = wsm_backpressure_threshold_breaches (wsa_stats (pa_ws p))"

definition indicator :: "bool \<Rightarrow> u64" where
  "indicator b = (if b then 1 else 0)"

definition opt0 :: "('a \<Rightarrow> u64) \<Rightarrow> 'a option \<Rightarrow> u64" where
  "opt0 f x = (case x of None \<Rightarrow> 0 | Some v \<Rightarrow> f v)"

fun counter_weight :: "counter \<Rightarrow> request_metric \<Rightarrow> u64" where
  "counter_weight Requests r = 1"
| "counter_weight (StatusOf c) r = indicator (c = rm_status_code r)"
| "counter_weight BytesReceived r = rm_bytes_received r"
| "counter_weight Connections r = 1"
| "counter_weight ConnectionsReused r = indicator (cn_is_socket_reused (rm_connection r))"
| "counter_weight ChaosInjected r = opt0 (\<lambda>_. 1) (rm_chaos_fault r)"
| "counter_weight ChaosListed r = opt0 (\<lambda>_. 1) (rm_chaos_fault r)"
| "counter_weight (ChaosOf n) r = opt0 (\<lambda>f. indicator (n = chaos_fault_name f)) (rm_chaos_fault r)"
| "counter_weight DnsSum r = opt0 id (cn_dns_resolution_us (rm_connection r))"
| "counter_weight DnsCount r = opt0 (\<lambda>_. 1) (cn_dns_resolution_us (rm_connection r))"
| "counter_weight GraphqlOperations r = opt0 (\<lambda>_. 1) (rm_graphql r)"
| "counter_weight GraphqlErrorResponses r = opt0 (\<lambda>s. indicator (gs_errors s > 0)) (rm_graphql r)"
| "counter_weight GraphqlErrors r = opt0 gs_errors (rm_graphql r)"
| "counter_weight SoapOperations r = opt0 (\<lambda>_. 1) (rm_soap r)"
| "counter_weight SoapFaults r = opt0 (\<lambda>s. indicator (sos_faults s > 0)) (rm_soap r)"
| "counter_weight StompSent r = opt0 sts_messages_sent (rm_stomp r)"
| "counter_weight StompReceived r = opt0 sts_messages_received (rm_stomp r)"
| "counter_weight StompBytes r = opt0 sts_bytes_sent (rm_stomp r)"
| "counter_weight StompErrors r = opt0 sts_errors (rm_stomp r)"
| "counter_weight StompReconnects r = opt0 sts_reconnects (rm_stomp r)"
| "counter_weight DbQueries r = opt0 (\<lambda>s. indicator (db_is_significant s)) (rm_db r)"
| "counter_weight DbRows r = opt0 dbs_rows (rm_db r)"
| "counter_weight DbErrors r = opt0 dbs_errors (rm_db r)"
| "counter_weight WsPings r = opt0 wss_pings_sent (rm_ws r)"
| "counter_weight WsPongs r = opt0 wss_pongs_solicited (rm_ws r)"
| "counter_weight WsBreaches r = opt0 wss_threshold_breaches (rm_ws r)"

text \<open>
  The invariant of the fold: the two tables have one entry per key, and an accumulator that
  saw nothing significant still has its initial statistics.
\<close>

definition agg_inv :: "'h hdr_ops \<Rightarrow> 'h aggregation \<Rightarrow> bool" where
  [strob_inv]: "agg_inv H s \<longleftrightarrow> (case s of (m, p, t) \<Rightarrow>
     hm_inv (am_status_codes m) \<and> hm_inv (am_chaos_faults_by_type m) \<and>
     (\<not> ga_has (pa_graphql p) \<longrightarrow> ga_stats (pa_graphql p) = ga_stats graphql_accumulator_default) \<and>
     (\<not> soa_has (pa_soap p) \<longrightarrow> soa_stats (pa_soap p) = soa_stats soap_accumulator_default) \<and>
     (\<not> sta_has (pa_stomp p) \<longrightarrow> sta_stats (pa_stomp p) = sta_stats (stomp_accumulator_default H)) \<and>
     (\<not> dba_has (pa_db p) \<longrightarrow> dba_stats (pa_db p) = dba_stats (db_accumulator_default H)) \<and>
     (\<not> wsa_has (pa_ws p) \<longrightarrow> wsa_stats (pa_ws p) = wsa_stats ws_accumulator_default))"

lemmas record_defs = graphql_record_def soap_record_def stomp_record_def db_record_def ws_record_def
  protocols_record_def Let_def

lemma record_common_fields:
  "am_status_codes (record_common H m r l) =
     hm_upsert (rm_status_code r) 0 (\<lambda>n. n + 1) (am_status_codes m)"
  "am_chaos_faults_by_type (record_common H m r l) = (case rm_chaos_fault r of
     None \<Rightarrow> am_chaos_faults_by_type m
   | Some f \<Rightarrow> hm_upsert (chaos_fault_name f) 0 (\<lambda>n. n + 1) (am_chaos_faults_by_type m))"
  "am_chaos_injected_total (record_common H m r l) = am_chaos_injected_total m + opt0 (\<lambda>_. 1) (rm_chaos_fault r)"
  "am_total_bytes (record_common H m r l) = am_total_bytes m + rm_bytes_received r"
  "am_total_connections_reused (record_common H m r l) =
     am_total_connections_reused m + indicator (cn_is_socket_reused (rm_connection r))"
  "am_total_sockets_created (record_common H m r l) =
     am_total_sockets_created m + indicator (\<not> cn_is_socket_reused (rm_connection r))"
  "am_dns_resolution_sum_us (record_common H m r l) =
     am_dns_resolution_sum_us m + opt0 id (cn_dns_resolution_us (rm_connection r))"
  "am_dns_resolution_count (record_common H m r l) =
     am_dns_resolution_count m + opt0 (\<lambda>_. 1) (cn_dns_resolution_us (rm_connection r))"
  "am_latency_histogram (record_common H m r l) = hdr_saturating_record H l (am_latency_histogram m)"
  by (simp_all add: record_common_def Let_def opt0_def indicator_def split: option.split)


lemma agg_inv_step: "agg_inv H s \<Longrightarrow> agg_inv H (aggregate_step H s e)"
proof -
  assume inv: "agg_inv H s"
  obtain m p t where s: "s = (m, p, t)" by (cases s)
  obtain r k where e: "e = (r, k)" by (cases e)
  let ?p = "protocols_record H p (rm_protocol r)"
  have tables: "hm_inv (am_status_codes (record_common H m r l))"
    "hm_inv (am_chaos_faults_by_type (record_common H m r l))" for l
    using inv by (auto simp: s agg_inv_def record_common_fields hm.inv_upsert split: option.split)
  have "\<not> ga_has (pa_graphql ?p) \<longrightarrow> ga_stats (pa_graphql ?p) = ga_stats graphql_accumulator_default"
    "\<not> soa_has (pa_soap ?p) \<longrightarrow> soa_stats (pa_soap ?p) = soa_stats soap_accumulator_default"
    "\<not> sta_has (pa_stomp ?p) \<longrightarrow> sta_stats (pa_stomp ?p) = sta_stats (stomp_accumulator_default H)"
    "\<not> dba_has (pa_db ?p) \<longrightarrow> dba_stats (pa_db ?p) = dba_stats (db_accumulator_default H)"
    "\<not> wsa_has (pa_ws ?p) \<longrightarrow> wsa_stats (pa_ws ?p) = wsa_stats ws_accumulator_default"
    using inv by (simp_all add: s agg_inv_def record_defs split: option.split protocol_sample.split)
  with tables show ?thesis by (simp add: s e aggregate_step_def agg_inv_def Let_def)
qed

lemma insignificant_zero:
  "\<not> stomp_is_significant s \<Longrightarrow> sts_messages_sent s = 0 \<and> sts_messages_received s = 0 \<and>
     sts_bytes_sent s = 0 \<and> sts_errors s = 0 \<and> sts_reconnects s = 0"
  "\<not> db_is_significant d \<Longrightarrow> dbs_rows d = 0 \<and> dbs_errors d = 0"
  "\<not> ws_is_significant w \<Longrightarrow> wss_pings_sent w = 0 \<and> wss_pongs_solicited w = 0 \<and> wss_threshold_breaches w = 0"
  by (auto simp: stomp_is_significant_def db_is_significant_def ws_is_significant_def word_gt_0)

lemma protocol_counter_fields:
  fixes H :: "'h hdr_ops" and r :: request_metric
  defines "q \<equiv> \<lambda>p. protocols_record H p (rm_protocol r)"
  shows "gm_operations_total (ga_stats (pa_graphql (q p))) =
           gm_operations_total (ga_stats (pa_graphql p)) + counter_weight GraphqlOperations r"
    "gm_error_responses_total (ga_stats (pa_graphql (q p))) =
       gm_error_responses_total (ga_stats (pa_graphql p)) + counter_weight GraphqlErrorResponses r"
    "gm_errors_total (ga_stats (pa_graphql (q p))) =
       gm_errors_total (ga_stats (pa_graphql p)) + counter_weight GraphqlErrors r"
    "som_operations_total (soa_stats (pa_soap (q p))) =
       som_operations_total (soa_stats (pa_soap p)) + counter_weight SoapOperations r"
    "som_fault_responses_total (soa_stats (pa_soap (q p))) =
       som_fault_responses_total (soa_stats (pa_soap p)) + counter_weight SoapFaults r"
    "stm_messages_sent_total (sta_stats (pa_stomp (q p))) =
       stm_messages_sent_total (sta_stats (pa_stomp p)) + counter_weight StompSent r"
    "stm_messages_received_total (sta_stats (pa_stomp (q p))) =
       stm_messages_received_total (sta_stats (pa_stomp p)) + counter_weight StompReceived r"
    "stm_bytes_sent_total (sta_stats (pa_stomp (q p))) =
       stm_bytes_sent_total (sta_stats (pa_stomp p)) + counter_weight StompBytes r"
    "stm_errors_total (sta_stats (pa_stomp (q p))) =
       stm_errors_total (sta_stats (pa_stomp p)) + counter_weight StompErrors r"
    "stm_reconnects_total (sta_stats (pa_stomp (q p))) =
       stm_reconnects_total (sta_stats (pa_stomp p)) + counter_weight StompReconnects r"
    "dbm_queries_total (dba_stats (pa_db (q p))) =
       dbm_queries_total (dba_stats (pa_db p)) + counter_weight DbQueries r"
    "dbm_rows_total (dba_stats (pa_db (q p))) =
       dbm_rows_total (dba_stats (pa_db p)) + counter_weight DbRows r"
    "dbm_errors_total (dba_stats (pa_db (q p))) =
       dbm_errors_total (dba_stats (pa_db p)) + counter_weight DbErrors r"
    "wsm_pings_sent_total (wsa_stats (pa_ws (q p))) =
       wsm_pings_sent_total (wsa_stats (pa_ws p)) + counter_weight WsPings r"
    "wsm_pongs_solicited_total (wsa_stats (pa_ws (q p))) =
       wsm_pongs_solicited_total (wsa_stats (pa_ws p)) + counter_weight WsPongs r"
    "wsm_backpressure_threshold_breaches (wsa_stats (pa_ws (q p))) =
       wsm_backpressure_threshold_breaches (wsa_stats (pa_ws p)) + counter_weight WsBreaches r"
  unfolding q_def
  by (simp_all add: record_defs rm_graphql_def rm_soap_def rm_stomp_def rm_db_def rm_ws_def opt0_def
      indicator_def insignificant_zero split: option.split protocol_sample.split)

lemma count_of_upsert: "hm_inv m \<Longrightarrow>
    count_of j (hm_upsert k 0 (\<lambda>n. n + 1) m) = count_of j m + indicator (j = k)"
  by (simp add: count_of_def hm_count_lookup indicator_def)

lemma counter_step:
  assumes inv: "agg_inv H s"
  shows "counter_value c (aggregate_step H s e) = counter_value c s + counter_weight c (fst e)"
proof -
  obtain m p t where s: "s = (m, p, t)" by (cases s)
  obtain r k where e: "e = (r, k)" by (cases e)
  have tables: "hm_inv (am_status_codes m)" "hm_inv (am_chaos_faults_by_type m)"
    using inv by (simp_all add: s agg_inv_def)
  note table_simps = hm_count_total[OF tables(1)] hm_count_total[OF tables(2)]
    count_of_upsert[OF tables(1)] count_of_upsert[OF tables(2)]
  note step_simps = s e aggregate_step_def Let_def record_common_fields table_simps
    protocol_counter_fields
  show ?thesis
  proof (cases "rm_chaos_fault r")
    case None
    then show ?thesis
      by (cases c) (simp_all add: step_simps opt0_def indicator_def del: counter_weight.simps,
          simp_all add: opt0_def indicator_def)
  next
    case (Some f)
    then show ?thesis
      by (cases c) (simp_all add: step_simps opt0_def indicator_def del: counter_weight.simps,
          simp_all add: opt0_def indicator_def)
  qed
qed

interpretation agg: additive_fold "aggregate_step H" "agg_inv H" "\<lambda>_. True"
  "counter_value c" "\<lambda>e. counter_weight c (fst e)" for H c
  by unfold_locales (simp_all add: agg_inv_step counter_step)


lemma counter_weight_fun:
  "counter_weight Requests = (\<lambda>_. 1)" "counter_weight Connections = (\<lambda>_. 1)"
  "counter_weight (StatusOf c) = (\<lambda>r. indicator (c = rm_status_code r))"
  "counter_weight BytesReceived = rm_bytes_received"
  "counter_weight ConnectionsReused = (\<lambda>r. indicator (cn_is_socket_reused (rm_connection r)))"
  "counter_weight DnsCount = (\<lambda>r. opt0 (\<lambda>_. 1) (cn_dns_resolution_us (rm_connection r)))"
  "counter_weight ChaosInjected = (\<lambda>r. opt0 (\<lambda>_. 1) (rm_chaos_fault r))"
  "counter_weight ChaosListed = (\<lambda>r. opt0 (\<lambda>_. 1) (rm_chaos_fault r))"
  "counter_weight GraphqlOperations = (\<lambda>r. opt0 (\<lambda>_. 1) (rm_graphql r))"
  "counter_weight SoapOperations = (\<lambda>r. opt0 (\<lambda>_. 1) (rm_soap r))"
  "counter_weight StompSent = (\<lambda>r. opt0 sts_messages_sent (rm_stomp r))"
  "counter_weight StompErrors = (\<lambda>r. opt0 sts_errors (rm_stomp r))"
  "counter_weight DbRows = (\<lambda>r. opt0 dbs_rows (rm_db r))"
  "counter_weight WsPings = (\<lambda>r. opt0 wss_pings_sent (rm_ws r))"
  by (rule ext, simp)+

lemma sum_indicator: "sum_list (map (\<lambda>x. indicator (P x)) xs) = of_nat (length (filter P xs))"
  by (induction xs) (simp_all add: indicator_def)

lemma sum_opt0_one: "sum_list (map (\<lambda>x. opt0 (\<lambda>_. 1) (f x)) xs) = of_nat (length (filter (\<lambda>x. f x \<noteq> None) xs))"
  by (induction xs) (auto simp: opt0_def split: option.split)

lemma sum_one: "sum_list (map (\<lambda>x. 1) xs) = (of_nat (length xs) :: u64)"
  by (induction xs) simp_all

text \<open>The state of the fold that \<open>finalize_metrics\<close> ends with, and its counters.\<close>

definition aggregate_run ::
    "'h hdr_ops \<Rightarrow> (request_metric \<times> emit_clock) list \<Rightarrow> u64 \<Rightarrow> instant \<times> instant \<Rightarrow> 'h aggregation" where
  "aggregate_run H received iv starts =
     foldl (aggregate_step H)
       (aggregated_metrics_default H, protocol_accumulators_default H,
        timeline_new H iv (fst starts) (snd starts)) received"

lemmas default_defs = aggregated_metrics_default_def protocol_accumulators_default_def
  graphql_accumulator_default_def soap_accumulator_default_def stomp_accumulator_default_def
  db_accumulator_default_def ws_accumulator_default_def

lemma agg_inv_default: "agg_inv H (aggregated_metrics_default H, protocol_accumulators_default H, t)"
  by (simp add: agg_inv_def default_defs)

lemma counter_default:
  "counter_value c (aggregated_metrics_default H, protocol_accumulators_default H, t) = 0"
  by (cases c) (simp_all add: default_defs count_of_def)

lemma agg_inv_run: "agg_inv H (aggregate_run H received iv starts)"
  unfolding aggregate_run_def by (rule agg.run_inv) (simp_all add: agg_inv_default)

lemma counter_run:
  "counter_value c (aggregate_run H received iv starts) =
     sum_list (map (\<lambda>e. counter_weight c (fst e)) received)"
  unfolding aggregate_run_def
  using agg.measure_run[where H = H and c = c, OF agg_inv_default, of received] by (simp add: counter_default)

lemma finalize_metrics_run:
  assumes "aggregate_run H received iv starts = (m, p, t)"
  shows "finalize_metrics H received iv starts ends =
         (finish_into H p m)\<lparr>am_timeline := timeline_finish H (fst ends) (snd ends) t\<rparr>"
  using assms by (simp add: finalize_metrics_def aggregate_run_def)

text \<open>C6: Aggregating the metric channel loses and invents nothing.  The per-status counts add up
  to the number of metrics received and each equals the number of metrics with that status;
  sockets created and connections reused together are one per metric; bytes, DNS samples and
  injected faults are the sums over the metrics, and the faults listed by type add up to the
  faults injected.  (All \<open>u64\<close>, hence modulo \<open>2 ^ 64\<close>.)\<close>

theorem aggregate_conservation:
  "let ms = map fst received in
    sum_list (map snd (am_status_codes (finalize_metrics H received iv starts ends))) = of_nat (length ms) \<and>
    count_of code (am_status_codes (finalize_metrics H received iv starts ends)) =
      of_nat (length (filter (\<lambda>m. code = rm_status_code m) ms)) \<and>
    am_total_bytes (finalize_metrics H received iv starts ends) = sum_list (map rm_bytes_received ms) \<and>
    am_total_sockets_created (finalize_metrics H received iv starts ends) +
      am_total_connections_reused (finalize_metrics H received iv starts ends) = of_nat (length ms) \<and>
    am_total_connections_reused (finalize_metrics H received iv starts ends) =
      of_nat (length (filter (\<lambda>m. cn_is_socket_reused (rm_connection m)) ms)) \<and>
    am_dns_resolution_count (finalize_metrics H received iv starts ends) =
      of_nat (length (filter (\<lambda>m. cn_dns_resolution_us (rm_connection m) \<noteq> None) ms)) \<and>
    am_chaos_injected_total (finalize_metrics H received iv starts ends) =
      of_nat (length (filter (\<lambda>m. rm_chaos_fault m \<noteq> None) ms)) \<and>
    sum_list (map snd (am_chaos_faults_by_type (finalize_metrics H received iv starts ends))) =
      am_chaos_injected_total (finalize_metrics H received iv starts ends)"
proof -
  define ms where "ms = map fst received"
  obtain m p t where run: "aggregate_run H received iv starts = (m, p, t)"
    by (cases "aggregate_run H received iv starts")
  have c: "counter_value c (m, p, t) = sum_list (map (counter_weight c) ms)" for c
    using counter_run[of c H received iv starts] by (simp add: run ms_def o_def)
  note cs = c[of Requests] c[of "StatusOf code"] c[of BytesReceived] c[of Connections]
    c[of ConnectionsReused] c[of DnsCount] c[of ChaosInjected] c[of ChaosListed]
  show ?thesis
    using cs
    by (simp add: finalize_metrics_run[OF run] finish_into_def counter_weight_fun sum_indicator
        sum_opt0_one sum_one Let_def flip: ms_def)
qed



section \<open>The timeline is complete and its error rates are percentages\<close>

fun is_percent :: "f64 \<Rightarrow> bool" where
  "is_percent (Fin x) = (0 \<le> x \<and> x \<le> 100)"
| "is_percent _ = False"

lemma is_percentI: "\<exists>q. v = Fin q \<and> 0 \<le> q \<and> q \<le> 100 \<Longrightarrow> is_percent v"
  by auto

lemma sample_rate_percent:
  assumes "errors \<le> requests"
  shows "is_percent (ts_error_rate (make_timeline_sample H el requests errors iv hist))"
proof (cases "requests = 0")
  case False
  then have "0 < unat requests" by (simp add: unat_gt_0)
  moreover have "unat errors \<le> unat requests" using assms by (simp add: word_le_nat_alt)
  ultimately show ?thesis
    using f64_percent_bounds[of "unat errors" "unat requests"]
    by (auto simp: make_timeline_sample_def)
qed (simp add: make_timeline_sample_def)

text \<open>After \<open>n\<close> metrics: nothing was dropped, and errors never exceed requests.\<close>

definition timeline_inv :: "u64 \<Rightarrow> nat \<Rightarrow> 'h timeline_accumulator \<Rightarrow> bool" where
  [strob_inv]: "timeline_inv iv n t \<longleftrightarrow>
     ta_enabled t = (iv > 0) \<and> ta_interval_ms t = iv \<and> unat (ta_requests t) \<le> n \<and>
     ta_errors t \<le> ta_requests t \<and> (\<forall>s\<in>set (ta_samples t). is_percent (ts_error_rate s)) \<and>
     (if ta_enabled t then 0 < n \<longleftrightarrow> ta_samples t \<noteq> [] \<or> 0 < ta_requests t
      else ta_samples t = [])"

lemma timeline_inv_new: "timeline_inv iv 0 (timeline_new H iv a b)"
  by (simp add: timeline_inv_def timeline_new_def)

lemma u64_succ_le: "a \<le> b \<Longrightarrow> unat b < 2 ^ 64 - 1 \<Longrightarrow> a + 1 \<le> (b + 1 :: u64)"
  by (simp add: word_le_nat_alt unatSuc unat_eq_zero unat_word_ariths)

lemma timeline_inv_record:
  assumes "timeline_inv iv n t" and "n < 2 ^ 64 - 1"
  shows "timeline_inv iv (Suc n) (record_latency H t l e) \<and>
         (ta_enabled t \<longrightarrow> 0 < ta_requests (record_latency H t l e))"
proof -
  let ?r = "ta_requests t"
  have "unat ?r < 2 ^ 64 - 1" using assms by (simp add: timeline_inv_def)
  then have r: "unat (?r + 1) = Suc (unat ?r)" by (simp add: unat_word_ariths)
  then have "0 < ?r + 1" by (metis unat_gt_0 zero_less_Suc word_gt_0)
  moreover have "ta_errors t \<le> ?r + 1" "ta_errors t + 1 \<le> ?r + 1"
    using assms r u64_succ_le[of "ta_errors t" ?r] by (simp_all add: timeline_inv_def word_le_nat_alt)
  ultimately show ?thesis
    using assms r by (auto simp: timeline_inv_def record_latency_def)
qed

lemma timeline_inv_emit:
  assumes "timeline_inv iv n t" and "ta_enabled t \<longrightarrow> 0 < ta_requests t"
  shows "timeline_inv iv n (maybe_emit H c t)"
  using assms by (auto simp: timeline_inv_def maybe_emit_def Let_def sample_rate_percent)

lemma timeline_inv_run:
  assumes "timeline_inv iv n t" and "n + length received < 2 ^ 64"
  shows "timeline_inv iv (n + length received) (snd (snd (foldl (aggregate_step H) (m, p, t) received)))"
  using assms
proof (induction received arbitrary: n m p t)
  case (Cons e es)
  obtain r k where e: "e = (r, k)" by (cases e)
  have "n < 2 ^ 64 - 1" using Cons.prems by simp
  from timeline_inv_record[OF Cons.prems(1) this, of H] 
  have "timeline_inv iv (Suc n) (maybe_emit H k (record_latency H t l x))" for l x
    by (intro timeline_inv_emit) (auto simp: record_latency_def split: if_splits)
  from Cons.IH[OF this] Cons.prems(2) show ?case by (simp add: e aggregate_step_def Let_def)
qed simp

text \<open>The timeline reports a run exactly when it should.  With fewer than \<open>2 ^ 64\<close> metrics it is
  absent only if it is disabled or no metric arrived, whatever the clock did, and the error
  rate of every sample is a number between 0 and 100.\<close>

lemma timeline_complete:
  assumes "length received < 2 ^ 64"
  shows "(am_timeline (finalize_metrics H received iv starts ends) = None \<longleftrightarrow> iv = 0 \<or> received = []) \<and>
    (\<forall>tline. am_timeline (finalize_metrics H received iv starts ends) = Some tline \<longrightarrow>
       tl_interval_ms tline = iv \<and> tl_samples tline \<noteq> [] \<and>
       list_all (\<lambda>s. is_percent (ts_error_rate s)) (tl_samples tline))"
proof -
  obtain m p t where run: "aggregate_run H received iv starts = (m, p, t)"
    by (cases "aggregate_run H received iv starts")
  have "timeline_inv iv (length received) t"
    using timeline_inv_run[where n = 0 and H = H and m = "aggregated_metrics_default H"
        and p = "protocol_accumulators_default H",
        OF timeline_inv_new[of iv H "fst starts" "snd starts"], of received] assms run
    by (simp add: aggregate_run_def)
  then show ?thesis
    unfolding finalize_metrics_run[OF run]
    by (cases "ta_enabled t")
      (auto simp: finish_into_def timeline_finish_def timeline_inv_def Let_def list_all_iff
        sample_rate_percent word_gt_0)
qed

end
