(* ===== verification/Metric_Summary.thy ===== *)
theory Metric_Summary
  imports Metric_Aggregate
begin

text \<open>
  From the aggregate to the summary of a run (\<open>src/metrics/summary.rs\<close>) and the resource
  samples of the client (\<open>src/metrics/system.rs\<close>): the ten display buckets of a latency
  histogram, \<open>SystemMetrics::from_samples\<close>, the sampler thread with its bounded channel, and
  \<open>calculate_summary\<close>.
\<close>

section \<open>Display buckets\<close>

definition histogram_bucket_order :: "string list" where
  "histogram_bucket_order =
     [''<1ms'', ''1-5ms'', ''5-10ms'', ''10-25ms'', ''25-50ms'', ''50-100ms'', ''100-250ms'',
      ''250-500ms'', ''500-1000ms'', ''>1000ms'']"

definition bucket_key :: "u64 \<Rightarrow> string" where
  "bucket_key v =
     (let ms = f64_div (f64_of_u64 v) micros_per_milli
      in if f_less ms (Fin 1) then ''<1ms''
         else if f_less ms (Fin 5) then ''1-5ms''
         else if f_less ms (Fin 10) then ''5-10ms''
         else if f_less ms (Fin 25) then ''10-25ms''
         else if f_less ms (Fin 50) then ''25-50ms''
         else if f_less ms (Fin 100) then ''50-100ms''
         else if f_less ms (Fin 250) then ''100-250ms''
         else if f_less ms (Fin 500) then ''250-500ms''
         else if f_less ms (Fin 1000) then ''500-1000ms''
         else ''>1000ms'')"

definition calculate_histogram_from_hdr :: "'h hdr_ops \<Rightarrow> 'h \<Rightarrow> (string, u64) hash_map" where
  "calculate_histogram_from_hdr H hist =
     (let buckets = foldl (\<lambda>m key. AList.update key 0 m) [] histogram_bucket_order
      in foldl (\<lambda>m e. case e of (v, n) \<Rightarrow> hm_upsert (bucket_key v) 0 (\<lambda>c. c + n) m)
           buckets (hdr_iter_recorded H hist))"

definition histogram_buckets :: "'h hdr_ops \<Rightarrow> 'h \<Rightarrow> u64 list" where
  "histogram_buckets H hist =
     (let buckets = calculate_histogram_from_hdr H hist
      in map (\<lambda>key. case map_of buckets key of None \<Rightarrow> 0 | Some n \<Rightarrow> n) histogram_bucket_order)"

section \<open>Resource samples\<close>

record resource_sample =
  rsp_timestamp_us :: u64
  rsp_cpu_usage_percent :: f32
  rsp_memory_rss_bytes :: u64
  rsp_thread_count :: usize
  rsp_open_fds :: "usize option"

record system_metrics =
  sy_peak_cpu_percent :: f32
  sy_avg_cpu_percent :: f32
  sy_peak_memory_rss_bytes :: u64
  sy_avg_memory_rss_bytes :: u64
  sy_peak_thread_count :: usize
  sy_time_series :: "resource_sample list"

definition system_metrics_default :: system_metrics where
  "system_metrics_default =
     \<lparr>sy_peak_cpu_percent = Fin 0, sy_avg_cpu_percent = Fin 0, sy_peak_memory_rss_bytes = 0,
      sy_avg_memory_rss_bytes = 0, sy_peak_thread_count = 0, sy_time_series = []\<rparr>"

definition from_samples :: "resource_sample list \<Rightarrow> system_metrics" where
  "from_samples samples =
     (if samples = [] then system_metrics_default
      else let valid_cpu = filter is_finite (map rsp_cpu_usage_percent samples);
               peak_cpu = foldl f_max (Fin 0) valid_cpu;
               avg_cpu = (if valid_cpu = [] then Fin 0
                          else f32_div (foldl f32_add (Fin 0) valid_cpu) (f32_of_nat (length valid_cpu)));
               peak_memory = Max (set (map rsp_memory_rss_bytes samples));
               avg_memory = sum_list (map rsp_memory_rss_bytes samples) div of_nat (length samples);
               peak_threads = Max (set (map rsp_thread_count samples))
           in \<lparr>sy_peak_cpu_percent = peak_cpu, sy_avg_cpu_percent = avg_cpu,
               sy_peak_memory_rss_bytes = peak_memory, sy_avg_memory_rss_bytes = avg_memory,
               sy_peak_thread_count = peak_threads, sy_time_series = samples\<rparr>)"

subsection \<open>The sampler thread\<close>

text \<open>
  The channel between the sampler and the run: bounded, \<open>try_send\<close> fails when it is full or
  when the receiver is gone.  Each turn of the sampler's loop is one \<open>sampler_turn\<close>: whether
  the sleep or the check after the refresh saw the cancellation, and the sample taken if the
  process was found.  Between turns the receiver may take samples off.
\<close>

definition max_sample_interval_ms :: u64 where
  "max_sample_interval_ms = 86400000"

definition sampler_interval :: "u64 \<Rightarrow> u64 option" where
  "sampler_interval interval_ms =
     (if interval_ms = 0 then None else Some (min interval_ms max_sample_interval_ms))"

record sampler =
  sm_queue :: "resource_sample list"
  sm_capacity :: usize
  sm_closed :: bool
  sm_dropped :: u64
  sm_stopped :: bool

definition sampler_start :: "usize \<Rightarrow> sampler" where
  "sampler_start capacity =
     \<lparr>sm_queue = [], sm_capacity = max capacity 1, sm_closed = False, sm_dropped = 0, sm_stopped = False\<rparr>"

datatype sampler_event =
    Turn (cancelled_asleep: bool) (cancelled_awake: bool) (observed: "resource_sample option")
  | Receive
  | CloseReceiver

definition sampler_step :: "sampler \<Rightarrow> sampler_event \<Rightarrow> sampler" where
  "sampler_step s e =
     (case e of
        Turn asleep awake sample \<Rightarrow>
          (if sm_stopped s then s
           else if asleep \<or> awake then s\<lparr>sm_stopped := True\<rparr>
           else case sample of
                  None \<Rightarrow> s
                | Some x \<Rightarrow>
                    (if sm_closed s then s\<lparr>sm_stopped := True\<rparr>
                     else if length (sm_queue s) < sm_capacity s then s\<lparr>sm_queue := sm_queue s @ [x]\<rparr>
                     else s\<lparr>sm_dropped := sm_dropped s + 1\<rparr>))
      | Receive \<Rightarrow> s\<lparr>sm_queue := drop 1 (sm_queue s)\<rparr>
      | CloseReceiver \<Rightarrow> s\<lparr>sm_closed := True\<rparr>)"

section \<open>The summary\<close>

record 'h summary_input =
  si_url :: string
  si_total_requests :: u64
  si_total_errors :: u64
  si_latency_histogram :: 'h
  si_total_bytes :: u64
  si_duration_secs :: f64
  si_workers :: usize
  si_status_codes :: "(u16, u64) hash_map"
  si_e2e_latency_histogram :: 'h
  si_connection_latency_histogram :: 'h
  si_quic_metrics :: "quic_metrics option"
  si_sse_metrics :: "sse_metrics option"
  si_ws_metrics :: "websocket_metrics option"
  si_grpc_metrics :: "grpc_metrics option"
  si_http3_metrics :: "http3_metrics option"
  si_graphql_metrics :: "graphql_metrics option"
  si_graphql_ws_metrics :: "graphql_ws_metrics option"
  si_soap_metrics :: "soap_metrics option"
  si_stomp_metrics :: "stomp_metrics option"
  si_db_metrics :: "database_metrics option"
  si_timeline :: "timeline option"
  si_chaos_injected_total :: u64
  si_chaos_faults_by_type :: "(string, u64) hash_map"
  si_resource_samples :: "resource_sample list"
  si_total_sockets_created :: u64
  si_total_connections_reused :: u64
  si_dns_resolution_sum_us :: u64
  si_dns_resolution_count :: u64

record test_summary =
  su_url :: string
  su_total_requests :: usize
  su_total_errors :: usize
  su_average_latency_ms :: f64
  su_p95_latency_ms :: f64
  su_p99_latency_ms :: f64
  su_min_latency_ms :: f64
  su_p50_latency_ms :: f64
  su_p90_latency_ms :: f64
  su_max_latency_ms :: f64
  su_total_bytes_received :: u64
  su_duration_secs :: f64
  su_workers :: usize
  su_timestamp :: string
  su_raw_command :: "string option"
  su_status_codes :: "(u16, u64) hash_map"
  su_avg_e2e_latency_us :: f64
  su_avg_connection_latency_us :: f64
  su_quic :: "quic_metrics option"
  su_sse :: "sse_metrics option"
  su_ws :: "websocket_metrics option"
  su_grpc :: "grpc_metrics option"
  su_http3 :: "http3_metrics option"
  su_graphql :: "graphql_metrics option"
  su_graphql_ws :: "graphql_ws_metrics option"
  su_soap :: "soap_metrics option"
  su_stomp :: "stomp_metrics option"
  su_database :: "database_metrics option"
  su_timeline :: "timeline option"
  su_chaos_injected_total :: u64
  su_chaos_faults_by_type :: "(string, u64) hash_map"
  su_std_dev_latency_ms :: f64
  su_p99_99_latency_ms :: f64
  su_latency_histogram :: "(string, u64) hash_map"
  su_system_metrics :: "system_metrics option"
  su_connection_reuse_ratio :: f64
  su_avg_dns_resolution_ms :: f64

definition mean_or_zero :: "'h hdr_ops \<Rightarrow> 'h \<Rightarrow> f64" where
  "mean_or_zero H hist = (if hdr_is_empty H hist then Fin 0 else hdr_mean H hist)"

definition calculate_summary :: "'h hdr_ops \<Rightarrow> 'h summary_input \<Rightarrow> test_summary" where
  "calculate_summary H i =
     (let hist = si_latency_histogram i;
          empty = hdr_is_empty H hist;
          total_connections = si_total_sockets_created i + si_total_connections_reused i;
          ms = (\<lambda>v. f64_div (f64_of_u64 v) micros_per_milli);
          lat = (\<lambda>v. if empty then Fin 0 else v)
      in \<lparr>su_url = si_url i,
          su_total_requests = unat (si_total_requests i),
          su_total_errors = unat (si_total_errors i),
          su_average_latency_ms = lat (f64_div (hdr_mean H hist) micros_per_milli),
          su_p95_latency_ms = lat (ms (hdr_value_at_quantile H hist (f64_lit (95 / 100)))),
          su_p99_latency_ms = lat (ms (hdr_value_at_quantile H hist (f64_lit (99 / 100)))),
          su_min_latency_ms = lat (ms (hdr_min H hist)),
          su_p50_latency_ms = lat (ms (hdr_value_at_quantile H hist (f64_lit (50 / 100)))),
          su_p90_latency_ms = lat (ms (hdr_value_at_quantile H hist (f64_lit (90 / 100)))),
          su_max_latency_ms = lat (ms (hdr_max H hist)),
          su_total_bytes_received = si_total_bytes i,
          su_duration_secs = si_duration_secs i,
          su_workers = si_workers i,
          su_timestamp = [],
          su_raw_command = None,
          su_status_codes = si_status_codes i,
          su_avg_e2e_latency_us = mean_or_zero H (si_e2e_latency_histogram i),
          su_avg_connection_latency_us = mean_or_zero H (si_connection_latency_histogram i),
          su_quic = si_quic_metrics i,
          su_sse = si_sse_metrics i,
          su_ws = si_ws_metrics i,
          su_grpc = si_grpc_metrics i,
          su_http3 = si_http3_metrics i,
          su_graphql = si_graphql_metrics i,
          su_graphql_ws = si_graphql_ws_metrics i,
          su_soap = si_soap_metrics i,
          su_stomp = si_stomp_metrics i,
          su_database = si_db_metrics i,
          su_timeline = si_timeline i,
          su_chaos_injected_total = si_chaos_injected_total i,
          su_chaos_faults_by_type = si_chaos_faults_by_type i,
          su_std_dev_latency_ms = lat (f64_div (hdr_stdev H hist) micros_per_milli),
          su_p99_99_latency_ms = lat (ms (hdr_value_at_quantile H hist (f64_lit (9999 / 10000)))),
          su_latency_histogram = (if empty then [] else calculate_histogram_from_hdr H hist),
          su_system_metrics = (if si_resource_samples i = [] then None
                               else Some (from_samples (si_resource_samples i))),
          su_connection_reuse_ratio =
            (if total_connections > 0
             then f64_div (f64_of_u64 (si_total_connections_reused i)) (f64_of_u64 total_connections)
             else Fin 0),
          su_avg_dns_resolution_ms =
            (if si_dns_resolution_count i > 0
             then f64_div (f64_div (f64_of_u64 (si_dns_resolution_sum_us i))
                                   (f64_of_u64 (si_dns_resolution_count i))) (Fin 1000)
             else Fin 0)\<rparr>)"


section \<open>The ten buckets hold every sample\<close>

lemma distinct_bucket_order: "distinct histogram_bucket_order"
  by (simp add: histogram_bucket_order_def)

lemma bucket_key_in_order: "bucket_key v \<in> set histogram_bucket_order"
  by (simp add: bucket_key_def histogram_bucket_order_def Let_def)

lemma hm_upsert_keys: "k \<in> fst ` set m \<Longrightarrow> map fst (hm_upsert k d f m) = map fst m"
  by (simp add: hm_upsert_def update_keys)

definition ten_buckets :: "(string, u64) hash_map \<Rightarrow> bool" where
  [strob_inv]: "ten_buckets m \<longleftrightarrow> map fst m = histogram_bucket_order"

lemma ten_buckets_hm: "ten_buckets m \<Longrightarrow> hm_inv m"
  by (simp add: ten_buckets_def hm_inv_def distinct_bucket_order)

lemma ten_buckets_upsert: "ten_buckets m \<Longrightarrow> ten_buckets (hm_upsert (bucket_key v) d f m)"
proof -
  assume m: "ten_buckets m"
  then have "fst ` set m = set histogram_bucket_order"
    by (metis ten_buckets_def image_set)
  with m show ?thesis by (simp add: ten_buckets_def hm_upsert_keys bucket_key_in_order)
qed

interpretation buckets: additive_fold
  "\<lambda>m e. case e of (v, n) \<Rightarrow> hm_upsert (bucket_key v) 0 (\<lambda>c. c + n) m" ten_buckets "\<lambda>_. True"
  "\<lambda>m. sum_list (map snd m)" snd
  by unfold_locales (auto simp: ten_buckets_upsert ten_buckets_hm hm_count_total split: prod.split)

lemma initial_buckets:
  "foldl (\<lambda>m key. AList.update key 0 m) [] histogram_bucket_order = map (\<lambda>k. (k, 0 :: u64)) histogram_bucket_order"
  by (simp add: histogram_bucket_order_def)

lemma calculate_histogram_facts:
  "ten_buckets (calculate_histogram_from_hdr H hist)"
  "sum_list (map snd (calculate_histogram_from_hdr H hist)) = sum_list (map snd (hdr_iter_recorded H hist))"
proof -
  let ?b = "map (\<lambda>k. (k, 0 :: u64)) histogram_bucket_order"
  have b: "ten_buckets ?b" by (simp add: ten_buckets_def o_def)
  show "ten_buckets (calculate_histogram_from_hdr H hist)"
    unfolding calculate_histogram_from_hdr_def Let_def initial_buckets
    by (rule buckets.run_inv) (simp_all add: b)
  have "sum_list (map snd ?b) = 0" by (simp add: o_def)
  then show "sum_list (map snd (calculate_histogram_from_hdr H hist)) = sum_list (map snd (hdr_iter_recorded H hist))"
    unfolding calculate_histogram_from_hdr_def Let_def initial_buckets
    using buckets.measure_run[OF b, of "hdr_iter_recorded H hist"] by simp
qed

lemma lookups_in_order:
  assumes "distinct (map fst m)"
  shows "map (\<lambda>k. case map_of m k of None \<Rightarrow> d | Some n \<Rightarrow> n) (map fst m) = map snd m"
  using assms by (auto simp: map_of_is_SomeI)

lemma histogram_buckets_sum:
  assumes "hdr_laws H" and "hdr_len H hist \<noteq> u64_max"
  shows "length (histogram_buckets H hist) = 10"
    and "sum_list (histogram_buckets H hist) = hdr_len H hist"
proof -
  let ?m = "calculate_histogram_from_hdr H hist"
  have keys: "map fst ?m = histogram_bucket_order"
    using calculate_histogram_facts(1)[of H hist] by (simp add: ten_buckets_def)
  then have "histogram_buckets H hist = map snd ?m"
    unfolding histogram_buckets_def Let_def
    by (metis lookups_in_order distinct_bucket_order)
  moreover have "length ?m = length histogram_bucket_order" by (metis keys length_map)
  ultimately show "length (histogram_buckets H hist) = 10"
    and "sum_list (histogram_buckets H hist) = hdr_len H hist"
    using calculate_histogram_facts(2)[of H hist] hdr_lawsD(4)[OF assms]
    by (simp_all add: histogram_bucket_order_def)
qed

text \<open>The fixed-width bucket vector a worker ships holds every latency sample exactly once:
  it has ten entries, in the canonical order, and they add up to the number of samples in the
  histogram.\<close>

lemma histogram_buckets_total:
  assumes "hdr_laws H" and "hdr_len H hist \<noteq> u64_max"
  shows "length (histogram_buckets H hist) = 10 \<and>
         sum_list (histogram_buckets H hist) = hdr_len H hist"
  using histogram_buckets_sum[OF assms] by simp

section \<open>The summary\<close>

text \<open>The summary's latency percentiles are ordered, from the median up to the 99.99th, and
  its connection reuse ratio is a number between 0 and 1 whenever the connection counters did
  not overflow.\<close>

lemma summary_ordered:
  assumes "hdr_laws H"
    and "unat (si_total_sockets_created i) + unat (si_total_connections_reused i) < 2 ^ 64"
  shows "f_le (su_p50_latency_ms (calculate_summary H i)) (su_p90_latency_ms (calculate_summary H i)) \<and>
    f_le (su_p90_latency_ms (calculate_summary H i)) (su_p95_latency_ms (calculate_summary H i)) \<and>
    f_le (su_p95_latency_ms (calculate_summary H i)) (su_p99_latency_ms (calculate_summary H i)) \<and>
    f_le (su_p99_latency_ms (calculate_summary H i)) (su_p99_99_latency_ms (calculate_summary H i)) \<and>
    f_le (Fin 0) (su_connection_reuse_ratio (calculate_summary H i)) \<and>
    f_le (su_connection_reuse_ratio (calculate_summary H i)) (Fin 1)"
proof -
  let ?q = "\<lambda>p. f64_div (f64_of_u64 (hdr_value_at_quantile H (si_latency_histogram i) (f64_lit p))) micros_per_milli"
  have mono: "f_le (?q p) (?q q)" if "p \<le> q" for p q
    using hdr_lawsD(5)[OF assms(1) round64_mono[OF that], of "si_latency_histogram i"]
    by (intro f64_div_mono f64_of_nat_mono) (simp_all add: word_le_nat_alt)
  let ?t = "si_total_sockets_created i + si_total_connections_reused i"
  have t: "unat ?t = unat (si_total_sockets_created i) + unat (si_total_connections_reused i)"
    using assms(2) by (simp add: unat_word_ariths)
  have "\<exists>q. f64_div (f64_of_u64 (si_total_connections_reused i)) (f64_of_u64 ?t) = Fin q \<and> 0 \<le> q \<and> q \<le> 1"
    if "0 < ?t"
  proof (rule f64_ratio_unit)
    show "unat (si_total_connections_reused i) \<le> unat ?t" unfolding t by simp
    show "0 < unat ?t" using that by (simp only: unat_gt_0 word_gt_0 not_False_eq_True)
    show "unat ?t < 2 ^ 64" using assms(2) unfolding t .
  qed
  then have "f_le (Fin 0) (su_connection_reuse_ratio (calculate_summary H i)) \<and>
      f_le (su_connection_reuse_ratio (calculate_summary H i)) (Fin 1)"
    by (auto simp: calculate_summary_def Let_def)
  then show ?thesis by (simp add: calculate_summary_def Let_def mono)
qed

definition sample_summary_input :: "u64 list summary_input" where
  "sample_summary_input =
     \<lparr>si_url = ''http://h/'', si_total_requests = 3, si_total_errors = 1,
      si_latency_histogram = [3000, 1000, 2000], si_total_bytes = 10, si_duration_secs = Fin 1,
      si_workers = 1, si_status_codes = [(200, 2), (0, 1)], si_e2e_latency_histogram = [],
      si_connection_latency_histogram = [], si_quic_metrics = None, si_sse_metrics = None,
      si_ws_metrics = None, si_grpc_metrics = None, si_http3_metrics = None,
      si_graphql_metrics = None, si_graphql_ws_metrics = None, si_soap_metrics = None,
      si_stomp_metrics = None, si_db_metrics = None, si_timeline = None,
      si_chaos_injected_total = 0, si_chaos_faults_by_type = [], si_resource_samples = [],
      si_total_sockets_created = 2, si_total_connections_reused = 1,
      si_dns_resolution_sum_us = 0, si_dns_resolution_count = 0\<rparr>"

section \<open>Client resources\<close>

lemma f_max_fold_bounds:
  assumes "list_all is_finite xs" and "is_finite a"
  shows "is_finite (foldl f_max a xs) \<and> f_le a (foldl f_max a xs) \<and>
         list_all (\<lambda>x. f_le x (foldl f_max a xs)) xs"
  using assms
proof (induction xs arbitrary: a)
  case (Cons x xs)
  have m: "is_finite (f_max a x)" "f_le a (f_max a x)" "f_le x (f_max a x)"
    using Cons.prems by (cases a; cases x; auto simp: f_max_def)+
  then have "is_finite (foldl f_max (f_max a x) xs)" "f_le (f_max a x) (foldl f_max (f_max a x) xs)"
    "list_all (\<lambda>y. f_le y (foldl f_max (f_max a x) xs)) xs"
    using Cons.IH[of "f_max a x"] Cons.prems by auto
  with m show ?case by (auto intro: f_le_trans)
qed simp

lemma div_le_Max:
  fixes f :: "'a \<Rightarrow> u64"
  assumes "xs \<noteq> []" and "sum_list (map (\<lambda>x. unat (f x)) xs) < 2 ^ 64" and "length xs < 2 ^ 64"
  shows "sum_list (map f xs) div of_nat (length xs) \<le> Max (set (map f xs))"
proof -
  let ?M = "Max (set (map f xs))"
  have le: "unat (f x) \<le> unat ?M" if "x \<in> set xs" for x
    using that by (simp add: word_le_nat_alt[symmetric])
  have sum: "sum_list (map f xs) = of_nat (sum_list (map (\<lambda>x. unat (f x)) xs))"
    by (simp add: of_nat_sum_list)
  have "sum_list (map (\<lambda>x. unat (f x)) xs) \<le> sum_list (map (\<lambda>x. unat ?M) xs)"
    using le by (intro sum_list_mono) auto
  then have "sum_list (map (\<lambda>x. unat (f x)) xs) \<le> length xs * unat ?M"
    by (simp add: sum_list_triv)
  moreover have "0 < length xs" using assms(1) by simp
  ultimately have "sum_list (map (\<lambda>x. unat (f x)) xs) div length xs \<le> unat ?M"
    by (metis div_le_mono nonzero_mult_div_cancel_left less_numeral_extra(3))
  then show ?thesis
    using assms(2,3) unfolding word_le_nat_alt sum
    by (simp add: unat_div unsigned_of_nat take_bit_nat_eq_self)
qed

text \<open>The resource footprint brackets its samples: the peaks bound every sample's memory and
  threads, the peak CPU is finite, non-negative and bounds every finite CPU reading (NaN and
  infinite readings are ignored), and the average memory never exceeds the peak, provided the
  sum of the memory readings fits a \<open>u64\<close>.\<close>

lemma system_metrics_bounds:
  assumes "samples \<noteq> []" and "length samples < 2 ^ 64"
    and "sum_list (map (\<lambda>s. unat (rsp_memory_rss_bytes s)) samples) < 2 ^ 64"
  shows "sy_avg_memory_rss_bytes (from_samples samples) \<le> sy_peak_memory_rss_bytes (from_samples samples) \<and>
    list_all (\<lambda>s. rsp_memory_rss_bytes s \<le> sy_peak_memory_rss_bytes (from_samples samples) \<and>
                  rsp_thread_count s \<le> sy_peak_thread_count (from_samples samples) \<and>
                  (is_finite (rsp_cpu_usage_percent s) \<longrightarrow>
                   f_le (rsp_cpu_usage_percent s) (sy_peak_cpu_percent (from_samples samples)))) samples \<and>
    is_finite (sy_peak_cpu_percent (from_samples samples)) \<and>
    f_le (Fin 0) (sy_peak_cpu_percent (from_samples samples))"
proof -
  let ?v = "filter is_finite (map rsp_cpu_usage_percent samples)"
  have cpu: "is_finite (foldl f_max (Fin 0) ?v)" "f_le (Fin 0) (foldl f_max (Fin 0) ?v)"
    "list_all (\<lambda>x. f_le x (foldl f_max (Fin 0) ?v)) ?v"
    using f_max_fold_bounds[of ?v "Fin 0"] by (auto simp: list_all_iff)
  have avg: "sum_list (map rsp_memory_rss_bytes samples) div of_nat (length samples)
        \<le> Max (set (map rsp_memory_rss_bytes samples))"
    using assms by (intro div_le_Max) simp_all
  show ?thesis
    using assms(1) cpu avg by (auto simp: from_samples_def Let_def list_all_iff)
qed

end
