(* ===== verification/Proto_Types.thy ===== *)
theory Proto_Types
  imports Rust_Std
begin

text \<open>
  The wire messages of \<open>proto/loadtesting/v1/load_test_controller.proto\<close> that the master and
  the workers exchange.  An enum field of a message is an open \<open>i32\<close>, as prost generates it;
  \<open>try_from\<close> gives the enum or \<open>None\<close> for a number outside of it.  A \<open>map\<close> field is a hash map,
  a sub-message an option, a repeated field a list.
\<close>

section \<open>Enums\<close>

datatype proto_worker_state =
  WS_Unspecified | WS_Ready | WS_Running | WS_Draining | WS_Error | WS_Unregistered

fun proto_worker_state_num :: "proto_worker_state \<Rightarrow> i32" where
  "proto_worker_state_num WS_Unspecified = 0"
| "proto_worker_state_num WS_Ready = 1"
| "proto_worker_state_num WS_Running = 2"
| "proto_worker_state_num WS_Draining = 3"
| "proto_worker_state_num WS_Error = 4"
| "proto_worker_state_num WS_Unregistered = 5"

datatype command_type = CT_Unspecified | CT_Start | CT_Stop | CT_Abort

fun command_type_num :: "command_type \<Rightarrow> i32" where
  "command_type_num CT_Unspecified = 0"
| "command_type_num CT_Start = 1"
| "command_type_num CT_Stop = 2"
| "command_type_num CT_Abort = 3"

datatype heartbeat_directive = HD_Unspecified | HD_Continue | HD_Synchronize | HD_Abort

fun heartbeat_directive_num :: "heartbeat_directive \<Rightarrow> i32" where
  "heartbeat_directive_num HD_Unspecified = 0"
| "heartbeat_directive_num HD_Continue = 1"
| "heartbeat_directive_num HD_Synchronize = 2"
| "heartbeat_directive_num HD_Abort = 3"

datatype registration_status = RS_Unspecified | RS_Accepted | RS_Rejected

fun registration_status_num :: "registration_status \<Rightarrow> i32" where
  "registration_status_num RS_Unspecified = 0"
| "registration_status_num RS_Accepted = 1"
| "registration_status_num RS_Rejected = 2"

datatype command_status = CS_Unspecified | CS_Acknowledged | CS_Completed | CS_Failed | CS_Rejected

fun command_status_num :: "command_status \<Rightarrow> i32" where
  "command_status_num CS_Unspecified = 0"
| "command_status_num CS_Acknowledged = 1"
| "command_status_num CS_Completed = 2"
| "command_status_num CS_Failed = 3"
| "command_status_num CS_Rejected = 4"

datatype error_class =
  EC_Unspecified | EC_Timeout | EC_ConnectionRefused | EC_ConnectionReset | EC_DnsFailure
  | EC_TlsError | EC_Http4xx | EC_Http5xx | EC_ProtocolError | EC_PayloadError | EC_Other

fun error_class_num :: "error_class \<Rightarrow> i32" where
  "error_class_num EC_Unspecified = 0"
| "error_class_num EC_Timeout = 1"
| "error_class_num EC_ConnectionRefused = 2"
| "error_class_num EC_ConnectionReset = 3"
| "error_class_num EC_DnsFailure = 4"
| "error_class_num EC_TlsError = 5"
| "error_class_num EC_Http4xx = 6"
| "error_class_num EC_Http5xx = 7"
| "error_class_num EC_ProtocolError = 8"
| "error_class_num EC_PayloadError = 9"
| "error_class_num EC_Other = 10"

text \<open>\<open>TryFrom<i32>\<close> of a generated enum: the variant with that number.\<close>

definition enum_try_from :: "('e \<Rightarrow> i32) \<Rightarrow> 'e list \<Rightarrow> i32 \<Rightarrow> 'e option" where
  "enum_try_from num variants n = find (\<lambda>e. num e = n) variants"

definition worker_state_try_from :: "i32 \<Rightarrow> proto_worker_state option" where
  "worker_state_try_from = enum_try_from proto_worker_state_num
     [WS_Unspecified, WS_Ready, WS_Running, WS_Draining, WS_Error, WS_Unregistered]"

definition command_type_try_from :: "i32 \<Rightarrow> command_type option" where
  "command_type_try_from = enum_try_from command_type_num
     [CT_Unspecified, CT_Start, CT_Stop, CT_Abort]"

definition heartbeat_directive_try_from :: "i32 \<Rightarrow> heartbeat_directive option" where
  "heartbeat_directive_try_from = enum_try_from heartbeat_directive_num
     [HD_Unspecified, HD_Continue, HD_Synchronize, HD_Abort]"

definition error_class_variants :: "error_class list" where
  "error_class_variants =
     [EC_Unspecified, EC_Timeout, EC_ConnectionRefused, EC_ConnectionReset, EC_DnsFailure,
      EC_TlsError, EC_Http4xx, EC_Http5xx, EC_ProtocolError, EC_PayloadError, EC_Other]"

definition error_class_try_from :: "i32 \<Rightarrow> error_class option" where
  "error_class_try_from = enum_try_from error_class_num error_class_variants"

text \<open>The derived \<open>Debug\<close> name of a variant.\<close>

fun error_class_debug :: "error_class \<Rightarrow> string" where
  "error_class_debug EC_Unspecified = ''Unspecified''"
| "error_class_debug EC_Timeout = ''Timeout''"
| "error_class_debug EC_ConnectionRefused = ''ConnectionRefused''"
| "error_class_debug EC_ConnectionReset = ''ConnectionReset''"
| "error_class_debug EC_DnsFailure = ''DnsFailure''"
| "error_class_debug EC_TlsError = ''TlsError''"
| "error_class_debug EC_Http4xx = ''Http4xx''"
| "error_class_debug EC_Http5xx = ''Http5xx''"
| "error_class_debug EC_ProtocolError = ''ProtocolError''"
| "error_class_debug EC_PayloadError = ''PayloadError''"
| "error_class_debug EC_Other = ''Other''"

lemma worker_state_round_trip [simp]:
  "worker_state_try_from (proto_worker_state_num s) = Some s"
  by (cases s) (simp_all add: worker_state_try_from_def enum_try_from_def)

lemma command_type_round_trip [simp]: "command_type_try_from (command_type_num c) = Some c"
  by (cases c) (simp_all add: command_type_try_from_def enum_try_from_def)

lemma heartbeat_directive_round_trip [simp]:
  "heartbeat_directive_try_from (heartbeat_directive_num d) = Some d"
  by (cases d) (simp_all add: heartbeat_directive_try_from_def enum_try_from_def)

lemma error_class_round_trip [simp]: "error_class_try_from (error_class_num c) = Some c"
  by (cases c) (simp_all add: error_class_try_from_def error_class_variants_def enum_try_from_def)

section \<open>Messages\<close>

text \<open>\<open>google.protobuf.Timestamp\<close> and \<open>google.protobuf.Duration\<close>: seconds and nanoseconds.\<close>

type_synonym proto_timestamp = "i64 \<times> i32"
type_synonym proto_duration = "i64 \<times> i32"

record resource_capacity =
  rc_cpu_cores :: u32
  rc_total_memory_bytes :: u64
  rc_available_memory_bytes :: u64
  rc_available_cpu_percent :: f32

record register_worker_request =
  rr_worker_id :: string
  rr_hostname :: string
  rr_ip_address :: string
  rr_max_concurrency_vus :: u32
  rr_capacity :: "resource_capacity option"
  rr_agent_version :: string
  rr_labels :: "(string, string) hash_map"
  rr_registered_at :: "proto_timestamp option"

record cluster_configuration_msg =
  cc_cluster_id :: string
  cc_master_endpoint :: string
  cc_heartbeat_interval_ms :: u32
  cc_metric_flush_interval_ms :: u32
  cc_max_batch_size :: u32
  cc_tls_required :: bool
  cc_histogram_bucket_count :: u32
  cc_cluster_labels :: "(string, string) hash_map"

definition cluster_configuration_default :: cluster_configuration_msg where
  "cluster_configuration_default =
     \<lparr>cc_cluster_id = [], cc_master_endpoint = [], cc_heartbeat_interval_ms = 0,
      cc_metric_flush_interval_ms = 0, cc_max_batch_size = 0, cc_tls_required = False,
      cc_histogram_bucket_count = 0, cc_cluster_labels = []\<rparr>"

record register_worker_response =
  rw_status :: i32
  rw_acknowledgment_id :: string
  rw_cluster_config :: "cluster_configuration_msg option"
  rw_message :: string

record resource_usage =
  ru_cpu_utilization_percent :: f32
  ru_memory_utilization_percent :: f32
  ru_memory_used_bytes :: u64
  ru_thread_count :: u32

record heartbeat_request =
  hq_worker_id :: string
  hq_state :: i32
  hq_active_vus :: u32
  hq_usage :: "resource_usage option"
  hq_sent_at :: "proto_timestamp option"
  hq_test_run_id :: string

record heartbeat_response =
  hr_directive :: i32
  hr_next_heartbeat_interval_ms :: u32
  hr_message :: string
  hr_pending_command_id :: string
  hr_server_time :: "proto_timestamp option"

record proto_header =
  ph_name :: string
  ph_value :: string

record target_endpoint =
  te_url :: string
  te_method :: string
  te_weight :: f32

record payload_template =
  pt_name :: string
  pt_content_type :: string
  pt_body :: bytes
  pt_weight :: f32
  pt_headers :: "proto_header list"

record ramp_up_schedule =
  ra_start_vus :: u32
  ra_target_vus :: u32
  ra_shape :: i32
  ra_ramp_duration :: "proto_duration option"
  ra_hold_duration :: "proto_duration option"

record test_configuration =
  tc_test_run_id :: string
  tc_targets :: "target_endpoint list"
  tc_ramp_up :: "ramp_up_schedule option"
  tc_duration :: "proto_duration option"
  tc_virtual_users :: u32
  tc_request_timeout_ms :: u32
  tc_headers :: "proto_header list"
  tc_payloads :: "payload_template list"
  tc_http_method :: string
  tc_metadata :: "(string, string) hash_map"

record command_request =
  cr_command :: i32
  cr_command_id :: string
  cr_test_run_id :: string
  cr_config :: "test_configuration option"
  cr_issued_at :: "proto_timestamp option"
  cr_command_timeout_ms :: u32

record command_response =
  ca_command_id :: string
  ca_worker_id :: string
  ca_status :: i32
  ca_error_message :: string
  ca_acknowledged_at :: "proto_timestamp option"

record watch_commands_request =
  wc_worker_id :: string
  wc_last_command_id :: string

record error_breakdown =
  eb_error_class :: i32
  eb_count :: u64
  eb_detail :: string

record latency_summary =
  ls_p50_ms :: f32
  ls_p90_ms :: f32
  ls_p95_ms :: f32
  ls_p99_ms :: f32
  ls_min_ms :: f32
  ls_max_ms :: f32
  ls_mean_ms :: f32
  ls_std_dev_ms :: f64
  ls_sample_count :: u64
  ls_bucket_counts :: "u64 list"

definition latency_summary_default :: latency_summary where
  "latency_summary_default =
     \<lparr>ls_p50_ms = Fin 0, ls_p90_ms = Fin 0, ls_p95_ms = Fin 0, ls_p99_ms = Fin 0,
      ls_min_ms = Fin 0, ls_max_ms = Fin 0, ls_mean_ms = Fin 0, ls_std_dev_ms = Fin 0,
      ls_sample_count = 0, ls_bucket_counts = []\<rparr>"

record metric_batch =
  mb_worker_id :: string
  mb_test_run_id :: string
  mb_batch_id :: string
  mb_window_start_unix_ms :: i64
  mb_window_duration_ms :: u32
  mb_total_requests :: u64
  mb_success_count :: u64
  mb_failure_count :: u64
  mb_bytes_received :: u64
  mb_bytes_sent :: u64
  mb_active_vus :: u32
  mb_latency :: "latency_summary option"
  mb_errors :: "error_breakdown list"
  mb_requests_per_second :: f64

record stream_acknowledgment =
  sa_worker_id :: string
  sa_accepted_batches :: u32
  sa_accepted_requests :: u64
  sa_resync_required :: bool
  sa_message :: string
  sa_processed_at :: "proto_timestamp option"
  sa_last_batch_id :: string

text \<open>The batch with every field at its protobuf default.\<close>

definition metric_batch_default :: metric_batch where
  "metric_batch_default =
     \<lparr>mb_worker_id = [], mb_test_run_id = [], mb_batch_id = [], mb_window_start_unix_ms = 0,
      mb_window_duration_ms = 0, mb_total_requests = 0, mb_success_count = 0,
      mb_failure_count = 0, mb_bytes_received = 0, mb_bytes_sent = 0, mb_active_vus = 0,
      mb_latency = None, mb_errors = [], mb_requests_per_second = Fin 0\<rparr>"

section \<open>Clock readings\<close>

text \<open>
  A reading of the system clock is a number of nanoseconds relative to the Unix epoch; both
  conversions fall back to zero when the clock stands before the epoch.
\<close>

type_synonym clock = int

definition now_unix_ms :: "clock \<Rightarrow> i64" where
  "now_unix_ms t = (if t < 0 then 0 else wrap64 (t div 10 ^ 6))"

definition now_timestamp :: "clock \<Rightarrow> proto_timestamp" where
  "now_timestamp t = (if t < 0 then (0, 0) else (wrap64 (t div 10 ^ 9), t mod 10 ^ 9))"

end
