(* ===== verification/Worker_State.thy ===== *)
theory Worker_State
  imports Proto_Types
begin

text \<open>
  The worker's errors (\<open>src/distributed/error.rs\<close>), its lifecycle state machine
  (\<open>state.rs\<close>) and the reconnect backoff (\<open>backoff.rs\<close>).  The machine only moves along the
  legal transitions; the backoff never panics, never exceeds its cap and grows with the attempt.
\<close>

section \<open>Errors\<close>

text \<open>Errors of other crates are carried as their display text.\<close>

datatype worker_error =
    WConfig string
  | StateTransition string string
  | WTransport string
  | WRpc string
  | WIo string
  | WDisconnected string

type_synonym 'a worker_result = "worker_error + 'a"

section \<open>The state machine\<close>

datatype worker_state = WReady | WRunning | WDraining | WError

fun as_proto :: "worker_state \<Rightarrow> proto_worker_state" where
  "as_proto WReady = WS_Ready"
| "as_proto WRunning = WS_Running"
| "as_proto WDraining = WS_Draining"
| "as_proto WError = WS_Error"

fun worker_state_as_str :: "worker_state \<Rightarrow> string" where
  "worker_state_as_str WReady = ''READY''"
| "worker_state_as_str WRunning = ''RUNNING''"
| "worker_state_as_str WDraining = ''DRAINING''"
| "worker_state_as_str WError = ''ERROR''"

definition can_transition_to :: "worker_state \<Rightarrow> worker_state \<Rightarrow> bool" where
  "can_transition_to s next =
     ((s, next) \<in> set [(WReady, WRunning), (WReady, WDraining), (WReady, WError),
                       (WRunning, WDraining), (WRunning, WReady), (WRunning, WError),
                       (WDraining, WReady), (WDraining, WError),
                       (WError, WReady), (WError, WDraining)])"

record worker_state_machine =
  wsm_state :: worker_state

definition wsm_new :: worker_state_machine where
  "wsm_new = \<lparr>wsm_state = WReady\<rparr>"

definition transition ::
    "worker_state \<Rightarrow> worker_state_machine \<Rightarrow> worker_state_machine \<times> unit worker_result" where
  "transition next m =
     (if next = wsm_state m \<or> can_transition_to (wsm_state m) next
      then (m\<lparr>wsm_state := next\<rparr>, Inr ())
      else (m, Inl (StateTransition (worker_state_as_str (wsm_state m)) (worker_state_as_str next))))"

section \<open>Backoff\<close>

record backoff =
  bo_base :: duration
  bo_max :: duration
  bo_factor :: f64
  bo_jitter :: bool
  bo_attempt :: u32

definition backoff_new :: "duration \<Rightarrow> duration \<Rightarrow> backoff" where
  "backoff_new base mx = \<lparr>bo_base = base, bo_max = mx, bo_factor = Fin 2, bo_jitter = True, bo_attempt = 0\<rparr>"

definition with_factor :: "f64 \<Rightarrow> backoff \<Rightarrow> backoff" where
  "with_factor factor b = b\<lparr>bo_factor := f_max factor (Fin 1)\<rparr>"

definition with_jitter :: "bool \<Rightarrow> backoff \<Rightarrow> backoff" where
  "with_jitter jitter b = b\<lparr>bo_jitter := jitter\<rparr>"

definition backoff_reset :: "backoff \<Rightarrow> backoff" where
  "backoff_reset b = b\<lparr>bo_attempt := 0\<rparr>"

definition delay_for :: "backoff \<Rightarrow> u32 \<Rightarrow> duration outcome" where
  "delay_for b attempt =
     (let base = as_secs_f64 (bo_base b);
          mx = as_secs_f64 (bo_max b);
          scaled = f64_mul base (f64_powi (bo_factor b) (unat (min attempt 32)))
      in from_secs_f64 (f_min scaled mx))"

definition u32_saturating_succ :: "u32 \<Rightarrow> u32" where
  "u32_saturating_succ n = (if n = - 1 then n else n + 1)"

text \<open>The reading of the random number generator is the argument \<open>rand\<close>.\<close>

definition next_delay :: "f64 \<Rightarrow> backoff \<Rightarrow> backoff \<times> duration outcome" where
  "next_delay rand b =
     (case delay_for b (bo_attempt b) of
        Panics \<Rightarrow> (b, Panics)
      | Returns delay \<Rightarrow>
          (let b' = b\<lparr>bo_attempt := u32_saturating_succ (bo_attempt b)\<rparr>
           in if bo_jitter b then (b', from_secs_f64 (f64_mul (as_secs_f64 delay) rand))
              else (b', Returns delay)))"

section \<open>Legal runs of the state machine\<close>

definition wsm_step :: "worker_state_machine \<Rightarrow> worker_state \<Rightarrow> worker_state_machine" where
  "wsm_step m next = fst (transition next m)"

text \<open>The graph of the comments in the source: everything but leaving running or ready for itself.\<close>

lemma can_transition_iff:
  "can_transition_to s t \<longleftrightarrow> s \<noteq> t \<and> (s, t) \<noteq> (WDraining, WRunning) \<and> (s, t) \<noteq> (WError, WRunning)"
  by (cases s; cases t) (simp_all add: can_transition_to_def)

text \<open>
  A transition fails exactly for a worker that is draining or faulted and told to run; then the
  state is kept and the error names both states.
\<close>

lemma transition_fails_iff:
  "snd (transition next m) = Inl e \<longleftrightarrow>
     next = WRunning \<and> wsm_state m \<in> {WDraining, WError} \<and>
     e = StateTransition (worker_state_as_str (wsm_state m)) (worker_state_as_str next)"
  by (cases "wsm_state m"; cases "next") (auto simp: transition_def can_transition_iff)

lemma wsm_step_state:
  "wsm_state (wsm_step m next) =
     (if next = WRunning \<and> wsm_state m \<in> {WDraining, WError} then wsm_state m else next)"
  by (cases "wsm_state m"; cases "next") (auto simp: wsm_step_def transition_def can_transition_iff)

section \<open>The schedule of the backoff\<close>

lemma powi_loop_pow2:
  assumes "i + j * b < 1024"
  shows "powi_loop (Fin (2 ^ i)) (Fin (2 ^ j)) b = Fin (2 ^ (i + j * b))"
  using assms
proof (induction b arbitrary: i j rule: less_induct)
  case (less b)
  have p: "round64 (2 ^ k) = Fin (2 ^ k)" if "k < 1024" for k :: nat
    using round64_pow2[of "int k"] that by simp
  let ?i = "if odd b then i + j else i"
  have r: "(if odd b then f64_mul (Fin (2 ^ i)) (Fin (2 ^ j)) else Fin (2 ^ i)) = Fin (2 ^ ?i)"
  proof (cases "odd b")
    case True
    then have "j \<le> j * b" by (cases b) auto
    then have "i + j < 1024" using less.prems by linarith
    then show ?thesis using True p[of "i + j"] by (simp add: power_add)
  qed simp
  show ?case
  proof (cases "b div 2 = 0")
    case True
    then have "b = 0 \<or> b = 1" by linarith
    then show ?thesis using r less.prems by (subst powi_loop.simps) (auto simp: Let_def)
  next
    case False
    then have b: "b div 2 < b" "2 \<le> b" by simp_all
    have eq: "?i + (j + j) * (b div 2) = i + j * b"
    proof (cases "odd b")
      case True
      then obtain q where "b = 2 * q + 1" by (elim oddE)
      then show ?thesis by (simp add: algebra_simps)
    next
      case False
      then obtain q where "b = 2 * q" by auto
      then show ?thesis by (simp add: algebra_simps)
    qed
    have "j + j \<le> j * b" using b(2) by (metis mult_2_right mult_le_mono2)
    then have sq: "f64_mul (Fin (2 ^ j)) (Fin (2 ^ j)) = Fin (2 ^ (j + j))"
      using p[of "j + j"] less.prems by (simp add: power_add)
    have "powi_loop (Fin (2 ^ ?i)) (Fin (2 ^ (j + j))) (b div 2) = Fin (2 ^ (i + j * b))"
      using less.IH[OF b(1), of ?i "j + j"] eq less.prems by simp
    then show ?thesis using False r sq by (subst powi_loop.simps) (simp add: Let_def)
  qed
qed

lemma f64_powi_2: "n < 1024 \<Longrightarrow> f64_powi (Fin 2) n = Fin (2 ^ n)"
  using powi_loop_pow2[of 0 1 n] by (simp add: f64_powi_def)


lemma as_secs_whole: "m \<le> 2 ^ 53 \<Longrightarrow> as_secs_f64 (from_secs m) = Fin (of_nat m)"
  using round64_int[of "int m"]
  by (simp add: as_secs_f64_def from_secs_def f64_of_nat_exact)

lemma as_secs_split:
  assumes "f64_of_nat (d div 10 ^ 9) = Fin s" and "round64 (of_nat (d mod 10 ^ 9) / 10 ^ 9) = Fin f"
  shows "as_secs_f64 d = round64 (s + f)"
proof -
  have "f64_of_nat (d mod 10 ^ 9) = Fin (of_nat (d mod 10 ^ 9))"
    by (rule f64_of_nat_exact, rule order.trans[OF less_imp_le[OF mod_less_divisor]]) simp_all
  then have "f64_div (f64_of_nat (d mod 10 ^ 9)) (Fin (10 ^ 9)) = Fin f" using assms(2) by simp
  then show ?thesis unfolding as_secs_f64_def assms(1) by (simp only: f_add.simps)
qed

lemma as_secs_finite:
  assumes "d < 2 ^ 64 * 10 ^ 9"
  shows "\<exists>x. as_secs_f64 d = Fin x \<and> 0 \<le> x"
proof -
  have "d div 10 ^ 9 < 2 ^ 64" using assms by (simp add: less_mult_imp_div_less)
  then obtain s where s: "f64_of_nat (d div 10 ^ 9) = Fin s" "0 \<le> s" using f64_of_nat_finite by blast
  have top: "round64 (2 ^ 64) = Fin (2 ^ 64)" using round64_pow2[of 64] by simp
  have s': "s \<le> 2 ^ 64"
  proof -
    have "(of_nat (d div 10 ^ 9) :: rat) \<le> of_nat (2 ^ 64)"
      using \<open>d div 10 ^ 9 < 2 ^ 64\<close> by (simp only: of_nat_le_iff)
    then show ?thesis using round64_mono_Fin[OF _ s(1)[unfolded f64_of_nat_def] top] by simp
  qed
  have "(of_nat (d mod 10 ^ 9) :: rat) \<le> 10 ^ 9"
    using of_nat_mono[of "d mod 10 ^ 9" "10 ^ 9", where ?'a = rat] by simp
  then obtain f where f: "round64 (of_nat (d mod 10 ^ 9) / 10 ^ 9) = Fin f" "0 \<le> f" "f \<le> 1"
    using round64_between[of 0 "of_nat (d mod 10 ^ 9) / 10 ^ 9" 1] by (auto simp: divide_le_eq_1)
  have top2: "round64 (2 ^ 65) = Fin (2 ^ 65)" using round64_pow2[of 65] by simp
  have "0 \<le> s + f" "s + f \<le> 2 ^ 65" using s(2) s' f by simp_all
  from round64_sandwich[OF round64_small_int(1) top2 this] show ?thesis
    using as_secs_split[OF s(1) f(1)] by auto
qed

lemma rhe_scaled_le: "x \<le> of_nat m \<Longrightarrow> nat (rhe (x * 10 ^ 9)) \<le> from_secs m"
proof -
  assume "x \<le> of_nat m"
  then have "rhe (x * 10 ^ 9) \<le> rhe (of_int (int (from_secs m)))"
    by (intro rhe_mono) (simp add: from_secs_def)
  then show ?thesis by (simp only: rhe_of_int)
qed

text \<open>The value that is turned into a duration: grows with the attempt and stops at the cap.\<close>

definition capped :: "f64 \<Rightarrow> rat \<Rightarrow> nat \<Rightarrow> f64" where
  "capped base m n = f_min (f64_mul base (Fin (2 ^ n))) (Fin m)"

lemma capped_facts:
  assumes "base = Fin x" and "0 \<le> x" and "0 \<le> m"
  shows "\<exists>v. capped base m n = Fin v \<and> 0 \<le> v \<and> v \<le> m"
    and "n \<le> k \<Longrightarrow> f_le (capped base m n) (capped base m k)"
proof -
  have nonneg: "f_le (Fin 0) (round64 (x * 2 ^ i))" for i using assms by (intro round64_nonneg) simp
  show "\<exists>v. capped base m n = Fin v \<and> 0 \<le> v \<and> v \<le> m"
    using nonneg[of n] assms by (cases "round64 (x * 2 ^ n)") (auto simp: capped_def f_min_def)
  assume "n \<le> k"
  then have "x * 2 ^ n \<le> x * 2 ^ k" using assms(2) by (intro mult_left_mono) (simp_all add: power_increasing)
  then have "f_le (round64 (x * 2 ^ n)) (round64 (x * 2 ^ k))" by (rule round64_mono)
  then show "f_le (capped base m n) (capped base m k)"
    using nonneg[of n] nonneg[of k] assms
    by (cases "round64 (x * 2 ^ n)"; cases "round64 (x * 2 ^ k)") (auto simp: capped_def f_min_def)
qed

lemma delay_for_value:
  assumes "base < 2 ^ 64 * 10 ^ 9" and "m \<le> 2 ^ 53"
  shows "\<exists>v. capped (as_secs_f64 base) (of_nat m) (unat (min n 32)) = Fin v \<and> 0 \<le> v \<and> v \<le> of_nat m \<and>
             delay_for (backoff_new base (from_secs m)) n = Returns (nat (rhe (v * 10 ^ 9)))"
proof -
  obtain x where x: "as_secs_f64 base = Fin x" "0 \<le> x" using as_secs_finite[OF assms(1)] by blast
  have "unat (min n 32) < 1024"
    using word_le_nat_alt[of "min n 32" 32] by simp
  then have p: "f64_powi (Fin 2) (unat (min n 32)) = Fin (2 ^ unat (min n 32))" by (rule f64_powi_2)
  obtain v where v: "capped (Fin x) (of_nat m) (unat (min n 32)) = Fin v" "0 \<le> v" "v \<le> of_nat m"
    using capped_facts(1)[OF refl x(2), of "of_nat m"] by auto
  have "(of_nat m :: rat) < 2 ^ 64" using of_nat_mono[OF assms(2), where ?'a = rat] by simp
  then have "v < 2 ^ 64" using v(3) by linarith
  then show ?thesis
    using v x p as_secs_whole[OF assms(2)] by (simp add: delay_for_def backoff_new_def Let_def capped_def not_le not_less)
qed


lemma delay_for_mono:
  assumes "base < 2 ^ 64 * 10 ^ 9" and "m \<le> 2 ^ 53" and "n \<le> k"
    and "delay_for (backoff_new base (from_secs m)) n = Returns d"
    and "delay_for (backoff_new base (from_secs m)) k = Returns d'"
  shows "d \<le> d'"
proof -
  obtain x where x: "as_secs_f64 base = Fin x" "0 \<le> x" using as_secs_finite[OF assms(1)] by blast
  have "min n 32 \<le> min k 32" using assms(3) by (simp add: min.coboundedI1)
  then have "unat (min n 32) \<le> unat (min k 32)" by (simp only: word_le_nat_alt)
  from capped_facts(2)[OF x(1) x(2) _ this, of "of_nat m"]
  have le: "f_le (capped (as_secs_f64 base) (of_nat m) (unat (min n 32)))
    (capped (as_secs_f64 base) (of_nat m) (unat (min k 32)))" by (simp add: x)
  show ?thesis
    using delay_for_value[OF assms(1,2), of n] delay_for_value[OF assms(1,2), of k] assms(4,5) le
    by (auto intro!: nat_mono rhe_mono)
qed

lemma as_secs_mono_cap:
  assumes "d \<le> from_secs m" and "m \<le> 2 ^ 53"
  shows "\<exists>y. as_secs_f64 d = Fin y \<and> 0 \<le> y \<and> y \<le> of_nat m"
proof -
  have d: "d < 2 ^ 64 * 10 ^ 9"
    using assms by (simp add: from_secs_def)
  obtain y where y: "as_secs_f64 d = Fin y" "0 \<le> y" using as_secs_finite[OF d] by blast
  let ?s = "d div 10 ^ 9" and ?n = "d mod 10 ^ 9"
  have n9: "?n < 10 ^ 9" by simp
  have "y \<le> of_nat m"
  proof (cases "?s = m")
    case True
    then have "?n = 0" using assms(1) div_mult_mod_eq[of d "10 ^ 9"] by (simp add: from_secs_def)
    then have "d = from_secs m" using True div_mult_mod_eq[of d "10 ^ 9"] by (simp add: from_secs_def)
    then show ?thesis using y as_secs_whole[OF assms(2)] by simp
  next
    case False
    have "?s \<le> m" using div_le_mono[OF assms(1), of "10 ^ 9"] by (simp add: from_secs_def)
    then have sm: "?s + 1 \<le> m" using False by simp
    then have s: "f64_of_nat ?s = Fin (of_nat ?s)" using assms(2) by (intro f64_of_nat_exact) linarith
    have "(of_nat ?n :: rat) \<le> 10 ^ 9" using of_nat_mono[OF less_imp_le[OF n9], where ?'a = rat] by simp
    then obtain f where f: "round64 (of_nat ?n / 10 ^ 9) = Fin f" "0 \<le> f" "f \<le> 1"
      using round64_between[of 0 "of_nat ?n / 10 ^ 9" 1] by (auto simp: divide_le_eq_1)
    have "of_nat ?s + f \<le> of_nat m" using f(3) of_nat_mono[OF sm, where ?'a = rat] by simp
    moreover have "round64 (of_nat ?s + f) = Fin y" using y(1) as_secs_split[OF s f(1)] by simp
    moreover have "round64 (of_nat m) = Fin (of_nat m)"
      using f64_of_nat_exact[OF assms(2)] by (simp add: f64_of_nat_def)
    ultimately show ?thesis using round64_mono_Fin by blast
  qed
  then show ?thesis using y by blast
qed

lemma delay_for_cap:
  assumes "base < 2 ^ 64 * 10 ^ 9" and "m \<le> 2 ^ 53"
  shows "\<exists>d. delay_for (backoff_new base (from_secs m)) k = Returns d \<and> d \<le> from_secs m"
  using delay_for_value[OF assms, of k] rhe_scaled_le by auto

lemma delay_for_update [simp]: "delay_for (b\<lparr>bo_attempt := n, bo_jitter := j\<rparr>) k = delay_for b k"
  by (simp add: delay_for_def Let_def)

lemma next_delay_cap:
  assumes "base < 2 ^ 64 * 10 ^ 9" and "m \<le> 2 ^ 53" and "0 \<le> r" and "r < 1"
  shows "\<exists>e. next_delay (Fin r) ((backoff_new base (from_secs m))\<lparr>bo_attempt := n, bo_jitter := j\<rparr>) =
    ((backoff_new base (from_secs m))\<lparr>bo_attempt := u32_saturating_succ n, bo_jitter := j\<rparr>, Returns e) \<and>
    e \<le> from_secs m"
proof -
  obtain d where d: "delay_for (backoff_new base (from_secs m)) n = Returns d" "d \<le> from_secs m"
    using delay_for_cap[OF assms(1,2)] by blast
  obtain y where y: "as_secs_f64 d = Fin y" "0 \<le> y" "y \<le> of_nat m" using as_secs_mono_cap[OF d(2) assms(2)] by blast
  have m64: "(of_nat m :: rat) < 2 ^ 64" using of_nat_mono[OF assms(2), where ?'a = rat] by simp
  have "round64 (of_nat m) = Fin (of_nat m)" using f64_of_nat_exact[OF assms(2)] by (simp add: f64_of_nat_def)
  moreover have "0 \<le> y * r" "y * r \<le> of_nat m" using y(2,3) assms(3,4) mult_left_le[of r y] by auto
  ultimately obtain z where z: "round64 (y * r) = Fin z" "0 \<le> z" "z \<le> of_nat m"
    using round64_sandwich[OF round64_small_int(1)] by blast
  show ?thesis
    using d y z m64 rhe_scaled_le[OF z(3)] by (simp add: next_delay_def Let_def not_le not_less)
qed

lemma u32_saturating_succ_ge: "n \<le> u32_saturating_succ n"
proof (cases "n = - 1")
  case False
  then have "unat n \<noteq> unat (- 1 :: u32)" by (metis word_unat_eq_iff)
  moreover have "unat n < 2 ^ 32" by (rule order_less_le_trans[OF unsigned_less]) simp
  ultimately have "unat n < 2 ^ 32 - 1" by (simp add: unsigned_minus_1_eq_mask mask_eq_exp_minus_1)
  then have "unat (n + 1) = unat n + 1" by (simp add: unat_word_ariths)
  then show ?thesis by (simp add: u32_saturating_succ_def word_le_nat_alt)
qed (simp add: u32_saturating_succ_def)

text \<open>The reconnect backoff never panics and never exceeds its cap.  For every base delay, every
  cap of whole seconds up to \<open>2 ^ 53\<close>, every attempt and every random factor below one, the next
  delay is a duration of at most the cap, the deterministic delay grows with the attempt, and
  the attempt counter saturates instead of wrapping.\<close>

lemma backoff_bounded:
  assumes "base < 2 ^ 64 * 10 ^ 9" and "m \<le> 2 ^ 53" and "0 \<le> r" and "r < 1"
  shows "let b = (backoff_new base (from_secs m))\<lparr>bo_attempt := n, bo_jitter := j\<rparr>;
             (b', out) = next_delay (Fin r) b
    in (\<exists>d. out = Returns d \<and> d \<le> from_secs m) \<and> n \<le> bo_attempt b' \<and>
       (\<exists>d d'. delay_for b n = Returns d \<and> delay_for b (bo_attempt b') = Returns d' \<and> d \<le> d' \<and> d' \<le> from_secs m)"
proof -
  obtain d where d: "delay_for (backoff_new base (from_secs m)) n = Returns d" "d \<le> from_secs m"
    using delay_for_cap[OF assms(1,2)] by blast
  obtain d' where d': "delay_for (backoff_new base (from_secs m)) (u32_saturating_succ n) = Returns d'" "d' \<le> from_secs m"
    using delay_for_cap[OF assms(1,2)] by blast
  have "d \<le> d'" using delay_for_mono[OF assms(1,2) u32_saturating_succ_ge d(1) d'(1)] .
  then show ?thesis
    using d d' next_delay_cap[OF assms, where n = n and j = j] u32_saturating_succ_ge[of n] by auto
qed

text \<open>The worker's own schedule: half a second, doubling, thirty seconds.\<close>

lemma half_exact: "round64 (1 / 2) = Fin (1 / 2)"
proof -
  have "rnd 53 (- 1074) (2 powi (- 1)) = (2 powi (- 1) :: rat)" using rnd_exact[of 1 53 "- 1074" "- 1"] by simp
  moreover have "(1 / 2 :: rat) < 2 powi 1024" using powi2_less_iff[of "- 1" 1024] by (simp add: power_int_minus)
  moreover have "- ((2 :: rat) powi 1024) < 1 / 2" using powi2_pos[of 1024] by linarith
  ultimately show ?thesis by (simp add: round64_def to_float_def Let_def power_int_minus field_simps)
qed

lemma worker_schedule:
  "delay_for (backoff_new (from_millis 500) (from_secs 30)) n =
     Returns (if unat n < 6 then from_millis (500 * 2 ^ unat n) else from_secs 30)"
proof -
  let ?i = "unat (min n 32)"
  have base: "as_secs_f64 (from_millis 500) = Fin (1 / 2)"
    using as_secs_split[of "from_millis 500" 0 "1 / 2"] half_exact by (simp add: from_millis_def f64_of_nat_def)
  have pow: "round64 (1 / 2 * 2 ^ k) = Fin (1 / 2 * 2 ^ k)" if "k < 1024" for k :: nat
  proof (cases k)
    case (Suc j)
    then show ?thesis using round64_pow2[of "int j"] that by simp
  qed (simp add: half_exact)
  have i: "?i < 1024" "?i < 6 \<longleftrightarrow> unat n < 6" "?i < 6 \<longrightarrow> ?i = unat n"
    using word_le_nat_alt[of "min n 32" 32] by (auto simp: min_def word_le_nat_alt)
  have "capped (Fin (1 / 2)) 30 ?i = Fin (min (1 / 2 * 2 ^ ?i) 30)"
    using pow[OF i(1)] by (simp add: capped_def f_min_def min_def)
  then have "delay_for (backoff_new (from_millis 500) (from_secs 30)) n =
      Returns (nat (rhe (min (1 / 2 * 2 ^ ?i) 30 * 10 ^ 9)))"
    using delay_for_value[of "from_millis 500" 30 n] by (simp add: base) (simp add: from_millis_def)
  moreover have "nat (rhe (min (1 / 2 * 2 ^ ?i) 30 * 10 ^ 9)) = (if ?i < 6 then from_millis (500 * 2 ^ ?i) else from_secs 30)"
  proof (cases "?i < 6")
    case True
    have "(2 :: rat) ^ ?i \<le> 2 ^ 5" using True by (intro power_increasing) simp_all
    then have "min (1 / 2 * 2 ^ ?i) 30 * 10 ^ 9 = (of_int (int (from_millis (500 * 2 ^ ?i))) :: rat)"
      by (simp add: min_def from_millis_def)
    then show ?thesis using True by (simp only: rhe_of_int) simp
  next
    case False
    then have "(2 :: rat) ^ 6 \<le> 2 ^ ?i" by (intro power_increasing) simp_all
    then have "min (1 / 2 * 2 ^ ?i) 30 * 10 ^ 9 = (of_int (int (from_secs 30)) :: rat)"
      by (simp add: min_def from_secs_def)
    then show ?thesis using False by (simp only: rhe_of_int) simp
  qed
  ultimately show ?thesis using i by auto
qed

end
