(* ===== verification/Worker_Config.thy ===== *)
theory Worker_Config
  imports Worker_State "HOL-Library.AList"
begin

text \<open>
  The worker's configuration (\<open>src/distributed/config.rs\<close>) and the execution plan a worker makes
  of a test configuration, with the loop of one virtual user (\<open>executor.rs\<close>).  What the
  \<open>http\<close> crate provides (methods, header names and values, the header map) is a parameter, as
  are the host name and the number of cores the operating system reports.
\<close>

section \<open>The configuration of the daemon\<close>

definition vus_per_core :: u32 where
  "vus_per_core = 100"

record worker_config =
  wcf_master_endpoint :: string
  wcf_worker_id :: "string option"
  wcf_hostname :: "string option"
  wcf_ip_address :: "string option"
  wcf_max_vus :: u32
  wcf_labels :: "string list"
  wcf_heartbeat_interval_ms :: u64
  wcf_metric_window_ms :: u64
  wcf_request_timeout_ms :: u64
  wcf_tls :: bool

fun labels_loop :: "string list \<Rightarrow> (string, string) hash_map \<Rightarrow> (string, string) hash_map worker_result" where
  "labels_loop [] m = Inr m"
| "labels_loop (entry # entries) m =
     (case split_once (CHR ''='') entry of
        None \<Rightarrow> Inl (WConfig (''invalid label '' @ [CHR 0x27] @ entry @ [CHR 0x27] @ '' (want key=value)''))
      | Some (key, value) \<Rightarrow>
          (if key = []
           then Inl (WConfig (''label '' @ [CHR 0x27] @ entry @ [CHR 0x27] @ '' has an empty key''))
           else labels_loop entries (AList.update key value m)))"

definition labels_map :: "worker_config \<Rightarrow> (string, string) hash_map worker_result" where
  "labels_map c = labels_loop (wcf_labels c) []"

definition endpoint_uri :: "worker_config \<Rightarrow> string" where
  "endpoint_uri c =
     (if contains_sub (wcf_master_endpoint c) ''://'' then wcf_master_endpoint c
      else (if wcf_tls c then ''https'' else ''http'') @ ''://'' @ wcf_master_endpoint c)"

definition resolved_hostname :: "string option \<Rightarrow> worker_config \<Rightarrow> string" where
  "resolved_hostname system_host_name c =
     (case wcf_hostname c of
        Some h \<Rightarrow> h
      | None \<Rightarrow> (case system_host_name of Some h \<Rightarrow> h | None \<Rightarrow> ''unknown-host''))"

definition resolved_worker_id :: "string option \<Rightarrow> worker_config \<Rightarrow> string" where
  "resolved_worker_id system_host_name c =
     (case wcf_worker_id c of Some w \<Rightarrow> w | None \<Rightarrow> resolved_hostname system_host_name c)"

definition resolved_ip_address :: "worker_config \<Rightarrow> string" where
  "resolved_ip_address c = (case wcf_ip_address c of Some ip \<Rightarrow> ip | None \<Rightarrow> ''127.0.0.1'')"

definition u32_saturating_mul :: "u32 \<Rightarrow> u32 \<Rightarrow> u32" where
  "u32_saturating_mul a b = (if unat a * unat b < 2 ^ 32 then a * b else - 1)"

definition resolved_max_vus :: "nat option \<Rightarrow> worker_config \<Rightarrow> u32" where
  "resolved_max_vus parallelism c =
     (if wcf_max_vus c > 0 then wcf_max_vus c
      else let cores = (case parallelism of Some n \<Rightarrow> of_nat n | None \<Rightarrow> 1)
           in max (u32_saturating_mul cores vus_per_core) vus_per_core)"

definition worker_config_validate :: "worker_config \<Rightarrow> unit worker_result" where
  "worker_config_validate c =
     (if str_trim (wcf_master_endpoint c) = [] then Inl (WConfig ''master endpoint must not be empty'')
      else if wcf_heartbeat_interval_ms c = 0 then Inl (WConfig ''heartbeat interval must be greater than zero'')
      else if wcf_metric_window_ms c = 0 then Inl (WConfig ''metric window must be greater than zero'')
      else case labels_map c of Inl e \<Rightarrow> Inl e | Inr _ \<Rightarrow> Inr ())"

section \<open>The execution plan\<close>

text \<open>The part of the \<open>http\<close> crate the plan uses; failures carry their display text.\<close>

record ('m, 'n, 'v, 'h) http_ops =
  ho_get :: 'm
  ho_method_from_bytes :: "string \<Rightarrow> string + 'm"
  ho_name_from_bytes :: "string \<Rightarrow> string + 'n"
  ho_value_from_str :: "string \<Rightarrow> string + 'v"
  ho_octet_stream :: 'v
  ho_content_type :: 'n
  ho_map_new :: 'h
  ho_append :: "'n \<Rightarrow> 'v \<Rightarrow> 'h \<Rightarrow> 'h"
  ho_or_insert :: "'n \<Rightarrow> 'v \<Rightarrow> 'h \<Rightarrow> 'h"

record ('m, 'h) execution_plan =
  ep_targets :: "string list"
  ep_method :: 'm
  ep_body :: "bytes option"
  ep_headers :: 'h
  ep_timeout :: duration
  ep_virtual_users :: usize
  ep_duration :: "duration option"

definition plan_targets :: "test_configuration \<Rightarrow> string list" where
  "plan_targets config = filter (\<lambda>u. u \<noteq> []) (map (\<lambda>t. str_trim (te_url t)) (tc_targets config))"

definition plan_method :: "('m, 'n, 'v, 'h) http_ops \<Rightarrow> test_configuration \<Rightarrow> 'm worker_result" where
  "plan_method P config =
     (if str_trim (tc_http_method config) = [] then Inr (ho_get P)
      else case ho_method_from_bytes P (str_trim (tc_http_method config)) of
             Inl e \<Rightarrow> Inl (WConfig (''invalid HTTP method: '' @ e))
           | Inr m \<Rightarrow> Inr m)"

fun plan_headers :: "('m, 'n, 'v, 'h) http_ops \<Rightarrow> proto_header list \<Rightarrow> 'h \<Rightarrow> 'h worker_result" where
  "plan_headers P [] headers = Inr headers"
| "plan_headers P (header # rest) headers =
     (case ho_name_from_bytes P (str_trim (ph_name header)) of
        Inl e \<Rightarrow> Inl (WConfig (''invalid header name: '' @ e))
      | Inr name \<Rightarrow>
          (case ho_value_from_str P (ph_value header) of
             Inl e \<Rightarrow> Inl (WConfig (''invalid header value: '' @ e))
           | Inr value \<Rightarrow> plan_headers P rest (ho_append P name value headers)))"

definition plan_body ::
    "('m, 'n, 'v, 'h) http_ops \<Rightarrow> test_configuration \<Rightarrow> 'h \<Rightarrow> bytes option \<times> 'h" where
  "plan_body P config headers =
     (case find (\<lambda>p. pt_body p \<noteq> []) (tc_payloads config) of
        None \<Rightarrow> (None, headers)
      | Some p \<Rightarrow>
          (Some (pt_body p),
           if pt_content_type p \<noteq> []
           then ho_or_insert P (ho_content_type P)
                  (case ho_value_from_str P (pt_content_type p) of Inl _ \<Rightarrow> ho_octet_stream P | Inr v \<Rightarrow> v) headers
           else headers))"

definition plan_duration :: "test_configuration \<Rightarrow> duration option" where
  "plan_duration config =
     (case tc_duration config of
        None \<Rightarrow> None
      | Some (seconds, nanos) \<Rightarrow>
          (let secs = nat (max seconds 0); ns = nat (max nanos 0)
           in if secs = 0 \<and> ns = 0 then None else Some (duration_new secs ns)))"

definition plan_virtual_users :: "test_configuration \<Rightarrow> u32 \<Rightarrow> usize" where
  "plan_virtual_users config max_vus =
     (let requested_vus = unat (max (tc_virtual_users config) 1);
          ceiling = (if max_vus = 0 then requested_vus else unat max_vus)
      in max (min requested_vus ceiling) 1)"

definition from_proto ::
    "('m, 'n, 'v, 'h) http_ops \<Rightarrow> test_configuration \<Rightarrow> u32 \<Rightarrow> duration \<Rightarrow> ('m, 'h) execution_plan worker_result" where
  "from_proto P config max_vus default_timeout =
     (if plan_targets config = [] then Inl (WConfig ''test configuration has no target endpoints'')
      else case plan_method P config of
        Inl e \<Rightarrow> Inl e
      | Inr m \<Rightarrow>
          (case plan_headers P (tc_headers config) (ho_map_new P) of
             Inl e \<Rightarrow> Inl e
           | Inr headers \<Rightarrow>
               (case plan_body P config headers of (body, headers') \<Rightarrow>
                  Inr \<lparr>ep_targets = plan_targets config, ep_method = m, ep_body = body, ep_headers = headers',
                       ep_timeout = (if tc_request_timeout_ms config > 0
                                     then from_millis (unat (tc_request_timeout_ms config)) else default_timeout),
                       ep_virtual_users = plan_virtual_users config max_vus,
                       ep_duration = plan_duration config\<rparr>)))"

section \<open>One virtual user\<close>

text \<open>
  What a virtual user sees at the head of one iteration: whether the run is cancelled, the time
  since the start, and whether the collector still takes the metric.  The result is the list of
  URLs it requested; an empty input means it is still running.
\<close>

record vu_turn =
  vt_cancelled :: bool
  vt_elapsed :: duration
  vt_sent :: bool

fun virtual_user :: "string list \<Rightarrow> duration option \<Rightarrow> usize \<Rightarrow> vu_turn list \<Rightarrow> string list" where
  "virtual_user targets limit index [] = []"
| "virtual_user targets limit index (t # ts) =
     (if vt_cancelled t then []
      else if (case limit of Some d \<Rightarrow> d \<le> vt_elapsed t | None \<Rightarrow> False) then []
      else targets ! (index mod length targets) #
           (if vt_sent t then virtual_user targets limit ((index + 1) mod 2 ^ 64) ts else []))"

section \<open>Labels and endpoint\<close>

definition label_entry :: "string \<times> string \<Rightarrow> string" where
  "label_entry kv = fst kv @ ''='' @ snd kv"

definition label_ok :: "string \<times> string \<Rightarrow> bool" where
  "label_ok kv \<longleftrightarrow> fst kv \<noteq> [] \<and> CHR ''='' \<notin> set (fst kv)"

lemma split_label: "label_ok kv \<Longrightarrow> split_once (CHR ''='') (label_entry kv) = Some kv"
  using split_once_append[of "CHR ''=''" "fst kv" "snd kv"] by (simp add: label_ok_def label_entry_def)

lemma labels_loop_ok:
  assumes "list_all label_ok kvs"
  shows "labels_loop (map label_entry kvs) m = Inr (foldl (\<lambda>m kv. AList.update (fst kv) (snd kv) m) m kvs)"
  using assms
proof (induction kvs arbitrary: m)
  case (Cons kv kvs)
  then show ?case by (cases kv) (simp add: split_label, simp add: label_ok_def)
qed simp

lemma labels_loop_Inr:
  "labels_loop entries m = Inr r \<Longrightarrow> \<exists>kvs. entries = map label_entry kvs \<and> list_all label_ok kvs"
proof (induction entries arbitrary: m)
  case (Cons entry entries)
  then obtain key val where s: "split_once (CHR ''='') entry = Some (key, val)" "key \<noteq> []"
    "labels_loop entries (AList.update key val m) = Inr r"
    by (auto split: option.splits if_splits)
  from Cons.IH[OF s(3)] obtain kvs where "entries = map label_entry kvs" "list_all label_ok kvs" by blast
  with s(2) split_once_Some[OF s(1)] show ?case
    by (intro exI[of _ "(key, val) # kvs"]) (simp add: label_entry_def label_ok_def[of "(key, val)"])
qed simp

lemma foldl_update:
  "map_of (foldl (\<lambda>m kv. AList.update (fst kv) (snd kv) m) m kvs) = map_of (rev kvs @ m)"
  by (induction kvs arbitrary: m) (auto simp: update_conv' fun_eq_iff map_add_def split: option.splits)

lemma distinct_foldl_update:
  "distinct (map fst m) \<Longrightarrow> distinct (map fst (foldl (\<lambda>m kv. AList.update (fst kv) (snd kv) m) m kvs))"
  by (induction kvs arbitrary: m) (simp_all add: distinct_update)

text \<open>Label parsing is exact.  The labels parse if and only if every entry is a non-empty key
  without an equals sign, an equals sign and a value; then the resulting map has each key once,
  and for a key given several times it holds the value given last.\<close>

lemma labels_exact:
  "let valid = (\<lambda>kvs. wcf_labels c = map (\<lambda>kv. fst kv @ ''='' @ snd kv) kvs \<and>
                      list_all (\<lambda>kv. fst kv \<noteq> [] \<and> CHR ''='' \<notin> set (fst kv)) kvs)
   in case labels_map c of
        Inl e \<Rightarrow> (\<nexists>kvs. valid kvs)
      | Inr m \<Rightarrow> (\<exists>kvs. valid kvs \<and> map_of m = map_of (rev kvs)) \<and> distinct (map fst m)"
proof -
  have f: "(\<lambda>kv. fst kv @ ''='' @ snd kv) = label_entry" "(\<lambda>kv. fst kv \<noteq> [] \<and> CHR ''='' \<notin> set (fst kv)) = label_ok"
    by (simp_all add: fun_eq_iff label_entry_def label_ok_def)
  have ok: "labels_map c = Inr (foldl (\<lambda>m kv. AList.update (fst kv) (snd kv) m) [] kvs)"
    if "wcf_labels c = map label_entry kvs" "list_all label_ok kvs" for kvs
    using labels_loop_ok[OF that(2), of "[]"] that(1) by (simp add: labels_map_def)
  show ?thesis
  proof (cases "labels_map c")
    case (Inl e)
    then show ?thesis using ok unfolding f Let_def by fastforce
  next
    case (Inr m)
    then obtain kvs where k: "wcf_labels c = map label_entry kvs" "list_all label_ok kvs"
      using labels_loop_Inr unfolding labels_map_def by blast
    then have "m = foldl (\<lambda>m kv. AList.update (fst kv) (snd kv) m) [] kvs" using ok[OF k] Inr by simp
    then show ?thesis
      using k Inr foldl_update[of "[]" kvs] distinct_foldl_update[of "[]" kvs] unfolding f Let_def by auto
  qed
qed

lemma endpoint_uri_scheme: "contains_sub (endpoint_uri c) ''://''"
proof (cases "contains_sub (wcf_master_endpoint c) ''://''")
  case False
  then show ?thesis
    by (simp only: endpoint_uri_def if_False contains_sub_iff) blast
qed (simp add: endpoint_uri_def)

lemma endpoint_uri_idem: "endpoint_uri (c\<lparr>wcf_master_endpoint := endpoint_uri c\<rparr>) = endpoint_uri c"
  using endpoint_uri_scheme[of c] by (simp add: endpoint_uri_def)

section \<open>Soundness of a plan\<close>

lemma str_trim_idem_targets: "u \<in> set (plan_targets config) \<Longrightarrow> u \<noteq> [] \<and> (\<exists>t \<in> set (tc_targets config). u = str_trim (te_url t))"
  by (auto simp: plan_targets_def)

lemma plan_virtual_users_bounds:
  "1 \<le> plan_virtual_users config max_vus" "plan_virtual_users config max_vus \<le> max 1 (unat (tc_virtual_users config))"
  "max_vus \<noteq> 0 \<Longrightarrow> plan_virtual_users config max_vus \<le> unat max_vus"
proof -
  have m: "unat (max (tc_virtual_users config) 1) = max (unat (tc_virtual_users config)) 1"
    by (simp add: max_def word_le_nat_alt)
  show "1 \<le> plan_virtual_users config max_vus" by (simp add: plan_virtual_users_def Let_def)
  show "plan_virtual_users config max_vus \<le> max 1 (unat (tc_virtual_users config))"
    using m by (simp add: plan_virtual_users_def Let_def)
  assume "max_vus \<noteq> 0"
  then have "1 \<le> unat max_vus" using unat_gt_0[of max_vus] by simp
  then show "plan_virtual_users config max_vus \<le> unat max_vus"
    using \<open>max_vus \<noteq> 0\<close> by (simp add: plan_virtual_users_def Let_def)
qed

text \<open>C25: A plan respects the worker's limits.  When a test configuration is accepted, the plan runs
  at least one and at most the requested virtual users, never more than the worker's ceiling
  when it has one; it has at least one target, none of them blank and each a trimmed URL of the
  configuration; and its duration, when bounded, is positive.\<close>

theorem plan_sound:
  assumes "from_proto P config max_vus default_timeout = Inr plan"
  shows "1 \<le> ep_virtual_users plan \<and> ep_virtual_users plan \<le> max 1 (unat (tc_virtual_users config)) \<and>
    (max_vus \<noteq> 0 \<longrightarrow> ep_virtual_users plan \<le> unat max_vus) \<and> ep_targets plan \<noteq> [] \<and>
    (\<forall>u \<in> set (ep_targets plan). u \<noteq> [] \<and> (\<exists>t \<in> set (tc_targets config). u = str_trim (te_url t))) \<and>
    ep_duration plan \<noteq> Some 0"
proof -
  have "plan_duration config \<noteq> Some 0"
    by (auto simp: plan_duration_def duration_new_def Let_def split: option.splits)
  moreover have "ep_virtual_users plan = plan_virtual_users config max_vus" "ep_targets plan = plan_targets config"
    "ep_duration plan = plan_duration config" "plan_targets config \<noteq> []"
    using assms by (auto simp: from_proto_def split: if_splits sum.splits prod.splits)
  ultimately show ?thesis
    using plan_virtual_users_bounds[where config = config and max_vus = max_vus] str_trim_idem_targets[of _ config]
    by (simp del: One_nat_def)
qed

text \<open>A plain instance of the \<open>http\<close> operations: methods, names and values are their text.\<close>

definition plain_http :: "(string, string, string, (string \<times> string) list) http_ops" where
  "plain_http = \<lparr>ho_get = ''GET'', ho_method_from_bytes = Inr, ho_name_from_bytes = Inr, ho_value_from_str = Inr,
     ho_octet_stream = ''application/octet-stream'', ho_content_type = ''content-type'', ho_map_new = [],
     ho_append = (\<lambda>n v h. h @ [(n, v)]),
     ho_or_insert = (\<lambda>n v h. if n \<in> fst ` set h then h else h @ [(n, v)])\<rparr>"

definition sample_test_config :: test_configuration where
  "sample_test_config = \<lparr>tc_test_run_id = ''run1'', tc_targets = [\<lparr>te_url = '' http://a '', te_method = [], te_weight = Fin 1\<rparr>],
     tc_ramp_up = None, tc_duration = Some (2, 0), tc_virtual_users = 50, tc_request_timeout_ms = 0,
     tc_headers = [], tc_payloads = [], tc_http_method = [], tc_metadata = []\<rparr>"

lemma sample_plan:
  "\<exists>plan. from_proto plain_http sample_test_config max_vus timeout = Inr plan \<and> ep_targets plan = [''http://a'']"
proof -
  have t: "plan_targets sample_test_config = [''http://a'']" by code_simp
  have m: "plan_method plain_http sample_test_config = Inr ''GET''"
    by (simp add: plan_method_def sample_test_config_def plain_http_def str_trim_def)
  have h: "plan_headers plain_http (tc_headers sample_test_config) (ho_map_new plain_http) = Inr []"
    by (simp add: sample_test_config_def plain_http_def)
  have b: "plan_body plain_http sample_test_config [] = (None, [])"
    by (simp add: plan_body_def sample_test_config_def)
  show ?thesis by (simp add: from_proto_def t m h b)
qed

theorem plan_sound_witness:
  "\<exists>plan. from_proto plain_http sample_test_config 8 5 = Inr plan \<and> ep_virtual_users plan \<le> 8"
proof -
  obtain plan where p: "from_proto plain_http sample_test_config 8 5 = Inr plan" using sample_plan by blast
  have "ep_virtual_users plan \<le> 8"
    using plan_sound[OF p, THEN conjunct2, THEN conjunct2, THEN conjunct1] by simp
  with p show ?thesis by blast
qed

section \<open>Round robin\<close>

definition vu_stops :: "duration option \<Rightarrow> vu_turn \<Rightarrow> bool" where
  "vu_stops limit t \<longleftrightarrow> vt_cancelled t \<or> (case limit of Some d \<Rightarrow> d \<le> vt_elapsed t | None \<Rightarrow> False)"

lemma virtual_user_index:
  assumes "index + length ts < 2 ^ 64"
  shows "\<exists>n. n \<le> length (takeWhile (\<lambda>t. \<not> vu_stops limit t) ts) \<and>
     virtual_user targets limit index ts = map (\<lambda>i. targets ! ((index + i) mod length targets)) [0..<n]"
  using assms
proof (induction ts arbitrary: index)
  case (Cons t ts)
  show ?case
  proof (cases "vu_stops limit t")
    case True
    then show ?thesis by (auto simp: vu_stops_def)
  next
    case go: False
    show ?thesis
    proof (cases "vt_sent t")
      case True
      have i: "(index + 1) mod 2 ^ 64 = index + 1" using Cons.prems by simp
      obtain n where n: "n \<le> length (takeWhile (\<lambda>t. \<not> vu_stops limit t) ts)"
        "virtual_user targets limit (index + 1) ts = map (\<lambda>i. targets ! ((index + 1 + i) mod length targets)) [0..<n]"
        using Cons.IH[of "index + 1"] Cons.prems by auto
      have "map (\<lambda>i. targets ! ((index + i) mod length targets)) [0..<Suc n] =
          targets ! (index mod length targets) # map (\<lambda>i. targets ! ((index + 1 + i) mod length targets)) [0..<n]"
        by (simp add: upt_conv_Cons map_Suc_upt[symmetric] del: upt_Suc)
      then show ?thesis
        using go True n i by (intro exI[of _ "Suc n"]) (auto simp: vu_stops_def split: option.splits)
    next
      case False
      then show ?thesis using go by (intro exI[of _ 1]) (auto simp: vu_stops_def split: option.splits)
    qed
  qed
qed simp

text \<open>How often a residue occurs among consecutive numbers.\<close>

lemma count_residue:
  fixes n j a :: nat
  assumes "j < n"
  shows "length (filter (\<lambda>i. (a + i) mod n = j) [0..<L]) = (L + a + (n - 1 - j)) div n - (a + (n - 1 - j)) div n"
proof (induction L)
  case (Suc L)
  let ?c = "a + (n - 1 - j)"
  have iff: "(L + a) mod n = j \<longleftrightarrow> Suc (L + ?c) mod n = 0"
  proof -
    have "Suc (L + ?c) = (L + a) + (n - j)" using assms by simp
    then have "Suc (L + ?c) mod n = ((L + a) mod n + (n - j)) mod n" by (metis mod_add_left_eq)
    moreover have "(r + (n - j)) mod n = 0 \<longleftrightarrow> r = j" if "r < n" for r
    proof (cases "r < j")
      case True
      then have "r + (n - j) < n" "r + (n - j) \<noteq> 0" using assms by linarith+
      then show ?thesis using True by (simp only: mod_less) simp
    next
      case False
      then have "r + (n - j) = (r - j) + n" "r - j < n" using assms that by linarith+
      then show ?thesis using False by (simp only: mod_add_self2 mod_less) linarith
    qed
    ultimately show ?thesis using assms by (metis gr_implies_not0 mod_less_divisor neq0_conv)
  qed
  have d: "Suc (L + ?c) div n = (if Suc (L + ?c) mod n = 0 then Suc ((L + ?c) div n) else (L + ?c) div n)"
    by (rule div_Suc)
  have le: "?c div n \<le> (L + ?c) div n" by (intro div_le_mono) simp
  have f: "length (filter (\<lambda>i. (a + i) mod n = j) [0..<Suc L]) =
      length (filter (\<lambda>i. (a + i) mod n = j) [0..<L]) + (if (L + a) mod n = j then 1 else 0)"
    by (simp add: add.commute)
  have e: "Suc L + a + (n - 1 - j) = Suc (L + ?c)" "L + a + (n - 1 - j) = L + ?c" by simp_all
  show ?case
    unfolding f e(1) d Suc.IH[unfolded e(2)] iff
    using le by (split if_split)+ linarith
qed simp

lemma div_interval:
  fixes n c L :: nat
  assumes "0 < n"
  shows "L div n \<le> (L + c) div n - c div n" "(L + c) div n - c div n \<le> L div n + 1"
proof -
  have "(L + c) div n = L div n + c div n + (L mod n + c mod n) div n" by (rule div_add1_eq)
  moreover have "L mod n + c mod n < 2 * n" using mod_less_divisor[OF assms, of L] mod_less_divisor[OF assms, of c] by linarith
  then have "(L mod n + c mod n) div n < 2" by (rule less_mult_imp_div_less)
  ultimately show "L div n \<le> (L + c) div n - c div n" "(L + c) div n - c div n \<le> L div n + 1" by simp_all
qed

text \<open>A virtual user spreads its requests evenly.  Starting at its own offset it takes the targets
  in turn, so after any number of iterations every target of the plan (they are distinct) was
  requested either the integer share of the requests or one more; and it sends no request at or
  after the turn at which the run is cancelled or its time is over.\<close>

lemma virtual_user_round_robin:
  assumes "distinct targets" and "targets \<noteq> []" and "vu + length ts < 2 ^ 64" and "u \<in> set targets"
  shows "let urls = virtual_user targets limit vu ts; share = length urls div length targets
    in count_list urls u \<in> {share, share + 1} \<and> set urls \<subseteq> set targets \<and>
       length urls \<le> length (takeWhile (\<lambda>t. \<not> vt_cancelled t \<and> (\<forall>d. limit = Some d \<longrightarrow> vt_elapsed t < d)) ts)"
proof -
  let ?n = "length targets"
  have w: "(\<lambda>t. \<not> vt_cancelled t \<and> (\<forall>d. limit = Some d \<longrightarrow> vt_elapsed t < d)) = (\<lambda>t. \<not> vu_stops limit t)"
    by (auto simp: vu_stops_def fun_eq_iff not_le split: option.splits)
  obtain L where L: "L \<le> length (takeWhile (\<lambda>t. \<not> vu_stops limit t) ts)"
    "virtual_user targets limit vu ts = map (\<lambda>i. targets ! ((vu + i) mod ?n)) [0..<L]"
    using virtual_user_index[OF assms(3)] by blast
  obtain j where j: "j < ?n" "targets ! j = u" using assms(4) by (auto simp: in_set_conv_nth)
  have pos: "0 < ?n" using assms(2) by simp
  have "count_list (map (\<lambda>i. targets ! ((vu + i) mod ?n)) [0..<L]) u = length (filter (\<lambda>i. (vu + i) mod ?n = j) [0..<L])"
  proof -
    have "(\<lambda>i. u = targets ! ((vu + i) mod ?n)) = (\<lambda>i. (vu + i) mod ?n = j)"
      using nth_eq_iff_index_eq[OF assms(1) _ j(1)] mod_less_divisor[OF pos] j(2) by (metis (no_types))
    then show ?thesis by (simp add: count_list_eq_length_filter filter_map o_def)
  qed
  also have "\<dots> = (L + (vu + (?n - 1 - j))) div ?n - (vu + (?n - 1 - j)) div ?n"
    using count_residue[OF j(1), of vu L] by (simp add: ac_simps)
  finally have c: "count_list (virtual_user targets limit vu ts) u \<in> {L div ?n, L div ?n + 1}"
    using div_interval[OF pos, of L "vu + (?n - 1 - j)"] L(2) by auto
  have len: "length (virtual_user targets limit vu ts) = L" using L(2) by simp
  have sub: "set (virtual_user targets limit vu ts) \<subseteq> set targets"
    unfolding L(2) using nth_mem[OF mod_less_divisor[OF pos]] by (simp add: image_subset_iff)
  show ?thesis
    unfolding Let_def w len using c sub L(1) by blast
qed

end
