(* ===== verification/Worker_Telemetry.thy ===== *)
theory Worker_Telemetry
  imports Metric_Summary Proto_Types
begin

text \<open>
  The worker's windowed collector (\<open>src/distributed/telemetry.rs\<close>): it folds the metrics of a
  run into the open window and turns the window into a \<open>MetricBatch\<close> at every tick.  The
  lemmas show that a window is internally consistent and that, over any interleaving of
  records and ticks, the batches together with the open window account for every metric.
\<close>

section \<open>The collector\<close>

definition classify_error :: "u16 \<Rightarrow> error_class" where
  "classify_error status_code =
     (if 400 \<le> status_code \<and> status_code \<le> 499 then EC_Http4xx
      else if 500 \<le> status_code \<and> status_code \<le> 599 then EC_Http5xx
      else EC_Other)"

definition latency_summary_of :: "'h hdr_ops \<Rightarrow> 'h \<Rightarrow> latency_summary" where
  "latency_summary_of H hist =
     (if hdr_is_empty H hist
      then latency_summary_default\<lparr>ls_bucket_counts := replicate (length histogram_bucket_order) 0\<rparr>
      else let as_ms = (\<lambda>us. f32_of_f64 (f64_div (f64_of_u64 us) micros_per_milli))
           in \<lparr>ls_p50_ms = as_ms (hdr_value_at_quantile H hist (f64_lit (50 / 100))),
               ls_p90_ms = as_ms (hdr_value_at_quantile H hist (f64_lit (90 / 100))),
               ls_p95_ms = as_ms (hdr_value_at_quantile H hist (f64_lit (95 / 100))),
               ls_p99_ms = as_ms (hdr_value_at_quantile H hist (f64_lit (99 / 100))),
               ls_min_ms = as_ms (hdr_min H hist),
               ls_max_ms = as_ms (hdr_max H hist),
               ls_mean_ms = f32_of_f64 (f64_div (hdr_mean H hist) micros_per_milli),
               ls_std_dev_ms = f64_div (hdr_stdev H hist) micros_per_milli,
               ls_sample_count = hdr_len H hist,
               ls_bucket_counts = histogram_buckets H hist\<rparr>)"

record 'h windowed_collector =
  wco_worker_id :: string
  wco_test_run_id :: string
  wco_window :: duration
  wco_window_start_ms :: i64
  wco_histogram :: 'h
  wco_total :: u64
  wco_success :: u64
  wco_failure :: u64
  wco_bytes_received :: u64
  wco_active_vus :: u32
  wco_errors :: "(i32, u64 \<times> string option) hash_map"
  wco_batch_seq :: u64

definition collector_new :: "'h hdr_ops \<Rightarrow> clock \<Rightarrow> string \<Rightarrow> string \<Rightarrow> duration \<Rightarrow> 'h windowed_collector" where
  "collector_new H now worker_id test_run_id window =
     \<lparr>wco_worker_id = worker_id, wco_test_run_id = test_run_id, wco_window = window,
      wco_window_start_ms = now_unix_ms now, wco_histogram = new_histogram H, wco_total = 0,
      wco_success = 0, wco_failure = 0, wco_bytes_received = 0, wco_active_vus = 0,
      wco_errors = [], wco_batch_seq = 0\<rparr>"

definition pending_requests :: "'h windowed_collector \<Rightarrow> u64" where
  "pending_requests c = wco_total c"

definition set_active_vus :: "u32 \<Rightarrow> 'h windowed_collector \<Rightarrow> 'h windowed_collector" where
  "set_active_vus n c = c\<lparr>wco_active_vus := n\<rparr>"

definition collector_record :: "'h hdr_ops \<Rightarrow> 'h windowed_collector \<Rightarrow> request_metric \<Rightarrow> 'h windowed_collector" where
  "collector_record H c metric =
     (let c1 = c\<lparr>wco_total := wco_total c + 1\<rparr>;
          c2 = (if rm_is_error metric
                then c1\<lparr>wco_failure := wco_failure c1 + 1,
                        wco_errors := hm_upsert (error_class_num (classify_error (rm_status_code metric)))
                          (0, None) (\<lambda>e. (fst e + 1, snd e)) (wco_errors c1)\<rparr>
                else c1\<lparr>wco_success := wco_success c1 + 1\<rparr>)
      in c2\<lparr>wco_histogram := hdr_saturating_record H (u64_of_u128_sat (rm_latency_micros metric)) (wco_histogram c2),
            wco_bytes_received := wco_bytes_received c2 + rm_bytes_received metric\<rparr>)"

definition f64_epsilon :: f64 where
  "f64_epsilon = Fin (1 / 2 ^ 52)"

definition take_batch ::
    "'h hdr_ops \<Rightarrow> clock \<Rightarrow> 'h windowed_collector \<Rightarrow> metric_batch option \<times> 'h windowed_collector" where
  "take_batch H now c =
     (if wco_total c = 0 then (None, c)
      else let window_secs = f_max (as_secs_f64 (wco_window c)) f64_epsilon;
               rps = f64_div (f64_of_u64 (wco_total c)) window_secs;
               errors = map (\<lambda>(cls, n, detail). \<lparr>eb_error_class = cls, eb_count = n,
                               eb_detail = (case detail of None \<Rightarrow> [] | Some d \<Rightarrow> d)\<rparr>) (wco_errors c);
               batch = \<lparr>mb_worker_id = wco_worker_id c, mb_test_run_id = wco_test_run_id c,
                        mb_batch_id = show_nat (unat (wco_batch_seq c)),
                        mb_window_start_unix_ms = wco_window_start_ms c,
                        mb_window_duration_ms = of_nat (as_millis (wco_window c)),
                        mb_total_requests = wco_total c, mb_success_count = wco_success c,
                        mb_failure_count = wco_failure c, mb_bytes_received = wco_bytes_received c,
                        mb_bytes_sent = 0, mb_active_vus = wco_active_vus c,
                        mb_latency = Some (latency_summary_of H (wco_histogram c)),
                        mb_errors = errors, mb_requests_per_second = rps\<rparr>
           in (Some batch,
               c\<lparr>wco_histogram := new_histogram H, wco_total := 0, wco_success := 0, wco_failure := 0,
                 wco_bytes_received := 0, wco_errors := [], wco_window_start_ms := now_unix_ms now,
                 wco_batch_seq := wco_batch_seq c + 1\<rparr>))"

section \<open>Runs of the collector\<close>

text \<open>What \<open>run_orchestrator\<close> does to its collector: record a metric, or tick at a clock reading.\<close>

datatype collector_event = Record request_metric | Tick clock

definition collector_step ::
    "'h hdr_ops \<Rightarrow> 'h windowed_collector \<times> metric_batch list \<Rightarrow> collector_event \<Rightarrow>
     'h windowed_collector \<times> metric_batch list" where
  "collector_step H s e =
     (case s of (c, out) \<Rightarrow>
      case e of
        Record m \<Rightarrow> (collector_record H c m, out)
      | Tick now \<Rightarrow> (case take_batch H now c of
                       (None, c') \<Rightarrow> (c', out)
                     | (Some b, c') \<Rightarrow> (c', out @ [b])))"

definition collector_run ::
    "'h hdr_ops \<Rightarrow> 'h windowed_collector \<Rightarrow> collector_event list \<Rightarrow> 'h windowed_collector \<times> metric_batch list" where
  "collector_run H c es = foldl (collector_step H) (c, []) es"

definition recorded :: "collector_event list \<Rightarrow> request_metric list" where
  "recorded es = concat (map (\<lambda>e. case e of Record m \<Rightarrow> [m] | Tick _ \<Rightarrow> []) es)"

section \<open>Consistency of a window and conservation over windows\<close>

definition error_total :: "(i32, u64 \<times> string option) hash_map \<Rightarrow> u64" where
  "error_total m = sum_list (map (\<lambda>e. fst (snd e)) m)"

definition window_ok :: "'h windowed_collector \<Rightarrow> bool" where
  [strob_inv]: "window_ok c \<longleftrightarrow> hm_inv (wco_errors c) \<and>
     wco_total c = wco_success c + wco_failure c \<and> error_total (wco_errors c) = wco_failure c"

definition batch_ok :: "metric_batch \<Rightarrow> bool" where
  [strob_inv]: "batch_ok b \<longleftrightarrow> mb_total_requests b = mb_success_count b + mb_failure_count b \<and>
     sum_list (map eb_count (mb_errors b)) = mb_failure_count b \<and>
     distinct (map eb_error_class (mb_errors b))"

definition collector_inv :: "'h windowed_collector \<times> metric_batch list \<Rightarrow> bool" where
  [strob_inv]: "collector_inv s \<longleftrightarrow> window_ok (fst s) \<and> list_all batch_ok (snd s)"

lemma window_ok_new: "window_ok (collector_new H now w r d)"
  by (simp add: window_ok_def collector_new_def error_total_def)

lemma error_total_upsert:
  assumes "hm_inv m"
  shows "error_total (hm_upsert k (0, None) (\<lambda>e. (fst e + 1, snd e)) m) = error_total m + 1"
  using hm.total_upsert[OF assms, of fst "(0, None)" k "\<lambda>e. (fst e + 1, snd e)" 1]
  by (simp add: error_total_def)

lemma window_ok_record: "window_ok c \<Longrightarrow> window_ok (collector_record H c m)"
  by (auto simp: window_ok_def collector_record_def Let_def error_total_upsert hm.inv_upsert)

lemma take_batch_Some:
  assumes "take_batch H now c = (Some b, c')"
  shows "wco_total c \<noteq> 0" "mb_worker_id b = wco_worker_id c" "mb_test_run_id b = wco_test_run_id c"
    "mb_batch_id b = show_nat (unat (wco_batch_seq c))" "mb_total_requests b = wco_total c"
    "mb_success_count b = wco_success c" "mb_failure_count b = wco_failure c"
    "mb_bytes_received b = wco_bytes_received c"
    "mb_latency b = Some (latency_summary_of H (wco_histogram c))"
    "map eb_error_class (mb_errors b) = map fst (wco_errors c)"
    "sum_list (map eb_count (mb_errors b)) = error_total (wco_errors c)"
    "mb_window_start_unix_ms b = wco_window_start_ms c"
    "c' = c\<lparr>wco_histogram := new_histogram H, wco_total := 0, wco_success := 0, wco_failure := 0,
            wco_bytes_received := 0, wco_errors := [], wco_window_start_ms := now_unix_ms now,
            wco_batch_seq := wco_batch_seq c + 1\<rparr>"
  using assms
  by (auto simp: take_batch_def Let_def error_total_def o_def case_prod_beta split: if_splits)

lemma take_batch_None: "take_batch H now c = (None, c') \<longleftrightarrow> wco_total c = 0 \<and> c' = c"
  by (auto simp: take_batch_def Let_def)

lemma collector_inv_step: "collector_inv s \<Longrightarrow> collector_inv (collector_step H s e)"
proof -
  assume inv: "collector_inv s"
  obtain c out where s: "s = (c, out)" by (cases s)
  show ?thesis
  proof (cases e)
    case (Record m)
    with inv show ?thesis by (simp add: s collector_inv_def collector_step_def window_ok_record)
  next
    case (Tick now)
    obtain ob c' where t: "take_batch H now c = (ob, c')" by (cases "take_batch H now c")
    show ?thesis
    proof (cases ob)
      case None
      then have "c' = c" using t by (simp add: take_batch_None)
      with None t inv Tick show ?thesis by (simp add: s collector_inv_def collector_step_def)
    next
      case (Some b)
      note f = take_batch_Some[OF t[unfolded Some]]
      have "batch_ok b" "window_ok c'"
        using inv f by (simp_all add: s collector_inv_def window_ok_def batch_ok_def error_total_def hm_inv_def)
      with inv show ?thesis using Tick t Some by (simp add: s collector_inv_def collector_step_def)
    qed
  qed
qed

text \<open>What the open window and the emitted batches account for, per field.\<close>

datatype tally = Total | Successes | Failures | Bytes

fun tally_window :: "tally \<Rightarrow> 'h windowed_collector \<Rightarrow> u64" where
  "tally_window Total c = wco_total c"
| "tally_window Successes c = wco_success c"
| "tally_window Failures c = wco_failure c"
| "tally_window Bytes c = wco_bytes_received c"

fun tally_batch :: "tally \<Rightarrow> metric_batch \<Rightarrow> u64" where
  "tally_batch Total b = mb_total_requests b"
| "tally_batch Successes b = mb_success_count b"
| "tally_batch Failures b = mb_failure_count b"
| "tally_batch Bytes b = mb_bytes_received b"

fun tally_metric :: "tally \<Rightarrow> request_metric \<Rightarrow> u64" where
  "tally_metric Total m = 1"
| "tally_metric Successes m = indicator (\<not> rm_is_error m)"
| "tally_metric Failures m = indicator (rm_is_error m)"
| "tally_metric Bytes m = rm_bytes_received m"

definition accounted :: "tally \<Rightarrow> 'h windowed_collector \<times> metric_batch list \<Rightarrow> u64" where
  "accounted k s = tally_window k (fst s) + sum_list (map (tally_batch k) (snd s))"

definition event_tally :: "tally \<Rightarrow> collector_event \<Rightarrow> u64" where
  "event_tally k e = (case e of Record m \<Rightarrow> tally_metric k m | Tick _ \<Rightarrow> 0)"

lemma window_total_zero:
  "window_ok c \<Longrightarrow> wco_total c = 0 \<Longrightarrow> tally_window Total c = 0"
  by simp

lemma accounted_step:
  assumes "collector_inv s"
  shows "accounted k (collector_step H s e) = accounted k s + event_tally k e"
proof -
  obtain c out where s: "s = (c, out)" by (cases s)
  show ?thesis
  proof (cases e)
    case (Record m)
    then show ?thesis
      by (cases k) (simp_all add: s accounted_def collector_step_def event_tally_def
          collector_record_def Let_def indicator_def)
  next
    case (Tick now)
    obtain ob c' where t: "take_batch H now c = (ob, c')" by (cases "take_batch H now c")
    show ?thesis
    proof (cases ob)
      case None
      then have "c' = c" using t by (simp add: take_batch_None)
      with None t Tick show ?thesis
        by (simp add: s accounted_def collector_step_def event_tally_def)
    next
      case (Some b)
      note f = take_batch_Some[OF t[unfolded Some]]
      show ?thesis
        using Tick t Some f
        by (cases k) (simp_all add: s accounted_def collector_step_def event_tally_def)
    qed
  qed
qed

interpretation coll: additive_fold "collector_step H" collector_inv "\<lambda>_. True"
  "accounted k" "event_tally k" for H k
  by unfold_locales (simp_all add: collector_inv_step accounted_step)

lemma sum_event_tally: "sum_list (map (event_tally k) es) = sum_list (map (tally_metric k) (recorded es))"
  by (induction es) (auto simp: recorded_def event_tally_def split: collector_event.split)

lemma collector_run_facts:
  assumes "window_ok c"
  shows "collector_inv (collector_run H c es)"
    "accounted k (collector_run H c es) = tally_window k c + sum_list (map (tally_metric k) (recorded es))"
proof -
  have inv: "collector_inv (c, [])" using assms by (simp add: collector_inv_def)
  then show "collector_inv (collector_run H c es)"
    unfolding collector_run_def by (rule coll.run_inv) simp
  show "accounted k (collector_run H c es) = tally_window k c + sum_list (map (tally_metric k) (recorded es))"
    unfolding collector_run_def
    using coll.measure_run[OF inv, where H = H and k = k and es = es]
    by (simp add: sum_event_tally) (simp add: accounted_def)
qed

text \<open>C5: No request is lost or counted twice by the windows.  For every interleaving of records
  and ticks, the totals of the emitted batches plus the open window equal the number of
  metrics recorded, likewise for successes, failures and bytes, and every batch is consistent:
  its total is successes plus failures and its error breakdown has one entry per class and
  adds up to the failures.\<close>

theorem collector_conservation:
  "let run = collector_run H (collector_new H now w r d) es
   in wco_total (fst run) + sum_list (map mb_total_requests (snd run)) = of_nat (length (recorded es)) \<and>
    wco_failure (fst run) + sum_list (map mb_failure_count (snd run)) =
      of_nat (length (filter rm_is_error (recorded es))) \<and>
    wco_bytes_received (fst run) + sum_list (map mb_bytes_received (snd run)) =
      sum_list (map rm_bytes_received (recorded es)) \<and>
    list_all batch_ok (snd run) \<and> window_ok (fst run)"
proof -
  note f = collector_run_facts[OF window_ok_new[of H now w r d], where H = H and es = es]
  have zero: "wco_total (collector_new H now w r d) = 0" "wco_failure (collector_new H now w r d) = 0"
    "wco_bytes_received (collector_new H now w r d) = 0"
    by (simp_all add: collector_new_def)
  have t: "tally_metric Total = (\<lambda>_. 1)" "tally_metric Failures = (\<lambda>m. indicator (rm_is_error m))"
    "tally_metric Bytes = rm_bytes_received" "tally_window Total = wco_total"
    "tally_window Failures = wco_failure" "tally_window Bytes = wco_bytes_received"
    "tally_batch Total = mb_total_requests" "tally_batch Failures = mb_failure_count"
    "tally_batch Bytes = mb_bytes_received"
    by (rule ext, simp)+
  show ?thesis
    using f(1) f(2)[of Total] f(2)[of Failures] f(2)[of Bytes]
    by (simp add: collector_inv_def accounted_def zero t sum_indicator sum_one Let_def)
qed


text \<open>Shape of the emitted batches: consecutive ids, one worker and run, a complete histogram.\<close>

definition shape_inv ::
    "'h hdr_ops \<Rightarrow> string \<Rightarrow> string \<Rightarrow> nat \<Rightarrow> 'h windowed_collector \<times> metric_batch list \<Rightarrow> bool" where
  [strob_inv]: "shape_inv H w r n s \<longleftrightarrow> (case s of (c, out) \<Rightarrow>
     wco_worker_id c = w \<and> wco_test_run_id c = r \<and>
     unat (wco_batch_seq c) = length out \<and> length out + unat (wco_total c) \<le> n \<and>
     hdr_len H (wco_histogram c) = wco_total c \<and>
     map mb_batch_id out = map show_nat [0..<length out] \<and>
     list_all (\<lambda>b. mb_worker_id b = w \<and> mb_test_run_id b = r \<and> 0 < mb_total_requests b \<and>
                   (case mb_latency b of None \<Rightarrow> False
                    | Some l \<Rightarrow> ls_sample_count l = mb_total_requests b \<and> length (ls_bucket_counts l) = 10 \<and>
                               sum_list (ls_bucket_counts l) = mb_total_requests b)) out)"

lemma unat_u64_succ: "unat w < 2 ^ 64 - 1 \<Longrightarrow> unat (w + 1 :: u64) = unat w + 1"
  by (simp add: unat_word_ariths)

lemma u64_not_max: "unat (w :: u64) < 2 ^ 64 - 1 \<Longrightarrow> w \<noteq> u64_max"
  by auto

lemma latency_summary_total:
  assumes "hdr_laws H" and "hdr_len H hist \<noteq> u64_max"
  shows "ls_sample_count (latency_summary_of H hist) = hdr_len H hist"
    "length (ls_bucket_counts (latency_summary_of H hist)) = 10"
    "sum_list (ls_bucket_counts (latency_summary_of H hist)) = hdr_len H hist"
  using histogram_buckets_sum[OF assms] hdr_lawsD(3)[OF assms(1), of hist]
  by (simp_all add: latency_summary_of_def latency_summary_default_def Let_def histogram_bucket_order_def)

lemma shape_inv_step:
  assumes laws: "hdr_laws H" and inv: "shape_inv H w r n s" and n: "n < 2 ^ 64 - 1"
  shows "shape_inv H w r (n + length (recorded [e])) (collector_step H s e)"
proof -
  obtain c out where s: "s = (c, out)" by (cases s)
  have len: "hdr_len H (wco_histogram c) = wco_total c" and
    tot: "unat (wco_total c) < 2 ^ 64 - 1" and sq: "unat (wco_batch_seq c) < 2 ^ 64 - 1"
    using inv n by (auto simp: s shape_inv_def)
  show ?thesis
  proof (cases e)
    case (Record m)
    have "hdr_len H (hdr_saturating_record H v (wco_histogram c)) = wco_total c + 1" for v
      using hdr_lawsD(2)[OF laws] u64_not_max[OF tot] by (simp add: len)
    then show ?thesis
      using inv unat_u64_succ[OF tot]
      by (auto simp: s Record shape_inv_def collector_step_def collector_record_def Let_def recorded_def)
  next
    case (Tick now)
    obtain ob c' where t: "take_batch H now c = (ob, c')" by (cases "take_batch H now c")
    show ?thesis
    proof (cases ob)
      case None
      then have "c' = c" using t by (simp add: take_batch_None)
      with None t inv Tick show ?thesis by (simp add: s shape_inv_def collector_step_def recorded_def)
    next
      case (Some b)
      note f = take_batch_Some[OF t[unfolded Some]]
      have pos: "0 < unat (wco_total c)" using f(1) by (simp add: unat_gt_0)
      have "hdr_len H (wco_histogram c) \<noteq> u64_max" using len u64_not_max[OF tot] by simp
      note l = latency_summary_total[OF laws this, unfolded len]
      show ?thesis
        using inv f l pos hdr_lawsD(1)[OF laws] unat_u64_succ[OF sq] Tick t Some
        by (auto simp: s shape_inv_def collector_step_def recorded_def new_histogram_def word_gt_0)
    qed
  qed
qed

lemma recorded_append: "recorded (xs @ ys) = recorded xs @ recorded ys"
  by (simp add: recorded_def)

lemma shape_inv_run:
  assumes "hdr_laws H" and "length (recorded es) < 2 ^ 64 - 1"
  shows "shape_inv H w r (length (recorded es)) (collector_run H (collector_new H now w r d) es)"
  using assms(2)
proof (induction es rule: rev_induct)
  case Nil
  then show ?case
    using hdr_lawsD(1)[OF assms(1)]
    by (simp add: shape_inv_def collector_run_def collector_new_def recorded_def new_histogram_def)
next
  case (snoc e es)
  then have "length (recorded es) < 2 ^ 64 - 1" by (simp add: recorded_append)
  with snoc have "shape_inv H w r (length (recorded es)) (collector_run H (collector_new H now w r d) es)"
    by simp
  from shape_inv_step[OF assms(1) this, of e] \<open>length (recorded es) < 2 ^ 64 - 1\<close> show ?case
    by (simp add: collector_run_def recorded_append)
qed

text \<open>C28: Every batch a worker ships is complete.  For every interleaving of records and ticks with
  fewer than \<open>2 ^ 64 - 1\<close> metrics, the batch ids are the decimal numbers 0, 1, 2, ... in order,
  every batch names the worker and the run, is not empty, and its latency summary holds as many
  samples as requests: the sample count and the sum of the ten buckets both equal its total.\<close>

theorem batches_complete:
  assumes "hdr_laws H" and "length (recorded es) < 2 ^ 64 - 1"
  shows "let out = snd (collector_run H (collector_new H now w r d) es)
    in map mb_batch_id out = map show_nat [0..<length out] \<and>
       list_all (\<lambda>b. mb_worker_id b = w \<and> mb_test_run_id b = r \<and> 0 < mb_total_requests b \<and>
         (case mb_latency b of None \<Rightarrow> False
          | Some l \<Rightarrow> ls_sample_count l = mb_total_requests b \<and> length (ls_bucket_counts l) = 10 \<and>
                     sum_list (ls_bucket_counts l) = mb_total_requests b)) out"
  using shape_inv_run[OF assms, of w r now d]
  by (auto simp: shape_inv_def Let_def split: prod.splits)

theorem batches_complete_witness:
  "hdr_laws exact_hdr \<and>
   map mb_batch_id (snd (collector_run exact_hdr (collector_new exact_hdr 0 ''w1'' ''run1'' 1000000000)
     [Record (rm_error 1000 None), Tick 5, Tick 6, Record (rm_error 7 None), Tick 9])) = [''0'', ''1'']"
proof -
  let ?es = "[Record (rm_error 1000 None), Tick 5, Tick 6, Record (rm_error 7 None), Tick 9]"
  let ?out = "snd (collector_run exact_hdr (collector_new exact_hdr 0 ''w1'' ''run1'' 1000000000) ?es)"
  have "length (recorded ?es) < 2 ^ 64 - 1" by (simp add: recorded_def)
  from batches_complete[OF exact_hdr_laws this, of 0 "''w1''" "''run1''" 1000000000]
  have "map mb_batch_id ?out = map show_nat [0..<length ?out]" by (simp add: Let_def)
  moreover have "length ?out = 2"
    by (simp add: collector_run_def collector_step_def take_batch_def collector_record_def
        collector_new_def rm_error_def rm_builder_def rm_is_error_def Let_def)
  moreover have "show_nat 0 = ''0''" "show_nat 1 = ''1''" by code_simp+
  ultimately show ?thesis
    using exact_hdr_laws by (simp add: upt_rec numeral_2_eq_2)
qed

end
