(* ===== verification/Worker_Runtime.thy ===== *)
theory Worker_Runtime
  imports Worker_Config Worker_Telemetry
begin

text \<open>
  The worker daemon (\<open>src/distributed/worker.rs\<close>): the state shared between the heartbeat loop,
  the command loop and the run tasks; the handling of one command; the orchestrator of a run;
  the heartbeat; registration; and the reconnect loop.

  A spawned orchestrator is an entry of a task table and is named by its index, which stands for
  the pair of cancellation token and join handle in \<open>RunControl\<close>.  The handler of STOP awaits
  the join handle, so it is modelled in two halves with a pending wait in between; everything
  else a handler does happens in one step, and the inductive relation \<open>wstep\<close> interleaves
  commands, finishing tasks and heartbeat directives.
\<close>

section \<open>Shared state\<close>

record ('m, 'h) run_task =
  rt_test_run_id :: string
  rt_plan :: "('m, 'h) execution_plan"
  rt_cancelled :: bool
  rt_done :: bool

record ('m, 'h) shared =
  sh_state :: worker_state_machine
  sh_active_vus :: u32
  sh_run :: "nat option"
  sh_tasks :: "('m, 'h) run_task list"
  sh_waiting :: "(nat \<times> command_request) option"
  sh_acks :: "command_response list"

record run_params =
  rp_worker_id :: string
  rp_max_vus :: u32
  rp_window :: duration
  rp_request_timeout :: duration

definition shared_new :: "('m, 'h) shared" where
  "shared_new = \<lparr>sh_state = wsm_new, sh_active_vus = 0, sh_run = None, sh_tasks = [],
                 sh_waiting = None, sh_acks = []\<rparr>"

definition set_state :: "worker_state \<Rightarrow> ('m, 'h) shared \<Rightarrow> ('m, 'h) shared" where
  "set_state next s = s\<lparr>sh_state := fst (transition next (sh_state s))\<rparr>"

definition begin_run :: "nat \<Rightarrow> ('m, 'h) shared \<Rightarrow> ('m, 'h) shared \<times> bool" where
  "begin_run control s =
     (case sh_run s of Some _ \<Rightarrow> (s, False) | None \<Rightarrow> (s\<lparr>sh_run := Some control\<rparr>, True))"

definition cancel_task :: "nat \<Rightarrow> ('m, 'h) shared \<Rightarrow> ('m, 'h) shared" where
  "cancel_task i s = s\<lparr>sh_tasks := (sh_tasks s)[i := (sh_tasks s ! i)\<lparr>rt_cancelled := True\<rparr>]\<rparr>"

definition cancel_run :: "('m, 'h) shared \<Rightarrow> ('m, 'h) shared" where
  "cancel_run s = (case sh_run s of None \<Rightarrow> s | Some i \<Rightarrow> cancel_task i s)"

text \<open>\<open>stop_run\<close> up to the await of the join handle, and after it.\<close>

definition stop_begin :: "('m, 'h) shared \<Rightarrow> ('m, 'h) shared \<times> nat option" where
  "stop_begin s =
     (case sh_run s of
        None \<Rightarrow> (s, None)
      | Some i \<Rightarrow> (cancel_task i (s\<lparr>sh_run := None\<rparr>), Some i))"

definition stop_end :: "('m, 'h) shared \<Rightarrow> ('m, 'h) shared" where
  "stop_end s = s\<lparr>sh_active_vus := 0\<rparr>"

section \<open>Commands\<close>

definition start_run ::
    "run_params \<Rightarrow> clock \<Rightarrow> ('m, 'h) execution_plan \<Rightarrow> string \<Rightarrow> ('m, 'h) shared \<Rightarrow>
     ('m, 'h) shared \<times> command_status \<times> string" where
  "start_run params now plan test_run_id s =
     (let test_run_id = (if test_run_id = []
                         then rp_worker_id params @ ''-'' @ show_int (fst (now_timestamp now)) else test_run_id);
          task = length (sh_tasks s);
          s1 = s\<lparr>sh_tasks := sh_tasks s @ [\<lparr>rt_test_run_id = test_run_id, rt_plan = plan,
                                             rt_cancelled = False, rt_done = False\<rparr>]\<rparr>
      in case begin_run task s1 of
           (s2, False) \<Rightarrow> (s2, CS_Rejected, ''a run is already in progress'')
         | (s2, True) \<Rightarrow> ((set_state WRunning s2)\<lparr>sh_active_vus := of_nat (ep_virtual_users plan)\<rparr>,
                          CS_Acknowledged, []))"

definition acknowledge ::
    "run_params \<Rightarrow> clock \<Rightarrow> command_request \<Rightarrow> command_status \<Rightarrow> string \<Rightarrow> ('m, 'h) shared \<Rightarrow> ('m, 'h) shared" where
  "acknowledge params now command status error_message s =
     s\<lparr>sh_acks := sh_acks s @ [\<lparr>ca_command_id = cr_command_id command, ca_worker_id = rp_worker_id params,
                                 ca_status = command_status_num status, ca_error_message = error_message,
                                 ca_acknowledged_at = Some (now_timestamp now)\<rparr>]\<rparr>"

fun worker_error_text :: "worker_error \<Rightarrow> string" where
  "worker_error_text (WConfig e) = ''configuration error: '' @ e"
| "worker_error_text (StateTransition a b) = ''invalid state transition: '' @ a @ '' -> '' @ b"
| "worker_error_text (WTransport e) = ''transport error: '' @ e"
| "worker_error_text (WRpc e) = ''rpc error: '' @ e"
| "worker_error_text (WIo e) = ''io error: '' @ e"
| "worker_error_text (WDisconnected e) = ''master connection lost: '' @ e"

definition command_kind :: "command_request \<Rightarrow> command_type" where
  "command_kind command =
     (case command_type_try_from (cr_command command) of Some k \<Rightarrow> k | None \<Rightarrow> CT_Unspecified)"

definition handle_command ::
    "('m, 'n, 'v, 'h) http_ops \<Rightarrow> run_params \<Rightarrow> clock \<Rightarrow> command_request \<Rightarrow> ('m, 'h) shared \<Rightarrow> ('m, 'h) shared" where
  "handle_command P params now command s =
     (case command_kind command of
        CT_Start \<Rightarrow>
          (case cr_config command of
             None \<Rightarrow> acknowledge params now command CS_Rejected ''START command missing TestConfiguration'' s
           | Some config \<Rightarrow>
               (case from_proto P config (rp_max_vus params) (rp_request_timeout params) of
                  Inl e \<Rightarrow> acknowledge params now command CS_Failed (worker_error_text e) s
                | Inr plan \<Rightarrow>
                    (case start_run params now plan (cr_test_run_id command) s of
                       (s', status, msg) \<Rightarrow> acknowledge params now command status msg s')))
      | CT_Stop \<Rightarrow>
          (case stop_begin s of
             (s', Some i) \<Rightarrow> s'\<lparr>sh_waiting := Some (i, command)\<rparr>
           | (s', None) \<Rightarrow> acknowledge params now command CS_Completed [] (set_state WReady (stop_end s')))
      | CT_Abort \<Rightarrow> acknowledge params now command CS_Completed [] (set_state WReady (cancel_run s))
      | CT_Unspecified \<Rightarrow> acknowledge params now command CS_Rejected ''unspecified command'' s)"

text \<open>The rest of the STOP handler once the awaited task is done.\<close>

definition handle_stop_resumed ::
    "run_params \<Rightarrow> clock \<Rightarrow> command_request \<Rightarrow> ('m, 'h) shared \<Rightarrow> ('m, 'h) shared" where
  "handle_stop_resumed params now command s =
     acknowledge params now command CS_Completed [] (set_state WReady (stop_end (s\<lparr>sh_waiting := None\<rparr>)))"

text \<open>The last lines of an orchestrator.\<close>

definition task_finish :: "nat \<Rightarrow> ('m, 'h) shared \<Rightarrow> ('m, 'h) shared" where
  "task_finish i s =
     set_state WReady (s\<lparr>sh_tasks := (sh_tasks s)[i := (sh_tasks s ! i)\<lparr>rt_done := True\<rparr>], sh_active_vus := 0\<rparr>)"

section \<open>Heartbeats\<close>

text \<open>Readings of the operating system: total and available memory, CPU usage.\<close>

definition memory_percent :: "u64 \<Rightarrow> u64 \<Rightarrow> f32" where
  "memory_percent total_mem available =
     (if total_mem > 0
      then f32_mul (f32_div (f32_of_nat (unat total_mem - unat available)) (f32_of_nat (unat total_mem))) (Fin 100)
      else Fin 0)"

definition heartbeat_of ::
    "run_params \<Rightarrow> clock \<Rightarrow> u64 \<Rightarrow> u64 \<Rightarrow> f32 \<Rightarrow> ('m, 'h) shared \<Rightarrow> heartbeat_request" where
  "heartbeat_of params now total_mem available cpu s =
     \<lparr>hq_worker_id = rp_worker_id params, hq_state = proto_worker_state_num (as_proto (wsm_state (sh_state s))),
      hq_active_vus = sh_active_vus s,
      hq_usage = Some \<lparr>ru_cpu_utilization_percent = cpu,
                       ru_memory_utilization_percent = memory_percent total_mem available,
                       ru_memory_used_bytes = of_nat (unat total_mem - unat available), ru_thread_count = 0\<rparr>,
      hq_sent_at = Some (now_timestamp now), hq_test_run_id = []\<rparr>"

definition handle_directive :: "heartbeat_response \<Rightarrow> ('m, 'h) shared \<Rightarrow> ('m, 'h) shared worker_result" where
  "handle_directive response s =
     (case (case heartbeat_directive_try_from (hr_directive response) of Some d \<Rightarrow> d | None \<Rightarrow> HD_Unspecified) of
        HD_Abort \<Rightarrow> Inr (cancel_run s)
      | HD_Synchronize \<Rightarrow> Inl (WDisconnected ''synchronize requested'')
      | _ \<Rightarrow> Inr s)"

section \<open>Registration and the reconnect loop\<close>

definition register_request ::
    "run_params \<Rightarrow> string \<Rightarrow> string \<Rightarrow> resource_capacity \<Rightarrow> string \<Rightarrow> (string, string) hash_map \<Rightarrow> clock \<Rightarrow>
     register_worker_request" where
  "register_request params hostname ip capacity version labels now =
     \<lparr>rr_worker_id = rp_worker_id params, rr_hostname = hostname, rr_ip_address = ip,
      rr_max_concurrency_vus = rp_max_vus params, rr_capacity = Some capacity, rr_agent_version = version,
      rr_labels = labels, rr_registered_at = Some (now_timestamp now)\<rparr>"

definition register_outcome :: "register_worker_response \<Rightarrow> cluster_configuration_msg worker_result" where
  "register_outcome response =
     (if rw_status response \<noteq> registration_status_num RS_Accepted
      then Inl (WConfig (''registration rejected: '' @ rw_message response))
      else Inr (case rw_cluster_config response of None \<Rightarrow> cluster_configuration_default | Some c \<Rightarrow> c))"

definition session_interval :: "worker_config \<Rightarrow> cluster_configuration_msg \<Rightarrow> duration" where
  "session_interval config cluster =
     (if cc_heartbeat_interval_ms cluster > 0 then from_millis (unat (cc_heartbeat_interval_ms cluster))
      else from_millis (unat (wcf_heartbeat_interval_ms config)))"

definition run_params_of :: "string option \<Rightarrow> nat option \<Rightarrow> worker_config \<Rightarrow> run_params" where
  "run_params_of host parallelism config =
     \<lparr>rp_worker_id = resolved_worker_id host config, rp_max_vus = resolved_max_vus parallelism config,
      rp_window = from_millis (unat (wcf_metric_window_ms config)),
      rp_request_timeout = from_millis (unat (wcf_request_timeout_ms config))\<rparr>"

text \<open>
  One turn of \<open>Worker::run\<close>: whether shutdown was requested before the session, how the session
  ended, whether shutdown came meanwhile, the random factor of the backoff, and whether shutdown
  interrupts the sleep.  The result is the list of delays slept, and whether the loop returned.
\<close>

record session_turn =
  st_cancelled_before :: bool
  st_session :: "unit worker_result"
  st_cancelled_after :: bool
  st_rand :: f64
  st_cancelled_asleep :: bool

fun worker_run :: "backoff \<Rightarrow> session_turn list \<Rightarrow> duration outcome list \<times> bool" where
  "worker_run b [] = ([], False)"
| "worker_run b (t # ts) =
     (if st_cancelled_before t then ([], True)
      else case st_session t of
        Inr _ \<Rightarrow> ([], True)
      | Inl e \<Rightarrow>
          (if st_cancelled_after t then ([], True)
           else case next_delay (st_rand t) b of
             (b', d) \<Rightarrow>
               (if st_cancelled_asleep t then ([d], True)
                else case worker_run b' ts of (ds, returned) \<Rightarrow> (d # ds, returned))))"

definition worker_backoff :: backoff where
  "worker_backoff = backoff_new (from_millis 500) (from_secs 30)"

section \<open>The orchestrator\<close>

text \<open>
  What the select loop of a run sees: the cancellation, a metric, the end of the metric channel,
  or a tick with the clock and whether the telemetry stream still takes the batch.  The result
  is the collector, the batches delivered, and whether the loop has ended.
\<close>

datatype orchestrator_event = OCancelled | OMetric request_metric | OClosed | OTick clock bool

fun orchestrator_loop ::
    "'hist hdr_ops \<Rightarrow> 'hist windowed_collector \<Rightarrow> metric_batch list \<Rightarrow> orchestrator_event list \<Rightarrow>
     'hist windowed_collector \<times> metric_batch list \<times> bool" where
  "orchestrator_loop H c out [] = (c, out, False)"
| "orchestrator_loop H c out (OCancelled # es) = (c, out, True)"
| "orchestrator_loop H c out (OClosed # es) = (c, out, True)"
| "orchestrator_loop H c out (OMetric m # es) = orchestrator_loop H (collector_record H c m) out es"
| "orchestrator_loop H c out (OTick now accepted # es) =
     (case take_batch H now c of
        (None, c') \<Rightarrow> orchestrator_loop H c' out es
      | (Some b, c') \<Rightarrow> if accepted then orchestrator_loop H c' (out @ [b]) es else (c', out, True))"

text \<open>The whole run: a fresh collector, the loop, and the flush of the partial window.\<close>

definition run_orchestrator ::
    "'hist hdr_ops \<Rightarrow> run_params \<Rightarrow> string \<Rightarrow> u32 \<Rightarrow> clock \<Rightarrow> orchestrator_event list \<Rightarrow> clock \<Rightarrow> bool \<Rightarrow>
     metric_batch list" where
  "run_orchestrator H params test_run_id active_vus start es flush accepted =
     (case orchestrator_loop H (set_active_vus active_vus (collector_new H start (rp_worker_id params) test_run_id (rp_window params))) [] es of
        (c, out, ended) \<Rightarrow>
          (if \<not> ended then out
           else case take_batch H flush c of
             (Some b, _) \<Rightarrow> if accepted then out @ [b] else out
           | (None, _) \<Rightarrow> out))"

section \<open>Interleavings\<close>

datatype wlabel = LCommand clock command_request | LResume clock | LFinish nat | LDirective heartbeat_response

inductive wstep ::
    "('m, 'n, 'v, 'h) http_ops \<Rightarrow> run_params \<Rightarrow> wlabel \<Rightarrow> ('m, 'h) shared \<Rightarrow> ('m, 'h) shared \<Rightarrow> bool"
  for P params where
  command: "sh_waiting s = None \<Longrightarrow> wstep P params (LCommand now c) s (handle_command P params now c s)"
| resume: "sh_waiting s = Some (i, c) \<Longrightarrow> i < length (sh_tasks s) \<Longrightarrow> rt_done (sh_tasks s ! i) \<Longrightarrow>
    wstep P params (LResume now) s (handle_stop_resumed params now c s)"
| finish: "i < length (sh_tasks s) \<Longrightarrow> \<not> rt_done (sh_tasks s ! i) \<Longrightarrow>
    wstep P params (LFinish i) s (task_finish i s)"
| directive: "handle_directive r s = Inr s' \<Longrightarrow> wstep P params (LDirective r) s s'"

inductive wrun ::
    "('m, 'n, 'v, 'h) http_ops \<Rightarrow> run_params \<Rightarrow> wlabel list \<Rightarrow> ('m, 'h) shared \<Rightarrow> ('m, 'h) shared \<Rightarrow> bool"
  for P params where
  nil: "wrun P params [] s s"
| snoc: "wrun P params ls s t \<Longrightarrow> wstep P params l t u \<Longrightarrow> wrun P params (ls @ [l]) s u"

inductive_simps wrun_Nil [simp]: "wrun P params [] s t"
inductive_cases wrun_snocE: "wrun P params (ls @ [l]) s t"

lemmas runtime_defs = handle_command_def start_run_def begin_run_def stop_begin_def stop_end_def cancel_run_def
  cancel_task_def set_state_def acknowledge_def task_finish_def handle_stop_resumed_def handle_directive_def Let_def

lemma transition_ready [simp]: "wsm_state (fst (transition WReady m)) = WReady"
  using wsm_step_state[of m WReady] by (simp add: wsm_step_def)

lemma transition_running: "wsm_state m \<in> {WReady, WRunning} \<Longrightarrow> wsm_state (fst (transition WRunning m)) = WRunning"
  using wsm_step_state[of m WRunning] by (auto simp: wsm_step_def)

text \<open>What holds of the shared state between any two steps.\<close>

definition worker_inv :: "('m, 'h) shared \<Rightarrow> bool" where
  [strob_inv]: "worker_inv s \<longleftrightarrow>
     wsm_state (sh_state s) \<in> {WReady, WRunning} \<and>
     (\<forall>i. sh_run s = Some i \<longrightarrow> i < length (sh_tasks s)) \<and>
     (\<forall>i c. sh_waiting s = Some (i, c) \<longrightarrow>
        i < length (sh_tasks s) \<and> rt_cancelled (sh_tasks s ! i) \<and> sh_run s = None) \<and>
     (wsm_state (sh_state s) = WRunning \<longrightarrow> sh_run s \<noteq> None \<or> sh_waiting s \<noteq> None)"

lemma worker_inv_new: "worker_inv shared_new"
  by (simp add: worker_inv_def shared_new_def wsm_new_def)

text \<open>The handlers one by one.\<close>

lemma inv_acknowledge [simp]: "worker_inv (acknowledge params now c st msg s) = worker_inv s"
  by (simp add: worker_inv_def acknowledge_def)

lemma inv_ready: "worker_inv s \<Longrightarrow> worker_inv (set_state WReady s)"
  by (auto simp: worker_inv_def set_state_def)

lemma inv_active [simp]: "worker_inv (s\<lparr>sh_active_vus := n\<rparr>) = worker_inv s"
  by (simp add: worker_inv_def)

lemma inv_cancel_run: "worker_inv s \<Longrightarrow> worker_inv (cancel_run s)"
  by (auto simp: worker_inv_def cancel_run_def cancel_task_def nth_list_update split: option.splits)

lemma inv_start_run:
  assumes "worker_inv s" and "sh_waiting s = None"
  shows "worker_inv (fst (start_run params now plan rid s))"
proof (cases "sh_run s")
  case None
  then show ?thesis
    using assms transition_running[of "sh_state s"]
    by (auto simp: worker_inv_def start_run_def begin_run_def set_state_def Let_def)
next
  case (Some i)
  then show ?thesis
    using assms by (auto simp: worker_inv_def start_run_def begin_run_def set_state_def Let_def less_Suc_eq)
qed

lemma inv_stop:
  assumes "worker_inv s" and "sh_waiting s = None" and "stop_begin s = (t, r)"
  shows "case r of Some i \<Rightarrow> worker_inv (t\<lparr>sh_waiting := Some (i, c)\<rparr>)
         | None \<Rightarrow> worker_inv (set_state WReady (stop_end t))"
  using assms
  by (cases r) (auto simp: worker_inv_def stop_begin_def stop_end_def cancel_task_def set_state_def split: option.splits)

lemma inv_handle_command:
  assumes "worker_inv s" and "sh_waiting s = None"
  shows "worker_inv (handle_command P params now c s)"
proof (cases "command_kind c")
  case CT_Start
  then show ?thesis
    using assms inv_start_run[OF assms]
    by (auto simp: handle_command_def split: option.splits sum.splits prod.splits) (metis fst_conv)
next
  case CT_Stop
  obtain t r where t: "stop_begin s = (t, r)" by fastforce
  from inv_stop[OF assms t, of c] CT_Stop t show ?thesis
    by (auto simp: handle_command_def split: option.splits)
next
  case CT_Abort
  then show ?thesis using inv_ready[OF inv_cancel_run[OF assms(1)]] by (simp add: handle_command_def)
next
  case CT_Unspecified
  then show ?thesis using assms by (simp add: handle_command_def)
qed

lemma cancelled_after_done [simp]:
  "j < length ts \<Longrightarrow> rt_cancelled (ts[i := (ts ! i)\<lparr>rt_done := True\<rparr>] ! j) = rt_cancelled (ts ! j)"
  by (cases "i = j") simp_all

lemma inv_task_finish: "worker_inv s \<Longrightarrow> worker_inv (task_finish i s)"
  by (auto simp: worker_inv_def task_finish_def set_state_def)

lemma inv_resumed: "worker_inv s \<Longrightarrow> worker_inv (handle_stop_resumed params now c s)"
  by (auto simp: worker_inv_def handle_stop_resumed_def stop_end_def set_state_def acknowledge_def)

lemma inv_directive: "worker_inv s \<Longrightarrow> handle_directive r s = Inr s' \<Longrightarrow> worker_inv s'"
  by (auto simp: handle_directive_def inv_cancel_run split: heartbeat_directive.splits option.splits)

lemma wstep_inv: "wstep P params l s t \<Longrightarrow> worker_inv s \<Longrightarrow> worker_inv t"
  by (induction rule: wstep.induct)
    (auto intro: inv_handle_command inv_resumed inv_task_finish inv_directive)

lemma wrun_inv: "wrun P params ls s t \<Longrightarrow> worker_inv s \<Longrightarrow> worker_inv t"
  by (induction rule: wrun.induct) (auto intro: wstep_inv)


text \<open>C22: The worker's control state is consistent at every point.  Whatever the master sends and in
  whatever order runs finish, the worker only ever advertises READY or RUNNING, it is RUNNING
  only while a run occupies its slot or is being stopped, and while a STOP waits for its run,
  that run exists and is cancelled and the slot is free.\<close>

theorem worker_control_invariant:
  assumes "wrun P params ls shared_new s"
  shows "wsm_state (sh_state s) \<in> {WReady, WRunning} \<and>
    (wsm_state (sh_state s) = WRunning \<longrightarrow> sh_run s \<noteq> None \<or> sh_waiting s \<noteq> None) \<and>
    (\<forall>i. sh_run s = Some i \<longrightarrow> i < length (sh_tasks s)) \<and>
    (\<forall>i c. sh_waiting s = Some (i, c) \<longrightarrow>
       i < length (sh_tasks s) \<and> rt_cancelled (sh_tasks s ! i) \<and> sh_run s = None)"
  using wrun_inv[OF assms worker_inv_new] unfolding worker_inv_def by blast

definition sample_params :: run_params where
  "sample_params = \<lparr>rp_worker_id = ''w1'', rp_max_vus = 8, rp_window = from_millis 1000, rp_request_timeout = from_secs 10\<rparr>"

definition command_of :: "command_type \<Rightarrow> test_configuration option \<Rightarrow> command_request" where
  "command_of kind config = \<lparr>cr_command = command_type_num kind, cr_command_id = ''c'', cr_test_run_id = ''run1'',
     cr_config = config, cr_issued_at = None, cr_command_timeout_ms = 0\<rparr>"

lemma command_kind_of [simp]: "command_kind (command_of k config) = k"
  by (simp add: command_kind_def command_of_def)


theorem worker_control_invariant_witness:
  "\<exists>s. wrun plain_http sample_params [LCommand 0 (command_of CT_Unspecified None), LCommand 1 (command_of CT_Abort None)] shared_new s \<and>
     wsm_state (sh_state s) \<in> {WReady, WRunning}"
proof -
  have "wrun plain_http sample_params ([] @ [LCommand 0 (command_of CT_Unspecified None)]) shared_new
      (handle_command plain_http sample_params 0 (command_of CT_Unspecified None) shared_new)"
    by (rule wrun.snoc[OF wrun.nil wstep.command]) (simp add: shared_new_def)
  then have "wrun plain_http sample_params ([LCommand 0 (command_of CT_Unspecified None)] @ [LCommand 1 (command_of CT_Abort None)]) shared_new
      (handle_command plain_http sample_params 1 (command_of CT_Abort None)
        (handle_command plain_http sample_params 0 (command_of CT_Unspecified None) shared_new))"
    by (intro wrun.snoc[OF _ wstep.command]) (simp_all add: handle_command_def acknowledge_def shared_new_def)
  then have r: "wrun plain_http sample_params [LCommand 0 (command_of CT_Unspecified None), LCommand 1 (command_of CT_Abort None)] shared_new
      (handle_command plain_http sample_params 1 (command_of CT_Abort None)
        (handle_command plain_http sample_params 0 (command_of CT_Unspecified None) shared_new))" by simp
  from worker_control_invariant[OF r] r show ?thesis by blast
qed

section \<open>Starting and stopping\<close>

definition last_ack :: "('m, 'h) shared \<Rightarrow> command_response" where
  "last_ack s = last (sh_acks s)"

lemma last_ack_acknowledge [simp]:
  "ca_status (last_ack (acknowledge params now c st msg s)) = command_status_num st"
  "ca_command_id (last_ack (acknowledge params now c st msg s)) = cr_command_id c"
  by (simp_all add: last_ack_def acknowledge_def)

text \<open>C7: One run at a time.  A START that carries a valid configuration is acknowledged exactly when
  the run slot is empty: then the worker is RUNNING with the plan's number of virtual users and
  the slot holds the new task.  Otherwise it is answered REJECTED and the slot, the advertised
  state and the virtual users stay as they were.  A START without a configuration is REJECTED
  and one with an invalid configuration FAILED, both without any change but the answer.\<close>

theorem start_exclusive:
  assumes "wrun P params ls shared_new s" and "sh_waiting s = None" and "command_kind c = CT_Start"
  shows "let t = handle_command P params now c s
    in ca_command_id (last_ack t) = cr_command_id c \<and>
       (case cr_config c of
          None \<Rightarrow> ca_status (last_ack t) = command_status_num CS_Rejected \<and> t\<lparr>sh_acks := sh_acks s\<rparr> = s
        | Some config \<Rightarrow>
            (case from_proto P config (rp_max_vus params) (rp_request_timeout params) of
               Inl e \<Rightarrow> ca_status (last_ack t) = command_status_num CS_Failed \<and> t\<lparr>sh_acks := sh_acks s\<rparr> = s
             | Inr plan \<Rightarrow>
                 (if sh_run s = None
                  then ca_status (last_ack t) = command_status_num CS_Acknowledged \<and>
                       wsm_state (sh_state t) = WRunning \<and> sh_active_vus t = of_nat (ep_virtual_users plan) \<and>
                       sh_run t = Some (length (sh_tasks s)) \<and> rt_plan (sh_tasks t ! length (sh_tasks s)) = plan
                  else ca_status (last_ack t) = command_status_num CS_Rejected \<and>
                       sh_run t = sh_run s \<and> sh_state t = sh_state s \<and> sh_active_vus t = sh_active_vus s)))"
proof -
  have st: "wsm_state (sh_state s) \<in> {WReady, WRunning}"
    using wrun_inv[OF assms(1) worker_inv_new] by (simp add: worker_inv_def)
  show ?thesis
  proof (cases "cr_config c")
    case None
    then show ?thesis using assms(3) by (simp add: handle_command_def Let_def) (simp add: acknowledge_def)
  next
    case (Some config)
    show ?thesis
    proof (cases "from_proto P config (rp_max_vus params) (rp_request_timeout params)")
      case (Inl e)
      then show ?thesis using assms(3) Some by (simp add: handle_command_def Let_def) (simp add: acknowledge_def)
    next
      case (Inr plan)
      then show ?thesis
        using assms(3) Some transition_running[OF st]
        by (cases "sh_run s") (simp_all add: handle_command_def start_run_def begin_run_def Let_def,
            simp_all add: acknowledge_def set_state_def)
    qed
  qed
qed

theorem start_exclusive_witness:
  "ca_status (last_ack (handle_command plain_http sample_params 0 (command_of CT_Start None) shared_new)) =
     command_status_num CS_Rejected"
proof -
  have "sh_waiting (shared_new :: (string, (string \<times> string) list) shared) = None" by (simp add: shared_new_def)
  note t = start_exclusive[OF wrun.nil this, of "command_of CT_Start None" plain_http sample_params 0]
  have "cr_config (command_of CT_Start None) = None" by (simp add: command_of_def)
  with t show ?thesis by (simp add: Let_def)
qed



text \<open>A run of the worker: a valid START, then a STOP that has to wait.\<close>

definition started :: "(string, (string \<times> string) list) shared" where
  "started = handle_command plain_http sample_params 0 (command_of CT_Start (Some sample_test_config)) shared_new"

definition stopping :: "(string, (string \<times> string) list) shared" where
  "stopping = handle_command plain_http sample_params 1 (command_of CT_Stop None) started"

lemma started_facts: "sh_waiting started = None" "sh_run started = Some 0" "length (sh_tasks started) = 1"
  "\<not> rt_done (sh_tasks started ! 0)"
proof -
  obtain plan where p: "from_proto plain_http sample_test_config (rp_max_vus sample_params) (rp_request_timeout sample_params) = Inr plan"
    using sample_plan by blast
  have c: "cr_config (command_of CT_Start (Some sample_test_config)) = Some sample_test_config" by (simp add: command_of_def)
  show "sh_waiting started = None" "sh_run started = Some 0" "length (sh_tasks started) = 1"
    "\<not> rt_done (sh_tasks started ! 0)"
    by (simp_all add: started_def handle_command_def c p start_run_def begin_run_def Let_def shared_new_def
        acknowledge_def set_state_def)
qed

lemma stopping_facts: "sh_waiting stopping = Some (0, command_of CT_Stop None)" "\<not> rt_done (sh_tasks stopping ! 0)"
  using started_facts by (simp_all add: stopping_def handle_command_def stop_begin_def cancel_task_def)

lemma stopping_reachable: "\<exists>ls. wrun plain_http sample_params ls shared_new stopping"
proof -
  have w: "sh_waiting (shared_new :: (string, (string \<times> string) list) shared) = None" by (simp add: shared_new_def)
  have "wrun plain_http sample_params ([] @ [LCommand 0 (command_of CT_Start (Some sample_test_config))]) shared_new started"
    unfolding started_def by (rule wrun.snoc[OF wrun.nil wstep.command[OF w]])
  then show ?thesis
    unfolding stopping_def using wrun.snoc[OF _ wstep.command[OF started_facts(1)]] by blast
qed


section \<open>The slot of a finished run\<close>

definition is_stop :: "wlabel \<Rightarrow> bool" where
  "is_stop l = (case l of LCommand _ c \<Rightarrow> command_kind c = CT_Stop | _ \<Rightarrow> False)"

lemma slot_step:
  assumes "wstep P params l s t" and "\<not> is_stop l" and "sh_run s = Some i" and "sh_waiting s = None"
  shows "sh_run t = Some i \<and> sh_waiting t = None"
  using assms
proof (induction rule: wstep.induct)
  case (command s now c)
  then show ?case
    by (cases "command_kind c")
      (auto simp: is_stop_def runtime_defs split: option.splits sum.splits)
qed (auto simp: runtime_defs split: heartbeat_directive.splits option.splits)

lemma slot_run:
  assumes "wrun P params ls s t" and "list_all (\<lambda>l. \<not> is_stop l) ls" and "sh_run s = Some i" and "sh_waiting s = None"
  shows "sh_run t = Some i \<and> sh_waiting t = None"
  using assms by (induction rule: wrun.induct) (auto dest: slot_step)

text \<open>A task outside the slot that no STOP waits for is out of reach.\<close>

definition orphan :: "nat \<Rightarrow> ('m, 'h) shared \<Rightarrow> bool" where
  "orphan j s \<longleftrightarrow> j < length (sh_tasks s) \<and> sh_run s \<noteq> Some j \<and> (\<forall>c. sh_waiting s \<noteq> Some (j, c)) \<and>
     \<not> rt_cancelled (sh_tasks s ! j)"

lemma orphan_step: "wstep P params l s t \<Longrightarrow> orphan j s \<Longrightarrow> orphan j t"
proof (induction rule: wstep.induct)
  case (command s now c)
  then show ?case
    by (cases "command_kind c")
      (auto simp: orphan_def runtime_defs nth_append split: option.splits sum.splits)
qed (auto simp: orphan_def runtime_defs split: heartbeat_directive.splits option.splits)

lemma orphan_run: "wrun P params ls s t \<Longrightarrow> orphan j s \<Longrightarrow> orphan j t"
  by (induction rule: wrun.induct) (auto dest: orphan_step)

text \<open>C24: Within a session the slot is only ever freed by a STOP.  From any state in which a run holds the slot, as long
  as no STOP is handled (whether the run finishes, is aborted by command or by heartbeat, or the
  master sends further commands) the slot stays with that run; so a later valid START is
  REJECTED even if the run is long over.  The rejected START has nevertheless spawned its
  orchestrator, and no later step whatsoever cancels that task.\<close>

theorem slot_freed_only_by_stop:
  assumes "wrun P params ls\<^sub>0 shared_new s" and "sh_run s = Some i" and "sh_waiting s = None"
    and "wrun P params ls s t" and "list_all (\<lambda>l. \<not> is_stop l) ls" and "command_kind c = CT_Start" and "cr_config c = Some config"
    and "from_proto P config (rp_max_vus params) (rp_request_timeout params) = Inr plan"
  shows "let u = handle_command P params now c t; j = length (sh_tasks t)
    in wstep P params (LCommand now c) t u \<and> sh_run t = Some i \<and>
       ca_status (last_ack u) = command_status_num CS_Rejected \<and>
       length (sh_tasks u) = j + 1 \<and> rt_plan (sh_tasks u ! j) = plan \<and>
       (\<forall>ls' v. wrun P params ls' u v \<longrightarrow> \<not> rt_cancelled (sh_tasks v ! j))"
proof -
  let ?u = "handle_command P params now c t" and ?j = "length (sh_tasks t)"
  have t: "sh_run t = Some i" "sh_waiting t = None" using slot_run[OF assms(4,5,2,3)] by auto
  have "worker_inv t" using wrun_inv[OF assms(4) wrun_inv[OF assms(1) worker_inv_new]] .
  then have "i \<noteq> ?j" using t by (auto simp: worker_inv_def)
  have f: "ca_status (last_ack ?u) = command_status_num CS_Rejected" "length (sh_tasks ?u) = ?j + 1"
    "rt_plan (sh_tasks ?u ! ?j) = plan" "\<not> rt_cancelled (sh_tasks ?u ! ?j)" "sh_run ?u = Some i" "sh_waiting ?u = None"
    using t assms(6-8)
    by (simp_all add: handle_command_def start_run_def begin_run_def Let_def, simp_all add: acknowledge_def)
  have "orphan ?j ?u" using f \<open>i \<noteq> ?j\<close> by (simp add: orphan_def)
  then show ?thesis
    using f t wstep.command[OF t(2)] orphan_run unfolding Let_def orphan_def by blast
qed

theorem slot_freed_only_by_stop_witness:
  "sh_run (task_finish 0 started) = Some 0 \<and>
   ca_status (last_ack (handle_command plain_http sample_params 5
     (command_of CT_Start (Some sample_test_config)) (task_finish 0 started))) = command_status_num CS_Rejected"
proof -
  have w: "sh_waiting (shared_new :: (string, (string \<times> string) list) shared) = None" by (simp add: shared_new_def)
  have r0: "wrun plain_http sample_params ([] @ [LCommand 0 (command_of CT_Start (Some sample_test_config))]) shared_new started"
    unfolding started_def by (rule wrun.snoc[OF wrun.nil wstep.command[OF w]])
  have r1: "wrun plain_http sample_params ([] @ [LFinish 0]) started (task_finish 0 started)"
    by (rule wrun.snoc[OF wrun.nil wstep.finish]) (use started_facts in simp_all)
  obtain plan where p: "from_proto plain_http sample_test_config (rp_max_vus sample_params) (rp_request_timeout sample_params) = Inr plan"
    using sample_plan by blast
  have n: "list_all (\<lambda>l. \<not> is_stop l) ([] @ [LFinish 0])" by (simp add: is_stop_def)
  have c: "cr_config (command_of CT_Start (Some sample_test_config)) = Some sample_test_config" by (simp add: command_of_def)
  from slot_freed_only_by_stop[OF r0 started_facts(2,1) r1 n command_kind_of c p, of 5]
  show ?thesis by (simp add: Let_def)
qed

section \<open>What a run delivers\<close>

definition orchestrator_accepts :: "orchestrator_event \<Rightarrow> bool" where
  "orchestrator_accepts e = (case e of OTick _ accepted \<Rightarrow> accepted | _ \<Rightarrow> True)"

definition goes_on :: "orchestrator_event \<Rightarrow> bool" where
  "goes_on e = (case e of OCancelled \<Rightarrow> False | OClosed \<Rightarrow> False | _ \<Rightarrow> True)"

definition metrics_of :: "orchestrator_event list \<Rightarrow> request_metric list" where
  "metrics_of es = concat (map (\<lambda>e. case e of OMetric m \<Rightarrow> [m] | _ \<Rightarrow> []) es)"

definition as_collector_event :: "orchestrator_event \<Rightarrow> collector_event" where
  "as_collector_event e = (case e of OMetric m \<Rightarrow> Record m | OTick now _ \<Rightarrow> Tick now | _ \<Rightarrow> Tick 0)"

lemma orchestrator_loop_collector:
  assumes "list_all orchestrator_accepts es"
  shows "orchestrator_loop H c out es =
    (case foldl (collector_step H) (c, out) (map as_collector_event (takeWhile goes_on es)) of
       (c', out') \<Rightarrow> (c', out', \<not> list_all goes_on es))"
  using assms
  by (induction H c out es rule: orchestrator_loop.induct)
    (auto simp: goes_on_def orchestrator_accepts_def as_collector_event_def collector_step_def
      split: prod.splits option.splits)

lemma recorded_events: "recorded (map as_collector_event (takeWhile goes_on es)) = metrics_of (takeWhile goes_on es)"
  by (induction es) (auto simp: recorded_def metrics_of_def as_collector_event_def goes_on_def split: orchestrator_event.splits)

lemma take_batch_closes: "take_batch H now c = (b, c') \<Longrightarrow> wco_total c' = 0"
  by (auto simp: take_batch_def Let_def split: if_splits)

lemma window_ok_active: "window_ok (set_active_vus n c) = window_ok c"
  by (simp add: window_ok_def set_active_vus_def)

lemma orchestrator_batches:
  assumes "list_all orchestrator_accepts es" and "\<not> list_all goes_on es"
  shows "\<exists>c'. collector_run H (set_active_vus n (collector_new H start (rp_worker_id params) rid (rp_window params)))
      (map as_collector_event (takeWhile goes_on es) @ [Tick flush]) =
    (c', run_orchestrator H params rid n start es flush True) \<and> wco_total c' = 0"
proof -
  let ?c = "set_active_vus n (collector_new H start (rp_worker_id params) rid (rp_window params))"
  obtain c out where f: "foldl (collector_step H) (?c, []) (map as_collector_event (takeWhile goes_on es)) = (c, out)"
    by (metis surj_pair)
  obtain b c' where b: "take_batch H flush c = (b, c')" by fastforce
  show ?thesis
    using assms f b take_batch_closes[OF b]
    by (cases b) (simp_all add: run_orchestrator_def orchestrator_loop_collector collector_run_def collector_step_def)
qed


text \<open>C8: A run delivers every request it received.  Whatever the interleaving of metrics and ticks, if
  the telemetry stream takes the batches, then once the loop has ended (by the end of the
  metric channel or by cancellation) and the partial window is flushed, the totals of the
  delivered batches add up to the number of metrics received before the end, and each batch is
  consistent.\<close>

theorem orchestrator_delivers:
  assumes "list_all orchestrator_accepts es" and "\<not> list_all goes_on es"
  shows "let batches = run_orchestrator H params rid n start es flush True
    in sum_list (map mb_total_requests batches) = of_nat (length (metrics_of (takeWhile goes_on es))) \<and>
       list_all batch_ok batches"
proof -
  let ?c = "set_active_vus n (collector_new H start (rp_worker_id params) rid (rp_window params))"
  let ?es = "map as_collector_event (takeWhile goes_on es) @ [Tick flush]"
  obtain c' where run: "collector_run H ?c ?es = (c', run_orchestrator H params rid n start es flush True)" "wco_total c' = 0"
    using orchestrator_batches[OF assms] by blast
  have "window_ok ?c" by (simp add: window_ok_active window_ok_new)
  note f = collector_run_facts[OF this, where H = H and es = ?es, unfolded run(1)]
  have r: "recorded ?es = metrics_of (takeWhile goes_on es)"
    by (simp add: recorded_append recorded_events) (simp add: recorded_def)
  have t: "tally_metric Total = (\<lambda>_. 1)" "tally_batch Total = mb_total_requests" by (rule ext, simp)+
  have z: "wco_total ?c = 0" by (simp add: set_active_vus_def collector_new_def)
  show ?thesis
    using f(1) f(2)[of Total] run(2) z
    unfolding r t by (simp add: collector_inv_def accounted_def sum_one Let_def t)
qed

theorem orchestrator_delivers_witness:
  "sum_list (map mb_total_requests (run_orchestrator exact_hdr sample_params ''run1'' 2 0
     [OMetric (rm_error 1000 None), OTick 5 True, OMetric (rm_error 7 None), OClosed] 9 True)) = 2"
proof -
  let ?es = "[OMetric (rm_error 1000 None), OTick 5 True, OMetric (rm_error 7 None), OClosed]"
  have "list_all orchestrator_accepts ?es" "\<not> list_all goes_on ?es"
    by (simp_all add: orchestrator_accepts_def goes_on_def)
  from orchestrator_delivers[OF this, of exact_hdr sample_params "''run1''" 2 0 9] show ?thesis
    by (simp add: Let_def metrics_of_def goes_on_def)
qed

section \<open>Reconnecting\<close>

lemma worker_backoff_step:
  assumes "b = worker_backoff\<lparr>bo_attempt := n, bo_jitter := True\<rparr>" and "0 \<le> r" and "r < 1"
  shows "\<exists>e n'. next_delay (Fin r) b = (worker_backoff\<lparr>bo_attempt := n', bo_jitter := True\<rparr>, Returns e) \<and> e \<le> from_secs 30"
proof -
  have "from_millis 500 < 2 ^ 64 * 10 ^ 9" by (simp add: from_millis_def)
  from next_delay_cap[OF this _ assms(2,3), where m = 30 and n = n and j = True] show ?thesis
    unfolding assms(1) worker_backoff_def by auto
qed

lemma worker_run_delays:
  assumes "list_all (\<lambda>t. \<exists>r. st_rand t = Fin r \<and> 0 \<le> r \<and> r < 1) ts"
  shows "\<forall>d \<in> set (fst (worker_run (worker_backoff\<lparr>bo_attempt := n, bo_jitter := True\<rparr>) ts)). \<exists>e. d = Returns e \<and> e \<le> from_secs 30"
  using assms
proof (induction ts arbitrary: n)
  case (Cons t ts)
  then obtain r where r: "st_rand t = Fin r" "0 \<le> r" "r < 1" by auto
  obtain e n' where e: "next_delay (st_rand t) (worker_backoff\<lparr>bo_attempt := n, bo_jitter := True\<rparr>) =
      (worker_backoff\<lparr>bo_attempt := n', bo_jitter := True\<rparr>, Returns e)" "e \<le> from_secs 30"
    using worker_backoff_step[OF refl r(2,3)] unfolding r(1) by blast
  then show ?case using Cons by (auto simp: case_prod_beta split: sum.splits)
qed simp

text \<open>The reconnect loop never gives up and never sleeps long.  For any sequence of sessions and
  random numbers below one, every delay between two sessions is a duration of at most thirty
  seconds (no arithmetic panic), and the loop returns exactly when a session ends without an
  error or shutdown is seen.\<close>

lemma reconnect_bounded:
  assumes "list_all (\<lambda>t. \<exists>r. st_rand t = Fin r \<and> 0 \<le> r \<and> r < 1) ts"
  shows "(\<forall>d \<in> set (fst (worker_run worker_backoff ts)). \<exists>e. d = Returns e \<and> e \<le> from_secs 30) \<and>
    (snd (worker_run worker_backoff ts) \<longleftrightarrow>
      list_ex (\<lambda>t. st_cancelled_before t \<or> st_session t = Inr () \<or> st_cancelled_after t \<or> st_cancelled_asleep t) ts)"
proof -
  have "worker_backoff = worker_backoff\<lparr>bo_attempt := 0, bo_jitter := True\<rparr>"
    by (simp add: worker_backoff_def backoff_new_def)
  then have "\<forall>d \<in> set (fst (worker_run worker_backoff ts)). \<exists>e. d = Returns e \<and> e \<le> from_secs 30"
    using worker_run_delays[OF assms, of 0] by simp
  moreover have "snd (worker_run b ts) \<longleftrightarrow>
      list_ex (\<lambda>t. st_cancelled_before t \<or> st_session t = Inr () \<or> st_cancelled_after t \<or> st_cancelled_asleep t) ts" for b
    by (induction ts arbitrary: b) (auto simp: case_prod_beta split: sum.splits)
  ultimately show ?thesis by blast
qed

end
