(* ===== verification/Master_Registry.thy ===== *)
theory Master_Registry
  imports Proto_Types
begin

text \<open>
  The master's worker registry (\<open>src/distributed/master/registry.rs\<close>) and the barrier that
  allocates workers to a run (\<open>barrier.rs\<close>), with the master's errors (\<open>error.rs\<close>).  The
  registry is a hash map keyed by worker id; a command channel is named by a number.  Clock
  readings (\<open>Instant::now()\<close>) are arguments, in nanoseconds.
\<close>

section \<open>Errors and data\<close>

datatype master_error =
    MConfig string
  | MRegistry string
  | BarrierTimeout (bt_expected: usize) (bt_ready: usize)
  | MRun string
  | MTransport string
  | MRpc string
  | MIo string

type_synonym 'a master_result = "master_error + 'a"

type_synonym channel = nat

datatype worker_status = Registered | Ready | Running | Disconnected | Failed

fun worker_status_as_str :: "worker_status \<Rightarrow> string" where
  "worker_status_as_str Registered = ''REGISTERED''"
| "worker_status_as_str Ready = ''READY''"
| "worker_status_as_str Running = ''RUNNING''"
| "worker_status_as_str Disconnected = ''DISCONNECTED''"
| "worker_status_as_str Failed = ''FAILED''"

fun status_from_wire :: "proto_worker_state \<Rightarrow> worker_status" where
  "status_from_wire WS_Ready = Ready"
| "status_from_wire WS_Running = Running"
| "status_from_wire WS_Draining = Running"
| "status_from_wire WS_Error = Failed"
| "status_from_wire WS_Unregistered = Disconnected"
| "status_from_wire WS_Unspecified = Registered"

record worker_record =
  wr_worker_id :: string
  wr_hostname :: string
  wr_ip_address :: string
  wr_agent_version :: string
  wr_max_vus :: u32
  wr_capacity :: "resource_capacity option"
  wr_labels :: "(string, string) hash_map"
  wr_status :: worker_status
  wr_active_vus :: u32
  wr_test_run_id :: string
  wr_last_heartbeat :: nat
  wr_command_tx :: "channel option"

record worker_snapshot =
  wsn_worker_id :: string
  wsn_hostname :: string
  wsn_ip_address :: string
  wsn_max_vus :: u32
  wsn_active_vus :: u32
  wsn_status :: worker_status
  wsn_labels :: "(string, string) hash_map"
  wsn_last_heartbeat_ms_ago :: u64

type_synonym registry = "(string, worker_record) hash_map"

section \<open>Operations of the registry\<close>

definition registry_new :: registry where
  "registry_new = []"

definition registry_len :: "registry \<Rightarrow> usize" where
  "registry_len r = length r"

definition register :: "nat \<Rightarrow> register_worker_request \<Rightarrow> registry \<Rightarrow> registry master_result" where
  "register now request r =
     (if str_trim (rr_worker_id request) = [] then Inl (MRegistry ''worker_id must not be empty'')
      else if rr_max_concurrency_vus request = 0
      then Inl (MRegistry ''max_concurrency_vus must be greater than zero'')
      else Inr (AList.update (rr_worker_id request)
             \<lparr>wr_worker_id = rr_worker_id request, wr_hostname = rr_hostname request,
              wr_ip_address = rr_ip_address request, wr_agent_version = rr_agent_version request,
              wr_max_vus = rr_max_concurrency_vus request, wr_capacity = rr_capacity request,
              wr_labels = rr_labels request, wr_status = Registered, wr_active_vus = 0,
              wr_test_run_id = [], wr_last_heartbeat = now, wr_command_tx = None\<rparr> r))"

definition unknown_worker :: "string \<Rightarrow> master_error" where
  "unknown_worker worker_id = MRegistry (''unknown worker '' @ [CHR 0x27] @ worker_id @ [CHR 0x27])"

definition record_heartbeat ::
    "nat \<Rightarrow> string \<Rightarrow> proto_worker_state \<Rightarrow> u32 \<Rightarrow> string \<Rightarrow> registry \<Rightarrow> registry master_result" where
  "record_heartbeat now worker_id state active_vus test_run_id r =
     (case map_of r worker_id of
        None \<Rightarrow> Inl (unknown_worker worker_id)
      | Some rec \<Rightarrow> Inr (AList.update worker_id
          (rec\<lparr>wr_status := status_from_wire state, wr_active_vus := active_vus,
               wr_test_run_id := test_run_id, wr_last_heartbeat := now\<rparr>) r))"

definition attach_commands :: "string \<Rightarrow> channel \<Rightarrow> registry \<Rightarrow> registry master_result" where
  "attach_commands worker_id tx r =
     (case map_of r worker_id of
        None \<Rightarrow> Inl (unknown_worker worker_id)
      | Some rec \<Rightarrow> Inr (AList.update worker_id (rec\<lparr>wr_command_tx := Some tx\<rparr>) r))"

definition detach_commands :: "string \<Rightarrow> registry \<Rightarrow> registry" where
  "detach_commands worker_id r =
     (case map_of r worker_id of
        None \<Rightarrow> r
      | Some rec \<Rightarrow> AList.update worker_id (rec\<lparr>wr_command_tx := None\<rparr>) r)"

definition command_sender :: "string \<Rightarrow> registry \<Rightarrow> channel option" where
  "command_sender worker_id r =
     (case map_of r worker_id of None \<Rightarrow> None | Some rec \<Rightarrow> wr_command_tx rec)"

definition set_status :: "string \<Rightarrow> worker_status \<Rightarrow> registry \<Rightarrow> registry" where
  "set_status worker_id status r =
     (case map_of r worker_id of
        None \<Rightarrow> r
      | Some rec \<Rightarrow> AList.update worker_id (rec\<lparr>wr_status := status\<rparr>) r)"

definition ready_workers :: "registry \<Rightarrow> string list" where
  "ready_workers r = map wr_worker_id (filter (\<lambda>w. wr_status w = Ready) (map snd r))"

definition allocatable_workers :: "registry \<Rightarrow> string list" where
  "allocatable_workers r =
     map wr_worker_id (filter (\<lambda>w. wr_status w = Ready \<and> wr_command_tx w \<noteq> None) (map snd r))"

definition running_workers :: "registry \<Rightarrow> string list" where
  "running_workers r = map wr_worker_id (filter (\<lambda>w. wr_status w = Running) (map snd r))"

definition stale :: "nat \<Rightarrow> duration \<Rightarrow> worker_record \<Rightarrow> bool" where
  "stale now timeout w \<longleftrightarrow> wr_status w \<noteq> Disconnected \<and> timeout < now - wr_last_heartbeat w"

fun sweep :: "nat \<Rightarrow> duration \<Rightarrow> registry \<Rightarrow> registry \<times> string list" where
  "sweep now timeout [] = ([], [])"
| "sweep now timeout ((k, w) # r) =
     (case sweep now timeout r of (r', evicted) \<Rightarrow>
        if stale now timeout w
        then ((k, w\<lparr>wr_status := Disconnected, wr_command_tx := None\<rparr>) # r', wr_worker_id w # evicted)
        else ((k, w) # r', evicted))"

definition snapshot_of :: "nat \<Rightarrow> worker_record \<Rightarrow> worker_snapshot" where
  "snapshot_of now w =
     \<lparr>wsn_worker_id = wr_worker_id w, wsn_hostname = wr_hostname w, wsn_ip_address = wr_ip_address w,
      wsn_max_vus = wr_max_vus w, wsn_active_vus = wr_active_vus w, wsn_status = wr_status w,
      wsn_labels = wr_labels w,
      wsn_last_heartbeat_ms_ago = of_nat (as_millis (now - wr_last_heartbeat w))\<rparr>"

definition registry_snapshot :: "nat \<Rightarrow> registry \<Rightarrow> worker_snapshot list" where
  "registry_snapshot now r = map (snapshot_of now) (map snd r)"

text \<open>The health sweep: one sweep per tick until the shutdown is seen.\<close>

datatype sweep_event = SweepShutdown | SweepTick nat

fun health_sweep_loop :: "duration \<Rightarrow> sweep_event list \<Rightarrow> registry \<Rightarrow> registry \<times> string list" where
  "health_sweep_loop timeout [] r = (r, [])"
| "health_sweep_loop timeout (SweepShutdown # es) r = (r, [])"
| "health_sweep_loop timeout (SweepTick now # es) r =
     (case sweep now timeout r of (r', evicted) \<Rightarrow>
      case health_sweep_loop timeout es r' of (r'', evicted') \<Rightarrow> (r'', evicted @ evicted'))"

section \<open>The barrier\<close>

text \<open>
  Each turn of the loop sees the registry (under its lock) and then reads the clock; between
  turns the registry may change in any way.  The list holds what the turns see; \<open>None\<close> means
  the barrier is still waiting after them.
\<close>

definition barrier_ready :: "registry \<Rightarrow> string list" where
  "barrier_ready r = sort (allocatable_workers r)"

fun barrier_loop ::
    "usize \<Rightarrow> usize \<Rightarrow> nat \<Rightarrow> (registry \<times> nat) list \<Rightarrow> string list master_result option" where
  "barrier_loop expected required deadline [] = None"
| "barrier_loop expected required deadline ((r, now) # obs) =
     (let ready = barrier_ready r
      in if required \<le> length ready
         then Some (Inr (if expected = 0 then ready else take required ready))
         else if deadline - now = 0
         then Some (Inl (BarrierTimeout required (length ready)))
         else barrier_loop expected required deadline obs)"

definition wait_for_ready ::
    "nat \<Rightarrow> usize \<Rightarrow> duration \<Rightarrow> (registry \<times> nat) list \<Rightarrow> string list master_result option" where
  "wait_for_ready start expected timeout obs =
     barrier_loop expected (max expected 1) (start + timeout) obs"

section \<open>The registry invariant\<close>

definition record_ok :: "string \<Rightarrow> worker_record \<Rightarrow> bool" where
  "record_ok k w \<longleftrightarrow> wr_worker_id w = k \<and> str_trim k \<noteq> [] \<and> wr_max_vus w \<noteq> 0"

definition registry_inv :: "registry \<Rightarrow> bool" where
  [strob_inv]: "registry_inv r \<longleftrightarrow> hm_inv r \<and> list_all (\<lambda>(k, w). record_ok k w) r"

text \<open>The calls the gRPC handlers and the sweep make.\<close>

datatype registry_op =
    OpRegister nat register_worker_request
  | OpHeartbeat nat string proto_worker_state u32 string
  | OpAttach string channel
  | OpDetach string
  | OpSetStatus string worker_status
  | OpSweep nat duration

definition or_keep :: "'a \<Rightarrow> 'a master_result \<Rightarrow> 'a" where
  "or_keep r x = (case x of Inl _ \<Rightarrow> r | Inr r' \<Rightarrow> r')"

fun registry_step :: "registry \<Rightarrow> registry_op \<Rightarrow> registry" where
  "registry_step r (OpRegister now q) = or_keep r (register now q r)"
| "registry_step r (OpHeartbeat now w st n run) = or_keep r (record_heartbeat now w st n run r)"
| "registry_step r (OpAttach w tx) = or_keep r (attach_commands w tx r)"
| "registry_step r (OpDetach w) = detach_commands w r"
| "registry_step r (OpSetStatus w st) = set_status w st r"
| "registry_step r (OpSweep now timeout) = fst (sweep now timeout r)"

lemma registry_inv_update:
  assumes "registry_inv r" and "record_ok k w"
  shows "registry_inv (AList.update k w r)"
proof -
  have "list_all (\<lambda>(k, w). record_ok k w) (AList.update k w r)"
    if "list_all (\<lambda>(k, w). record_ok k w) r" for r
    using that assms(2) by (induction r) auto
  then show ?thesis using assms(1) by (simp add: registry_inv_def)
qed

lemma registry_inv_lookup: "registry_inv r \<Longrightarrow> map_of r k = Some w \<Longrightarrow> record_ok k w"
  by (auto simp: registry_inv_def list_all_iff dest: map_of_SomeD)

lemma sweep_keys: "map fst (fst (sweep now timeout r)) = map fst r"
  by (induction now timeout r rule: sweep.induct) (auto split: prod.split)

lemma sweep_inv: "registry_inv r \<Longrightarrow> registry_inv (fst (sweep now timeout r))"
proof -
  have "list_all (\<lambda>(k, w). record_ok k w) (fst (sweep now timeout r))"
    if "list_all (\<lambda>(k, w). record_ok k w) r" for r
    using that
    by (induction now timeout r rule: sweep.induct) (auto simp: record_ok_def split: prod.splits)
  then show "registry_inv r \<Longrightarrow> registry_inv (fst (sweep now timeout r))"
    by (simp add: registry_inv_def hm_inv_def sweep_keys)
qed

lemma registry_inv_step: "registry_inv r \<Longrightarrow> registry_inv (registry_step r op)"
proof (cases op)
  case (OpRegister now q)
  assume "registry_inv r"
  then show ?thesis
    by (auto simp: OpRegister register_def or_keep_def record_ok_def intro: registry_inv_update)
next
  case (OpSweep now timeout)
  assume "registry_inv r"
  then show ?thesis by (simp add: OpSweep sweep_inv)
qed (auto simp: or_keep_def record_heartbeat_def attach_commands_def detach_commands_def set_status_def
      record_ok_def split: option.split intro!: registry_inv_update dest: registry_inv_lookup)

interpretation registry: guarded_machine registry_step registry_inv "\<lambda>_. True"
  by unfold_locales (simp add: registry_inv_step)


section \<open>Sweeping\<close>

definition evict :: "worker_record \<Rightarrow> worker_record" where
  "evict w = w\<lparr>wr_status := Disconnected, wr_command_tx := None\<rparr>"

lemma sweep_as_map:
  "sweep now timeout r =
     (map (\<lambda>(k, w). (k, if stale now timeout w then evict w else w)) r,
      map (\<lambda>(k, w). wr_worker_id w) (filter (\<lambda>(k, w). stale now timeout w) r))"
  by (induction now timeout r rule: sweep.induct) (auto simp: evict_def split: prod.split)

lemma stale_evict [simp]: "\<not> stale now timeout (evict w)"
  by (simp add: stale_def evict_def)

lemma swept_ids:
  "registry_inv r \<Longrightarrow> snd (sweep now timeout r) = map fst (filter (\<lambda>(k, w). stale now timeout w) r)"
  by (auto simp: sweep_as_map registry_inv_def list_all_iff record_ok_def)

lemma swept_lookup:
  "map_of (fst (sweep now timeout r)) k =
     map_option (\<lambda>w. if stale now timeout w then evict w else w) (map_of r k)"
  by (simp add: sweep_as_map map_of_map[symmetric]) (simp add: map_of_map case_prod_beta)

text \<open>The health sweep evicts exactly the stale workers.  A worker is marked DISCONNECTED and
  loses its command channel precisely when it was not already disconnected and its last
  heartbeat is older than the timeout; every other record is untouched, the evicted ids are
  reported once each, and sweeping again at the same instant changes and reports nothing.\<close>

lemma sweep_exact:
  assumes "registry_inv r"
  shows "map_of (fst (sweep now timeout r)) k =
      map_option (\<lambda>w. if stale now timeout w then w\<lparr>wr_status := Disconnected, wr_command_tx := None\<rparr> else w)
        (map_of r k) \<and>
    (k \<in> set (snd (sweep now timeout r)) \<longleftrightarrow> (\<exists>w. map_of r k = Some w \<and> stale now timeout w)) \<and>
    distinct (snd (sweep now timeout r)) \<and>
    sweep now timeout (fst (sweep now timeout r)) = (fst (sweep now timeout r), [])"
proof (intro conjI)
  have d: "distinct (map fst r)" using assms by (simp add: registry_inv_def hm_inv_def)
  show "map_of (fst (sweep now timeout r)) k =
      map_option (\<lambda>w. if stale now timeout w then w\<lparr>wr_status := Disconnected, wr_command_tx := None\<rparr> else w)
        (map_of r k)"
    by (simp add: swept_lookup evict_def cong: if_cong)
  show "k \<in> set (snd (sweep now timeout r)) \<longleftrightarrow> (\<exists>w. map_of r k = Some w \<and> stale now timeout w)"
    using d by (force simp: swept_ids[OF assms] map_of_eq_Some_iff)
  show "distinct (snd (sweep now timeout r))"
    using d by (simp add: swept_ids[OF assms] distinct_map_filter)
  show "sweep now timeout (fst (sweep now timeout r)) = (fst (sweep now timeout r), [])"
    by (auto simp: sweep_as_map o_def intro!: filter_False split: if_splits)
qed

definition sample_record :: "string \<Rightarrow> worker_status \<Rightarrow> nat \<Rightarrow> channel option \<Rightarrow> worker_record" where
  "sample_record w st hb tx =
     \<lparr>wr_worker_id = w, wr_hostname = ''h'', wr_ip_address = ''127.0.0.1'', wr_agent_version = ''1'',
      wr_max_vus = 10, wr_capacity = None, wr_labels = [], wr_status = st, wr_active_vus = 0,
      wr_test_run_id = [], wr_last_heartbeat = hb, wr_command_tx = tx\<rparr>"

lemma str_trim_samples: "str_trim ''w1'' \<noteq> []" "str_trim ''w2'' \<noteq> []"
  by code_simp+

lemma sample_registry_inv:
  "registry_inv [(''w2'', sample_record ''w2'' st2 h2 t2), (''w1'', sample_record ''w1'' st1 h1 t1)]"
  by (simp add: registry_inv_def hm_inv_def record_ok_def sample_record_def str_trim_samples)

section \<open>An evicted worker is out until it reconnects\<close>

definition no_channel :: "string \<Rightarrow> registry \<Rightarrow> bool" where
  [strob_inv]: "no_channel k r \<longleftrightarrow> registry_inv r \<and> command_sender k r = None"

fun is_attach :: "string \<Rightarrow> registry_op \<Rightarrow> bool" where
  "is_attach k (OpAttach w tx) = (w = k)"
| "is_attach k _ = False"

lemma no_channel_step:
  assumes "no_channel k r" and "\<not> is_attach k op"
  shows "no_channel k (registry_step r op)"
proof -
  have "command_sender k (registry_step r op) = None"
  proof (cases op)
    case (OpSweep now timeout)
    then show ?thesis
      using assms(1)
      by (auto simp: no_channel_def command_sender_def swept_lookup evict_def split: option.splits)
  qed (use assms in \<open>auto simp: no_channel_def command_sender_def or_keep_def register_def
        record_heartbeat_def attach_commands_def detach_commands_def set_status_def update_conv'
        split: option.splits if_splits\<close>)
  then show ?thesis using assms(1) by (simp add: no_channel_def registry_inv_step)
qed

interpretation unattached: guarded_machine registry_step "no_channel k" "\<lambda>op. \<not> is_attach k op" for k
  by unfold_locales (simp add: no_channel_step)

lemma allocatable_iff:
  assumes "registry_inv r"
  shows "k \<in> set (allocatable_workers r) \<longleftrightarrow>
    (\<exists>w. map_of r k = Some w \<and> wr_status w = Ready \<and> wr_command_tx w \<noteq> None)"
proof -
  have d: "distinct (map fst r)" and ok: "\<And>k w. (k, w) \<in> set r \<Longrightarrow> wr_worker_id w = k"
    using assms by (auto simp: registry_inv_def hm_inv_def list_all_iff record_ok_def)
  show ?thesis
    using d ok by (force simp: allocatable_workers_def map_of_eq_Some_iff)
qed

lemma distinct_allocatable:
  assumes "registry_inv r"
  shows "distinct (allocatable_workers r)"
proof -
  have "map (\<lambda>x. wr_worker_id (snd x)) r = map fst r"
    using assms by (auto simp: registry_inv_def list_all_iff record_ok_def)
  then have "distinct (map (\<lambda>x. wr_worker_id (snd x)) r)"
    using assms by (simp only: registry_inv_def hm_inv_def)
  then have "distinct (map (\<lambda>x. wr_worker_id (snd x))
      (filter (\<lambda>x. wr_status (snd x) = Ready \<and> wr_command_tx (snd x) \<noteq> None) r))"
    by (rule distinct_map_filter)
  then show ?thesis by (simp add: allocatable_workers_def filter_map o_def)
qed

text \<open>An evicted worker is never allocated to a run until it opens a new command stream: after
  the sweep evicts it, whatever registrations, heartbeats, status changes, detachments and
  further sweeps follow, it stays out of the allocatable workers as long as none of them
  attaches a command channel for it.\<close>

lemma evicted_not_allocatable:
  assumes "registry_inv r" and "k \<in> set (snd (sweep now timeout r))"
    and "\<forall>op\<in>set ops. \<not> is_attach k op"
  shows "k \<notin> set (allocatable_workers (foldl registry_step (fst (sweep now timeout r)) ops))"
proof -
  have d: "distinct (map fst r)" using assms(1) by (simp add: registry_inv_def hm_inv_def)
  obtain w where w: "map_of r k = Some w" "stale now timeout w"
    using assms(2) d by (force simp: swept_ids[OF assms(1)] map_of_eq_Some_iff)
  have "no_channel k (fst (sweep now timeout r))"
    using w assms(1) by (simp add: no_channel_def sweep_inv command_sender_def swept_lookup evict_def)
  from unattached.run_inv[OF this] assms(3)
  have "no_channel k (foldl registry_step (fst (sweep now timeout r)) ops)" by simp
  then show ?thesis by (auto simp: no_channel_def allocatable_iff command_sender_def)
qed

section \<open>The barrier allocates ready workers, in order, or times out\<close>

lemma barrier_loop_Some:
  assumes "barrier_loop expected required deadline obs = Some res"
  obtains r now where "(r, now) \<in> set obs"
    "res = (if required \<le> length (barrier_ready r)
            then Inr (if expected = 0 then barrier_ready r else take required (barrier_ready r))
            else Inl (BarrierTimeout required (length (barrier_ready r))))"
    "length (barrier_ready r) < required \<Longrightarrow> deadline \<le> now"
  using assms
proof (induction expected required deadline obs arbitrary: thesis rule: barrier_loop.induct)
  case (2 expected required deadline r now obs)
  show ?case
  proof (cases "required \<le> length (barrier_ready r) \<or> deadline - now = 0")
    case True
    then show ?thesis
      using 2(2)[of r now] 2(3) by (auto simp: Let_def split: if_splits)
  next
    case False
    then have "barrier_loop expected required deadline obs = Some res"
      using 2(3) by (simp add: Let_def)
    from 2(1)[OF refl _ _ _ this] False 2(2) show ?thesis by auto
  qed
qed simp

lemma barrier_ready_facts:
  assumes "registry_inv r"
  shows "sorted (barrier_ready r)" "distinct (barrier_ready r)"
    "set (barrier_ready r) = set (allocatable_workers r)"
  using distinct_allocatable[OF assms] by (simp_all add: barrier_ready_def)

lemma sorted_take_below:
  assumes "sorted xs" and "distinct xs" and "x \<in> set (take n xs)" and "y \<in> set xs" and "y \<notin> set (take n xs)"
  shows "x < y"
proof -
  have "y \<in> set (drop n xs)" using assms(4,5) by (metis Un_iff append_take_drop_id set_append)
  moreover have "sorted_wrt (<) (take n xs @ drop n xs)"
    using assms(1,2) by (simp add: strict_sorted_iff)
  ultimately show ?thesis using assms(3) by (simp add: sorted_wrt_append del: append_take_drop_id)
qed

text \<open>C20: When the barrier lets a run through, the allocation is sound: it is a sorted list of
  distinct workers that were all READY with a live command stream in the registry the barrier
  saw; it has exactly the expected number of workers (at least one and all of them when none
  was expected), and no allocatable worker with a smaller id was passed over.\<close>

theorem barrier_allocation:
  assumes "wait_for_ready start expected timeout obs = Some (Inr ids)"
    and "\<forall>ob\<in>set obs. registry_inv (fst ob)"
  shows "sorted ids \<and> distinct ids \<and> ids \<noteq> [] \<and> (expected \<noteq> 0 \<longrightarrow> length ids = expected) \<and>
    (\<exists>r now. (r, now) \<in> set obs \<and>
       (\<forall>i\<in>set ids. \<exists>w. map_of r i = Some w \<and> wr_status w = Ready \<and> wr_command_tx w \<noteq> None) \<and>
       (expected = 0 \<longrightarrow> set ids = set (allocatable_workers r)) \<and>
       (\<forall>i j. i \<in> set ids \<longrightarrow> j \<in> set (allocatable_workers r) - set ids \<longrightarrow> i < j))"
proof -
  obtain r now where r: "(r, now) \<in> set obs" and
    res: "Inr ids = (if max expected 1 \<le> length (barrier_ready r)
       then Inr (if expected = 0 then barrier_ready r else take (max expected 1) (barrier_ready r))
       else Inl (BarrierTimeout (max expected 1) (length (barrier_ready r))))"
    using assms(1) unfolding wait_for_ready_def by (rule barrier_loop_Some) blast
  have inv: "registry_inv r" using assms(2) r by auto
  note f = barrier_ready_facts[OF inv]
  have n: "max expected 1 \<le> length (barrier_ready r)" and
    ids: "ids = (if expected = 0 then barrier_ready r else take (max expected 1) (barrier_ready r))"
    using res by (auto split: if_splits)
  have below: "i < j" if "i \<in> set ids" "j \<in> set (allocatable_workers r) - set ids" for i j
    using that f ids sorted_take_below[OF f(1,2), of i "max expected 1" j] by (auto split: if_splits)
  have "sorted ids" "distinct ids" using ids f by (simp_all add: sorted_wrt_take)
  moreover have "ids \<noteq> []" "expected \<noteq> 0 \<longrightarrow> length ids = expected" using ids n by auto
  moreover have "set ids \<subseteq> set (allocatable_workers r)"
    using ids f(3) set_take_subset[of "max expected 1" "barrier_ready r"] by auto
  then have "\<forall>i\<in>set ids. \<exists>w. map_of r i = Some w \<and> wr_status w = Ready \<and> wr_command_tx w \<noteq> None"
    using allocatable_iff[OF inv] by blast
  moreover have "expected = 0 \<longrightarrow> set ids = set (allocatable_workers r)" using ids f(3) by simp
  ultimately show ?thesis using r below by blast
qed

theorem barrier_allocation_witness:
  "wait_for_ready 0 1 50
     [([(''w2'', sample_record ''w2'' Ready 5 (Some 1)), (''w1'', sample_record ''w1'' Ready 5 (Some 2))], 7)]
   = Some (Inr [''w1'']) \<and> sorted [''w1'']"
proof -
  have "wait_for_ready 0 1 50
     [([(''w2'', sample_record ''w2'' Ready 5 (Some 1)), (''w1'', sample_record ''w1'' Ready 5 (Some 2))], 7)]
   = Some (Inr [''w1''])" by code_simp
  with barrier_allocation[OF this] sample_registry_inv show ?thesis by simp
qed

text \<open>C29: The barrier cannot stall past its deadline and does not give up early.  As soon as one of
  its turns reads a clock at or past the deadline it has returned, and it times out only if a
  turn at or past the deadline saw fewer allocatable workers than required, which the error
  reports.\<close>

theorem barrier_returns:
  assumes "(r, now) \<in> set obs" and "start + timeout \<le> now"
  shows "\<exists>res. wait_for_ready start expected timeout obs = Some res \<and>
    (\<forall>e. res = Inl e \<longrightarrow> (\<exists>r' now'. (r', now') \<in> set obs \<and> start + timeout \<le> now' \<and>
        length (allocatable_workers r') < max expected 1 \<and>
        e = BarrierTimeout (max expected 1) (length (allocatable_workers r'))))"
proof -
  have "\<exists>res. barrier_loop expected (max expected 1) deadline obs = Some res"
    if "(r, now) \<in> set obs" "deadline \<le> now" for deadline
    using that by (induction expected "max expected 1" deadline obs rule: barrier_loop.induct) (auto simp: Let_def)
  then obtain res where res: "wait_for_ready start expected timeout obs = Some res"
    using assms by (auto simp: wait_for_ready_def)
  have "\<exists>r' now'. (r', now') \<in> set obs \<and> start + timeout \<le> now' \<and>
      length (allocatable_workers r') < max expected 1 \<and>
      e = BarrierTimeout (max expected 1) (length (allocatable_workers r'))" if "res = Inl e" for e
  proof -
    obtain r' now' where o: "(r', now') \<in> set obs"
      "res = (if max expected 1 \<le> length (barrier_ready r')
         then Inr (if expected = 0 then barrier_ready r' else take (max expected 1) (barrier_ready r'))
         else Inl (BarrierTimeout (max expected 1) (length (barrier_ready r'))))"
      "length (barrier_ready r') < max expected 1 \<Longrightarrow> start + timeout \<le> now'"
      using res unfolding wait_for_ready_def by (rule barrier_loop_Some) blast
    then have "length (barrier_ready r') < max expected 1"
      "e = BarrierTimeout (max expected 1) (length (barrier_ready r'))"
      using that by (auto split: if_splits)
    with o show ?thesis by (intro exI[of _ r'] exI[of _ now']) (simp add: barrier_ready_def)
  qed
  with res show ?thesis by blast
qed

theorem barrier_returns_witness:
  "\<exists>res. wait_for_ready 0 3 50
     [([(''w2'', sample_record ''w2'' Ready 5 (Some 1))], 7), ([], 50)] = Some res"
  using barrier_returns[of "[]" 50 "[([(''w2'', sample_record ''w2'' Ready 5 (Some 1))], 7), ([], 50)]" 0 50 3]
  by auto


text \<open>The barrier's outcome does not depend on the hash map's iteration order: two runs that see
  registries with the same entries, in any order, at the same clock readings, allocate the same
  workers in the same order, or time out alike.\<close>

lemma barrier_order_independent:
  assumes "list_all2 (\<lambda>a b. mset (fst a) = mset (fst b) \<and> snd a = snd b) obs obs'"
  shows "wait_for_ready start expected timeout obs = wait_for_ready start expected timeout obs'"
proof -
  have ready: "barrier_ready r = barrier_ready r'" if "mset r = mset r'" for r r'
  proof -
    have "mset (allocatable_workers r) = mset (allocatable_workers r')"
      using that by (simp add: allocatable_workers_def mset_filter)
    then show ?thesis unfolding barrier_ready_def by (metis properties_for_sort sorted_sort mset_sort)
  qed
  have "barrier_loop expected required deadline obs = barrier_loop expected required deadline obs'"
    for required deadline
    using assms
  proof (induction rule: list_all2_induct)
    case (Cons a as b bs)
    then show ?case using ready[of "fst a" "fst b"] by (cases a; cases b) (simp add: Let_def)
  qed simp
  then show ?thesis by (simp add: wait_for_ready_def)
qed

end
