(* ===== verification/Master_Pipeline.thy ===== *)
theory Master_Pipeline
  imports Proto_Types
begin

text \<open>
  The master's telemetry pipeline (\<open>src/distributed/master/pipeline.rs\<close>) with the report types
  of \<open>reporting.rs\<close> and the live snapshot of \<open>dashboard.rs\<close>: batches are merged into epochs,
  workers and a cumulative total; a snapshot is published when the epoch changes; \<open>finalize\<close>
  builds the report.  The lemmas show that nothing is lost between the three views, that the
  window of a snapshot is the sum of the batches it claims to cover, and that the interpolated
  percentiles are ordered and bounded.
\<close>

section \<open>Report types\<close>

record global_latency =
  gl_p50_ms :: f64
  gl_p90_ms :: f64
  gl_p95_ms :: f64
  gl_p99_ms :: f64
  gl_min_ms :: f64
  gl_max_ms :: f64
  gl_sample_count :: u64
  gl_bucket_counts :: "u64 list"

record error_class_count =
  er_error_class :: string
  er_count :: u64

record timeline_point =
  tpt_elapsed_secs :: f64
  tpt_epoch_ms :: i64
  tpt_rps :: f64
  tpt_error_rate_percent :: f64
  tpt_p50_ms :: f64
  tpt_p95_ms :: f64
  tpt_p99_ms :: f64

record worker_share =
  wsh_worker_id :: string
  wsh_total_requests :: u64
  wsh_success_count :: u64
  wsh_failure_count :: u64
  wsh_error_rate_percent :: f64
  wsh_rps :: f64
  wsh_share_percent :: f64
  wsh_p95_ms :: f64

record global_report =
  gr_test_run_id :: string
  gr_workers :: "string list"
  gr_worker_count :: usize
  gr_batches :: u64
  gr_total_requests :: u64
  gr_success_count :: u64
  gr_failure_count :: u64
  gr_error_rate_percent :: f64
  gr_bytes_received :: u64
  gr_rps :: f64
  gr_duration_secs :: f64
  gr_latency :: global_latency
  gr_error_breakdown :: "error_class_count list"
  gr_timeline :: "timeline_point list"
  gr_worker_shares :: "worker_share list"

record live_snapshot =
  lv_run_id :: string
  lv_epoch_ms :: i64
  lv_elapsed_secs :: f64
  lv_window_secs :: f64
  lv_rps :: f64
  lv_error_rate_percent :: f64
  lv_p50_ms :: f64
  lv_p90_ms :: f64
  lv_p95_ms :: f64
  lv_p99_ms :: f64
  lv_total_requests :: u64
  lv_active_workers :: usize

datatype report_destination = DestFile string | DestStdout | DestNone

definition report_destination_parse :: "string option \<Rightarrow> report_destination" where
  "report_destination_parse value =
     (case value of
        None \<Rightarrow> DestNone
      | Some path \<Rightarrow> if path = ''-'' then DestStdout
                     else if str_trim path \<noteq> [] then DestFile path
                     else DestNone)"

section \<open>Percentiles from buckets\<close>

definition epoch_ms_const :: i64 where
  "epoch_ms_const = 1000"

definition bucket_bounds_ms :: "f64 list" where
  "bucket_bounds_ms = [Fin 0, Fin 1, Fin 5, Fin 10, Fin 25, Fin 50, Fin 100, Fin 250, Fin 500, Fin 1000, PInf]"

definition bounds_get :: "nat \<Rightarrow> f64 \<Rightarrow> f64" where
  "bounds_get i d = (if i < length bucket_bounds_ms then bucket_bounds_ms ! i else d)"

definition interpolate :: "nat \<Rightarrow> u64 \<Rightarrow> u64 \<Rightarrow> f64 \<Rightarrow> f64 \<Rightarrow> f64" where
  "interpolate index cnt cumulative target fallback_max =
     (let lo = bounds_get index (Fin 0);
          hi0 = bounds_get (index + 1) fallback_max;
          hi = (if is_finite hi0 then hi0 else f_max fallback_max lo);
          ratio = f64_div (f64_sub target (f64_of_u64 cumulative)) (f64_of_u64 cnt)
      in f64_add lo (f64_mul (f64_sub hi lo) (f_clamp ratio (Fin 0) (Fin 1))))"

fun percentile_loop :: "u64 list \<Rightarrow> nat \<Rightarrow> u64 \<Rightarrow> f64 \<Rightarrow> f64 \<Rightarrow> f64" where
  "percentile_loop [] index cumulative target fallback_max = fallback_max"
| "percentile_loop (cnt # buckets) index cumulative target fallback_max =
     (if cnt = 0 then percentile_loop buckets (index + 1) cumulative target fallback_max
      else if f_le target (f64_add (f64_of_u64 cumulative) (f64_of_u64 cnt))
      then interpolate index cnt cumulative target fallback_max
      else percentile_loop buckets (index + 1) (cumulative + cnt) target fallback_max)"

definition approx_percentile :: "u64 list \<Rightarrow> f64 \<Rightarrow> f64 \<Rightarrow> f64" where
  "approx_percentile buckets percentile fallback_max =
     (let total = sum_list buckets
      in if total = 0 then Fin 0
         else percentile_loop buckets 0 0 (f64_mul percentile (f64_of_u64 total)) fallback_max)"

section \<open>The accumulator\<close>

record metrics =
  me_total :: u64
  me_success :: u64
  me_failure :: u64
  me_bytes :: u64
  me_buckets :: "u64 list"
  me_sample_count :: u64
  me_min_ms :: "f64 option"
  me_max_ms :: "f64 option"
  me_errors :: "(i32, u64) hash_map"

definition metrics_new :: "usize \<Rightarrow> metrics" where
  "metrics_new bucket_count =
     \<lparr>me_total = 0, me_success = 0, me_failure = 0, me_bytes = 0, me_buckets = replicate bucket_count 0,
      me_sample_count = 0, me_min_ms = None, me_max_ms = None, me_errors = []\<rparr>"

text \<open>\<open>self.buckets[i] += counts[i]\<close> for the indices both vectors have.\<close>

fun add_counts :: "u64 list \<Rightarrow> u64 list \<Rightarrow> u64 list" where
  "add_counts [] cs = []"
| "add_counts bs [] = bs"
| "add_counts (b # bs) (c # cs) = (b + c) # add_counts bs cs"

definition opt_min :: "f64 option \<Rightarrow> f64 \<Rightarrow> f64 option" where
  "opt_min cur v = Some (case cur of None \<Rightarrow> v | Some c \<Rightarrow> f_min c v)"

definition opt_max :: "f64 option \<Rightarrow> f64 \<Rightarrow> f64 option" where
  "opt_max cur v = Some (case cur of None \<Rightarrow> v | Some c \<Rightarrow> f_max c v)"

definition merge_batch :: "metric_batch \<Rightarrow> usize \<Rightarrow> metrics \<Rightarrow> metrics" where
  "merge_batch batch bucket_count m =
     (let m1 = m\<lparr>me_total := me_total m + mb_total_requests batch,
                 me_success := me_success m + mb_success_count batch,
                 me_failure := me_failure m + mb_failure_count batch,
                 me_bytes := me_bytes m + mb_bytes_received batch\<rparr>;
          m2 = (case mb_latency batch of
                  None \<Rightarrow> m1
                | Some l \<Rightarrow> m1\<lparr>me_buckets := add_counts (me_buckets m1) (take bucket_count (ls_bucket_counts l)),
                             me_sample_count := me_sample_count m1 + ls_sample_count l,
                             me_min_ms := opt_min (me_min_ms m1) (ls_min_ms l),
                             me_max_ms := opt_max (me_max_ms m1) (ls_max_ms l)\<rparr>)
      in m2\<lparr>me_errors := foldl (\<lambda>es e. hm_upsert (eb_error_class e) 0 (\<lambda>n. n + eb_count e) es)
                               (me_errors m2) (mb_errors batch)\<rparr>)"

definition metrics_merge :: "metrics \<Rightarrow> metrics \<Rightarrow> metrics" where
  "metrics_merge m other =
     m\<lparr>me_total := me_total m + me_total other,
       me_success := me_success m + me_success other,
       me_failure := me_failure m + me_failure other,
       me_bytes := me_bytes m + me_bytes other,
       me_buckets := add_counts (me_buckets m) (me_buckets other),
       me_sample_count := me_sample_count m + me_sample_count other,
       me_min_ms := (case me_min_ms other of None \<Rightarrow> me_min_ms m | Some v \<Rightarrow> opt_min (me_min_ms m) v),
       me_max_ms := (case me_max_ms other of None \<Rightarrow> me_max_ms m | Some v \<Rightarrow> opt_max (me_max_ms m) v),
       me_errors := foldl (\<lambda>es e. case e of (cls, n) \<Rightarrow> hm_upsert cls 0 (\<lambda>c. c + n) es)
                          (me_errors m) (me_errors other)\<rparr>"

definition error_rate_percent :: "metrics \<Rightarrow> f64" where
  "error_rate_percent m =
     (if me_total m > 0
      then f64_mul (f64_div (f64_of_u64 (me_failure m)) (f64_of_u64 (me_total m))) (Fin 100)
      else Fin 0)"

definition metrics_latency :: "metrics \<Rightarrow> global_latency" where
  "metrics_latency m =
     (let fallback_max = (case me_max_ms m of None \<Rightarrow> PInf | Some v \<Rightarrow> v)
      in \<lparr>gl_p50_ms = approx_percentile (me_buckets m) (f64_lit (50 / 100)) fallback_max,
          gl_p90_ms = approx_percentile (me_buckets m) (f64_lit (90 / 100)) fallback_max,
          gl_p95_ms = approx_percentile (me_buckets m) (f64_lit (95 / 100)) fallback_max,
          gl_p99_ms = approx_percentile (me_buckets m) (f64_lit (99 / 100)) fallback_max,
          gl_min_ms = (case me_min_ms m of None \<Rightarrow> Fin 0 | Some v \<Rightarrow> v),
          gl_max_ms = (case me_max_ms m of None \<Rightarrow> Fin 0 | Some v \<Rightarrow> v),
          gl_sample_count = me_sample_count m,
          gl_bucket_counts = me_buckets m\<rparr>)"

section \<open>The pipeline\<close>

definition epoch_of :: "i64 \<Rightarrow> i64" where
  "epoch_of unix_ms = wrap64 (unix_ms - unix_ms mod epoch_ms_const)"

record telemetry_pipeline =
  tp_run_id :: string
  tp_bucket_count :: usize
  tp_window_epochs :: i64
  tp_epochs :: "(i64, metrics) btree_map"
  tp_workers :: "(string, metrics) hash_map"
  tp_started_at_ms :: "i64 option"
  tp_last_published_epoch :: "i64 option"
  tp_cumulative :: metrics
  tp_batches :: u64

definition pipeline_new :: "string \<Rightarrow> usize \<Rightarrow> i64 \<Rightarrow> telemetry_pipeline" where
  "pipeline_new run_id bucket_count window_epochs =
     (let bucket_count = max bucket_count 1
      in \<lparr>tp_run_id = run_id, tp_bucket_count = bucket_count, tp_window_epochs = max window_epochs 1,
          tp_epochs = [], tp_workers = [], tp_started_at_ms = None, tp_last_published_epoch = None,
          tp_cumulative = metrics_new bucket_count, tp_batches = 0\<rparr>)"

definition elapsed_secs :: "telemetry_pipeline \<Rightarrow> i64 \<Rightarrow> f64" where
  "elapsed_secs p epoch =
     (case tp_started_at_ms p of
        Some start \<Rightarrow> if start \<le> epoch then f64_div (f64_of_int (wrap64 (epoch - start))) (Fin 1000) else Fin 0
      | None \<Rightarrow> Fin 0)"

definition window_start :: "telemetry_pipeline \<Rightarrow> i64 \<Rightarrow> i64" where
  "window_start p epoch = wrap64 (epoch - wrap64 ((tp_window_epochs p - 1) * epoch_ms_const))"

text \<open>\<open>BTreeMap::range(start..=epoch)\<close> panics when the start lies after the end.\<close>

definition window_metrics :: "telemetry_pipeline \<Rightarrow> i64 \<Rightarrow> metrics outcome" where
  "window_metrics p epoch =
     (let start = window_start p epoch
      in if epoch < start then Panics
         else Returns (foldl metrics_merge (metrics_new (tp_bucket_count p))
                (map snd (filter (\<lambda>e. start \<le> fst e \<and> fst e \<le> epoch) (tp_epochs p)))))"

definition pipeline_snapshot :: "telemetry_pipeline \<Rightarrow> i64 \<Rightarrow> live_snapshot outcome" where
  "pipeline_snapshot p epoch =
     (case window_metrics p epoch of
        Panics \<Rightarrow> Panics
      | Returns window \<Rightarrow>
          (let window_secs = f64_mul (f64_of_int (tp_window_epochs p)) (f64_div (f64_of_int epoch_ms_const) (Fin 1000));
               latency = metrics_latency window
           in Returns
             \<lparr>lv_run_id = tp_run_id p, lv_epoch_ms = epoch, lv_elapsed_secs = elapsed_secs p epoch,
              lv_window_secs = window_secs,
              lv_rps = (if f_less (Fin 0) window_secs then f64_div (f64_of_u64 (me_total window)) window_secs
                        else Fin 0),
              lv_error_rate_percent = error_rate_percent window,
              lv_p50_ms = gl_p50_ms latency, lv_p90_ms = gl_p90_ms latency,
              lv_p95_ms = gl_p95_ms latency, lv_p99_ms = gl_p99_ms latency,
              lv_total_requests = me_total (tp_cumulative p),
              lv_active_workers = length (tp_workers p)\<rparr>))"

text \<open>The state changes of \<open>ingest\<close> all happen before the snapshot is built.\<close>

definition absorb :: "metric_batch \<Rightarrow> telemetry_pipeline \<Rightarrow> telemetry_pipeline" where
  "absorb batch p =
     (let epoch = epoch_of (mb_window_start_unix_ms batch);
          n = tp_bucket_count p;
          p1 = (case tp_started_at_ms p of None \<Rightarrow> p\<lparr>tp_started_at_ms := Some epoch\<rparr> | Some _ \<Rightarrow> p);
          p2 = p1\<lparr>tp_epochs := bt_upsert epoch (metrics_new n) (merge_batch batch n) (tp_epochs p1)\<rparr>;
          p3 = (if mb_worker_id batch \<noteq> []
                then p2\<lparr>tp_workers := hm_upsert (mb_worker_id batch) (metrics_new n) (merge_batch batch n) (tp_workers p2)\<rparr>
                else p2)
      in p3\<lparr>tp_cumulative := merge_batch batch n (tp_cumulative p3), tp_batches := tp_batches p3 + 1\<rparr>)"

definition ingest :: "metric_batch \<Rightarrow> telemetry_pipeline \<Rightarrow> telemetry_pipeline \<times> live_snapshot option outcome" where
  "ingest batch p =
     (let epoch = epoch_of (mb_window_start_unix_ms batch); p' = absorb batch p
      in if tp_last_published_epoch p' \<noteq> Some epoch
         then let p'' = p'\<lparr>tp_last_published_epoch := Some epoch\<rparr>
              in (p'', case pipeline_snapshot p'' epoch of Panics \<Rightarrow> Panics | Returns s \<Rightarrow> Returns (Some s))
         else (p', Returns None))"

definition pipeline_timeline :: "telemetry_pipeline \<Rightarrow> timeline_point list" where
  "pipeline_timeline p =
     (let epoch_secs = f64_div (f64_of_int epoch_ms_const) (Fin 1000)
      in map (\<lambda>(epoch, m). let latency = metrics_latency m in
           \<lparr>tpt_elapsed_secs = elapsed_secs p epoch, tpt_epoch_ms = epoch,
            tpt_rps = (if f_less (Fin 0) epoch_secs then f64_div (f64_of_u64 (me_total m)) epoch_secs else Fin 0),
            tpt_error_rate_percent = error_rate_percent m, tpt_p50_ms = gl_p50_ms latency,
            tpt_p95_ms = gl_p95_ms latency, tpt_p99_ms = gl_p99_ms latency\<rparr>) (tp_epochs p))"

definition share_of :: "telemetry_pipeline \<Rightarrow> f64 \<Rightarrow> string \<times> metrics \<Rightarrow> worker_share" where
  "share_of p duration_secs e =
     (case e of (worker_id, m) \<Rightarrow>
        \<lparr>wsh_worker_id = worker_id, wsh_total_requests = me_total m, wsh_success_count = me_success m,
         wsh_failure_count = me_failure m, wsh_error_rate_percent = error_rate_percent m,
         wsh_rps = (if f_less (Fin 0) duration_secs then f64_div (f64_of_u64 (me_total m)) duration_secs
                    else Fin 0),
         wsh_share_percent = (if me_total (tp_cumulative p) > 0
                              then f64_mul (f64_div (f64_of_u64 (me_total m))
                                                    (f64_of_u64 (me_total (tp_cumulative p)))) (Fin 100)
                              else Fin 0),
         wsh_p95_ms = gl_p95_ms (metrics_latency m)\<rparr>)"

text \<open>\<open>sort_by\<close> with descending counts, ties by name: a stable sort by this key.\<close>

definition worker_shares :: "telemetry_pipeline \<Rightarrow> f64 \<Rightarrow> worker_share list" where
  "worker_shares p duration_secs =
     sort_key (\<lambda>s. (- uint (wsh_total_requests s), wsh_worker_id s)) (map (share_of p duration_secs) (tp_workers p))"

definition error_class_label :: "i32 \<Rightarrow> string" where
  "error_class_label cls =
     (case error_class_try_from cls of
        Some c \<Rightarrow> error_class_debug c
      | None \<Rightarrow> ''UNKNOWN('' @ show_int cls @ '')'')"

definition error_breakdown_of :: "metrics \<Rightarrow> error_class_count list" where
  "error_breakdown_of m =
     sort_key (\<lambda>e. (- uint (er_count e), er_error_class e))
       (map (\<lambda>(cls, n). \<lparr>er_error_class = error_class_label cls, er_count = n\<rparr>) (me_errors m))"

definition observed_duration :: "telemetry_pipeline \<Rightarrow> f64" where
  "observed_duration p =
     (case tp_started_at_ms p of
        None \<Rightarrow> Fin 0
      | Some start \<Rightarrow>
          (if tp_epochs p = [] then Fin 0
           else let final = fst (last (tp_epochs p))
                in if start \<le> final
                   then f64_div (f64_of_int (wrap64 (wrap64 (final - start) + epoch_ms_const))) (Fin 1000)
                   else Fin 0))"

definition pipeline_finalize :: "telemetry_pipeline \<Rightarrow> global_report" where
  "pipeline_finalize p =
     (let c = tp_cumulative p; duration_secs = observed_duration p; workers = sort (map fst (tp_workers p))
      in \<lparr>gr_test_run_id = tp_run_id p, gr_workers = workers, gr_worker_count = length workers,
          gr_batches = tp_batches p, gr_total_requests = me_total c, gr_success_count = me_success c,
          gr_failure_count = me_failure c, gr_error_rate_percent = error_rate_percent c,
          gr_bytes_received = me_bytes c,
          gr_rps = (if f_less (Fin 0) duration_secs then f64_div (f64_of_u64 (me_total c)) duration_secs
                    else Fin 0),
          gr_duration_secs = duration_secs, gr_latency = metrics_latency c,
          gr_error_breakdown = error_breakdown_of c, gr_timeline = pipeline_timeline p,
          gr_worker_shares = worker_shares p duration_secs\<rparr>)"

section \<open>The pipeline task\<close>

text \<open>
  The task takes commands off its channel in order.  Its output is the list of published
  snapshots and of replies (each to the sender named by a number); it stops at a shutdown or
  when an ingest panics.
\<close>

datatype pipeline_command = PBatch metric_batch | PFinalize nat | PShutdown

datatype task_output = Published live_snapshot | Replied nat global_report

fun run_pipeline :: "telemetry_pipeline \<Rightarrow> pipeline_command list \<Rightarrow> telemetry_pipeline \<times> task_output list \<times> bool" where
  "run_pipeline p [] = (p, [], True)"
| "run_pipeline p (PBatch b # cs) =
     (case ingest b p of
        (p', Panics) \<Rightarrow> (p', [], False)
      | (p', Returns None) \<Rightarrow> run_pipeline p' cs
      | (p', Returns (Some s)) \<Rightarrow>
          (case run_pipeline p' cs of (p'', out, alive) \<Rightarrow> (p'', Published s # out, alive)))"
| "run_pipeline p (PFinalize reply # cs) =
     (case run_pipeline p cs of (p', out, alive) \<Rightarrow> (p', Replied reply (pipeline_finalize p) # out, alive))"
| "run_pipeline p (PShutdown # cs) = (p, [], False)"


section \<open>Merging adds every field\<close>

datatype field = FTotal | FSuccess | FFailure | FBytes | FSamples | FBucket nat | FError i32

definition nth0 :: "u64 list \<Rightarrow> nat \<Rightarrow> u64" where
  "nth0 xs i = (if i < length xs then xs ! i else 0)"

definition lookup0 :: "'k \<Rightarrow> ('k, u64) hash_map \<Rightarrow> u64" where
  "lookup0 k m = (case map_of m k of None \<Rightarrow> 0 | Some n \<Rightarrow> n)"

fun field_of :: "field \<Rightarrow> metrics \<Rightarrow> u64" where
  "field_of FTotal m = me_total m"
| "field_of FSuccess m = me_success m"
| "field_of FFailure m = me_failure m"
| "field_of FBytes m = me_bytes m"
| "field_of FSamples m = me_sample_count m"
| "field_of (FBucket i) m = nth0 (me_buckets m) i"
| "field_of (FError c) m = lookup0 c (me_errors m)"

fun batch_field :: "nat \<Rightarrow> field \<Rightarrow> metric_batch \<Rightarrow> u64" where
  "batch_field n FTotal b = mb_total_requests b"
| "batch_field n FSuccess b = mb_success_count b"
| "batch_field n FFailure b = mb_failure_count b"
| "batch_field n FBytes b = mb_bytes_received b"
| "batch_field n FSamples b = (case mb_latency b of None \<Rightarrow> 0 | Some l \<Rightarrow> ls_sample_count l)"
| "batch_field n (FBucket i) b = (case mb_latency b of None \<Rightarrow> 0 | Some l \<Rightarrow> nth0 (take n (ls_bucket_counts l)) i)"
| "batch_field n (FError c) b = sum_list (map eb_count (filter (\<lambda>e. eb_error_class e = c) (mb_errors b)))"

definition metrics_ok :: "nat \<Rightarrow> metrics \<Rightarrow> bool" where
  [strob_inv]: "metrics_ok n m \<longleftrightarrow> length (me_buckets m) = n \<and> hm_inv (me_errors m)"

lemma length_add_counts [simp]: "length (add_counts bs cs) = length bs"
  by (induction bs cs rule: add_counts.induct) auto

lemma nth0_simps [simp]: "nth0 [] i = 0" "nth0 (x # xs) 0 = x" "nth0 (x # xs) (Suc i) = nth0 xs i"
  by (simp_all add: nth0_def)

lemma nth0_add_counts: "length cs \<le> length bs \<Longrightarrow> nth0 (add_counts bs cs) i = nth0 bs i + nth0 cs i"
proof (induction bs cs arbitrary: i rule: add_counts.induct)
  case (3 b bs c cs)
  then show ?case by (cases i) simp_all
qed auto

lemma lookup0_upsert: "hm_inv m \<Longrightarrow>
    lookup0 j (hm_upsert k 0 (\<lambda>c. c + n) m) = lookup0 j m + (if j = k then n else 0)"
  by (simp add: lookup0_def hm_count_lookup)

text \<open>Both loops that add error counts are one: fold \<open>+=\<close> over a list of class/count pairs.\<close>

definition add_errors :: "(i32, u64) hash_map \<Rightarrow> (i32 \<times> u64) list \<Rightarrow> (i32, u64) hash_map" where
  "add_errors m es = foldl (\<lambda>m e. case e of (c, n) \<Rightarrow> hm_upsert c 0 (\<lambda>x. x + n) m) m es"

interpretation errors_fold: additive_fold
  "\<lambda>m e. case e of (c, n) \<Rightarrow> hm_upsert c 0 (\<lambda>x. x + n) m" hm_inv "\<lambda>_. True"
  "lookup0 c" "\<lambda>e. if fst e = c then snd e else 0" for c
  by unfold_locales (auto simp: lookup0_upsert hm.inv_upsert split: prod.split)

lemma sum_list_filter_if: "sum_list (map (\<lambda>e. if P e then f e else 0) es) = sum_list (map f (filter P es))"
  by (induction es) auto

lemma add_errors_facts:
  assumes "hm_inv m"
  shows "hm_inv (add_errors m es)"
    and "lookup0 c (add_errors m es) = lookup0 c m + sum_list (map snd (filter (\<lambda>e. fst e = c) es))"
  unfolding add_errors_def
  using errors_fold.run_inv[OF assms] errors_fold.measure_run[OF assms, of es c]
  by (simp_all add: sum_list_filter_if)

lemma merge_batch_errors:
  "me_errors (merge_batch b n m) = add_errors (me_errors m) (map (\<lambda>e. (eb_error_class e, eb_count e)) (mb_errors b))"
  by (simp add: merge_batch_def Let_def add_errors_def foldl_map split: option.split)

lemma metrics_merge_errors: "me_errors (metrics_merge m q) = add_errors (me_errors m) (me_errors q)"
  by (simp add: metrics_merge_def add_errors_def)

lemma hm_filter_key: "distinct (map fst m) \<Longrightarrow>
    filter (\<lambda>e. fst e = c) m = (case map_of m c of None \<Rightarrow> [] | Some v \<Rightarrow> [(c, v)])"
proof (induction m)
  case (Cons e m)
  then show ?case by (cases e) (auto simp: map_of_eq_None_iff[THEN iffD2])
qed simp

lemma hm_filter_single:
  "hm_inv m \<Longrightarrow> sum_list (map snd (filter (\<lambda>e. fst e = c) m)) = lookup0 c m"
  by (simp add: hm_inv_def hm_filter_key lookup0_def split: option.split)

lemma metrics_ok_new: "metrics_ok n (metrics_new n)"
  by (simp add: metrics_ok_def metrics_new_def)

lemma field_new [simp]: "field_of k (metrics_new n) = 0"
  by (cases k) (simp_all add: metrics_new_def nth0_def lookup0_def)

lemma metrics_ok_merge_batch: "metrics_ok n m \<Longrightarrow> metrics_ok n (merge_batch b n m)"
  by (simp add: metrics_ok_def merge_batch_errors add_errors_facts)
    (simp add: merge_batch_def Let_def split: option.split)

lemma field_merge_batch:
  assumes "metrics_ok n m"
  shows "field_of k (merge_batch b n m) = field_of k m + batch_field n k b"
proof -
  have inv: "hm_inv (me_errors m)" and len: "length (me_buckets m) = n"
    using assms by (simp_all add: metrics_ok_def)
  show ?thesis
  proof (cases k)
    case (FError c)
    then show ?thesis
      by (simp add: merge_batch_errors add_errors_facts(2)[OF inv] filter_map o_def)
  qed (simp_all add: merge_batch_def Let_def nth0_add_counts len split: option.split)
qed

lemma metrics_ok_merge: "metrics_ok n m \<Longrightarrow> metrics_ok n (metrics_merge m q)"
  by (simp add: metrics_ok_def metrics_merge_errors add_errors_facts) (simp add: metrics_merge_def)

lemma field_merge:
  assumes "metrics_ok n m" and "metrics_ok n q"
  shows "field_of k (metrics_merge m q) = field_of k m + field_of k q"
proof (cases k)
  case (FError c)
  then show ?thesis
    using assms by (simp add: metrics_merge_errors metrics_ok_def add_errors_facts(2) hm_filter_single)
qed (use assms in \<open>simp_all add: metrics_merge_def metrics_ok_def nth0_add_counts\<close>)

interpretation window_fold: additive_fold metrics_merge "metrics_ok n" "metrics_ok n"
  "field_of k" "field_of k" for n k
  by unfold_locales (simp_all add: metrics_ok_merge field_merge)

section \<open>The three views of the telemetry agree\<close>

definition pipeline_inv :: "nat \<Rightarrow> telemetry_pipeline \<Rightarrow> bool" where
  [strob_inv]: "pipeline_inv n p \<longleftrightarrow> tp_bucket_count p = n \<and> bt_inv (tp_epochs p) \<and> hm_inv (tp_workers p) \<and>
     metrics_ok n (tp_cumulative p) \<and> (\<forall>e m. map_of (tp_epochs p) e = Some m \<longrightarrow> metrics_ok n m) \<and>
     (\<forall>w m. map_of (tp_workers p) w = Some m \<longrightarrow> metrics_ok n m \<and> w \<noteq> []) \<and>
     (tp_started_at_ms p = None \<longleftrightarrow> tp_epochs p = [])"

datatype view = Cumulative | AllEpochs | AllWorkers | EpochAt i64 | WorkerAt string

definition opt_field :: "field \<Rightarrow> metrics option \<Rightarrow> u64" where
  "opt_field k x = (case x of None \<Rightarrow> 0 | Some m \<Rightarrow> field_of k m)"

fun view_field :: "view \<Rightarrow> field \<Rightarrow> telemetry_pipeline \<Rightarrow> u64" where
  "view_field Cumulative k p = field_of k (tp_cumulative p)"
| "view_field AllEpochs k p = sum_list (map (\<lambda>e. field_of k (snd e)) (tp_epochs p))"
| "view_field AllWorkers k p = sum_list (map (\<lambda>e. field_of k (snd e)) (tp_workers p))"
| "view_field (EpochAt t) k p = opt_field k (map_of (tp_epochs p) t)"
| "view_field (WorkerAt w) k p = opt_field k (map_of (tp_workers p) w)"

definition batch_epoch :: "metric_batch \<Rightarrow> i64" where
  "batch_epoch b = epoch_of (mb_window_start_unix_ms b)"

fun view_covers :: "view \<Rightarrow> metric_batch \<Rightarrow> bool" where
  "view_covers Cumulative b = True"
| "view_covers AllEpochs b = True"
| "view_covers AllWorkers b = (mb_worker_id b \<noteq> [])"
| "view_covers (EpochAt t) b = (batch_epoch b = t)"
| "view_covers (WorkerAt w) b = (mb_worker_id b = w \<and> w \<noteq> [])"

definition view_weight :: "nat \<Rightarrow> view \<Rightarrow> field \<Rightarrow> metric_batch \<Rightarrow> u64" where
  "view_weight n v k b = (if view_covers v b then batch_field n k b else 0)"

definition ingest_step :: "telemetry_pipeline \<Rightarrow> metric_batch \<Rightarrow> telemetry_pipeline" where
  "ingest_step p b = fst (ingest b p)"

lemma absorb_fields:
  "tp_bucket_count (absorb b p) = tp_bucket_count p"
  "tp_run_id (absorb b p) = tp_run_id p"
  "tp_window_epochs (absorb b p) = tp_window_epochs p"
  "tp_last_published_epoch (absorb b p) = tp_last_published_epoch p"
  "tp_epochs (absorb b p) = bt_upsert (batch_epoch b) (metrics_new (tp_bucket_count p))
     (merge_batch b (tp_bucket_count p)) (tp_epochs p)"
  "tp_workers (absorb b p) = (if mb_worker_id b \<noteq> []
     then hm_upsert (mb_worker_id b) (metrics_new (tp_bucket_count p))
            (merge_batch b (tp_bucket_count p)) (tp_workers p)
     else tp_workers p)"
  "tp_cumulative (absorb b p) = merge_batch b (tp_bucket_count p) (tp_cumulative p)"
  "tp_batches (absorb b p) = tp_batches p + 1"
  "tp_started_at_ms (absorb b p) =
     (case tp_started_at_ms p of None \<Rightarrow> Some (batch_epoch b) | Some s \<Rightarrow> Some s)"
  by (simp_all add: absorb_def Let_def batch_epoch_def split: option.split)

lemma ingest_step_absorb:
  "ingest_step p b = (absorb b p)\<lparr>tp_last_published_epoch := Some (batch_epoch b)\<rparr>"
  by (auto simp: ingest_step_def ingest_def Let_def batch_epoch_def)


lemma pipeline_inv_new: "pipeline_inv (max n 1) (pipeline_new run n w)"
  by (simp add: pipeline_inv_def pipeline_new_def Let_def metrics_ok_new)

lemma bt_upsert_nonempty [simp]: "bt_upsert k d f m \<noteq> []"
  by (cases m) (auto split: if_splits)

lemma pipeline_inv_step:
  assumes "pipeline_inv n p"
  shows "pipeline_inv n (ingest_step p b)"
proof -
  have n: "tp_bucket_count p = n" and bt: "bt_inv (tp_epochs p)" and hm: "hm_inv (tp_workers p)"
    using assms by (simp_all add: pipeline_inv_def)
  have ep: "metrics_ok n m"
    if "map_of (tp_epochs (absorb b p)) e = Some m" for e m
    using that assms
    by (auto simp: pipeline_inv_def absorb_fields n bt_lookup_upsert[OF bt]
        intro!: metrics_ok_merge_batch metrics_ok_new split: if_splits option.splits)
  have wk: "metrics_ok n m \<and> w \<noteq> []" if "map_of (tp_workers (absorb b p)) w = Some m" for w m
    using that assms
    by (auto simp: pipeline_inv_def absorb_fields n hm.lookup_upsert[OF hm]
        intro!: metrics_ok_merge_batch metrics_ok_new split: if_splits option.splits)
  have "bt_inv (tp_epochs (absorb b p))" "hm_inv (tp_workers (absorb b p))"
    "metrics_ok n (tp_cumulative (absorb b p))"
    "tp_started_at_ms (absorb b p) \<noteq> None" "tp_epochs (absorb b p) \<noteq> []"
    using assms bt hm
    by (auto simp: pipeline_inv_def absorb_fields n bt.inv_upsert hm.inv_upsert
        intro!: metrics_ok_merge_batch split: option.split)
  moreover have "\<forall>e m. map_of (tp_epochs (absorb b p)) e = Some m \<longrightarrow> metrics_ok n m" using ep by blast
  moreover have "\<forall>w m. map_of (tp_workers (absorb b p)) w = Some m \<longrightarrow> metrics_ok n m \<and> w \<noteq> []"
    using wk by blast
  ultimately show ?thesis
    unfolding pipeline_inv_def ingest_step_absorb by (simp add: absorb_fields(1) n)
qed

lemma view_step:
  assumes "pipeline_inv n p"
  shows "view_field v k (ingest_step p b) = view_field v k p + view_weight n v k b"
proof -
  have n: "tp_bucket_count p = n" and bt: "bt_inv (tp_epochs p)" and hm: "hm_inv (tp_workers p)"
    using assms by (simp_all add: pipeline_inv_def)
  have ep: "field_of k (merge_batch b n m) = field_of k m + batch_field n k b"
    if "m = metrics_new n \<or> map_of (tp_epochs p) e = Some m" for e m
    using that assms by (auto simp: pipeline_inv_def metrics_ok_new intro!: field_merge_batch)
  have wk: "field_of k (merge_batch b n m) = field_of k m + batch_field n k b"
    if "m = metrics_new n \<or> map_of (tp_workers p) w = Some m" for w m
    using that assms by (auto simp: pipeline_inv_def metrics_ok_new intro!: field_merge_batch)
  note simps = ingest_step_absorb absorb_fields n view_weight_def
  show ?thesis
  proof (cases v)
    case Cumulative
    then show ?thesis using assms by (simp add: simps pipeline_inv_def field_merge_batch)
  next
    case AllEpochs
    then show ?thesis
      using bt.total_upsert[OF bt field_new[of k n] ep] by (simp add: simps)
  next
    case AllWorkers
    then show ?thesis
      using hm.total_upsert[OF hm field_new[of k n] wk] by (simp add: simps)
  next
    case (EpochAt t)
    show ?thesis
    proof (cases "map_of (tp_epochs p) t")
      case None
      then show ?thesis
        using ep[of "metrics_new n"] by (simp add: EpochAt simps bt_lookup_upsert[OF bt] opt_field_def)
    next
      case (Some m)
      then show ?thesis
        using ep[of m t] by (simp add: EpochAt simps bt_lookup_upsert[OF bt] opt_field_def)
    qed
  next
    case (WorkerAt w)
    show ?thesis
    proof (cases "map_of (tp_workers p) w")
      case None
      then show ?thesis
        using wk[of "metrics_new n"] by (simp add: WorkerAt simps hm.lookup_upsert[OF hm] opt_field_def)
    next
      case (Some m)
      then show ?thesis
        using wk[of m w] by (simp add: WorkerAt simps hm.lookup_upsert[OF hm] opt_field_def)
    qed
  qed
qed

interpretation pipe: additive_fold ingest_step "pipeline_inv n" "\<lambda>_. True"
  "view_field v k" "view_weight n v k" for n v k
  by unfold_locales (simp_all add: pipeline_inv_step view_step)

interpretation pipe_batches: additive_fold ingest_step "pipeline_inv n" "\<lambda>_. True" tp_batches "\<lambda>_. 1" for n
  by unfold_locales (simp_all add: pipeline_inv_step ingest_step_absorb absorb_fields)

text \<open>The pipeline after a sequence of batches.\<close>

definition pipeline_after :: "string \<Rightarrow> usize \<Rightarrow> i64 \<Rightarrow> metric_batch list \<Rightarrow> telemetry_pipeline" where
  "pipeline_after run n w bs = foldl ingest_step (pipeline_new run n w) bs"

lemma pipeline_after_inv: "pipeline_inv (max n 1) (pipeline_after run n w bs)"
  unfolding pipeline_after_def by (rule pipe.run_inv[OF pipeline_inv_new]) simp

lemma view_new: "view_field v k (pipeline_new run n w) = 0"
  by (cases v) (simp_all add: pipeline_new_def Let_def opt_field_def)

lemma view_after:
  "view_field v k (pipeline_after run n w bs) = sum_list (map (view_weight (max n 1) v k) bs)"
  unfolding pipeline_after_def
  using pipe.measure_run[OF pipeline_inv_new, where v = v and k = k and es = bs] by (simp add: view_new)

lemma view_after_filter:
  "view_field v k (pipeline_after run n w bs) =
     sum_list (map (batch_field (max n 1) k) (filter (view_covers v) bs))"
  unfolding view_after view_weight_def[abs_def] by (rule sum_list_filter_if)

lemma batches_after: "tp_batches (pipeline_after run n w bs) = of_nat (length bs)"
proof -
  have "tp_batches (pipeline_after run n w bs) = sum_list (map (\<lambda>_. 1) bs)"
    unfolding pipeline_after_def
    using pipe_batches.measure_run[OF pipeline_inv_new[of n run w], of bs] by (simp add: pipeline_new_def Let_def)
  also have "\<dots> = of_nat (length bs)" by (induction bs) simp_all
  finally show ?thesis .
qed

lemma finalize_fields:
  "gr_total_requests (pipeline_finalize p) = me_total (tp_cumulative p)"
  "gr_success_count (pipeline_finalize p) = me_success (tp_cumulative p)"
  "gr_failure_count (pipeline_finalize p) = me_failure (tp_cumulative p)"
  "gr_bytes_received (pipeline_finalize p) = me_bytes (tp_cumulative p)"
  "gr_batches (pipeline_finalize p) = tp_batches p"
  "gr_workers (pipeline_finalize p) = sort (map fst (tp_workers p))"
  "gr_worker_count (pipeline_finalize p) = length (tp_workers p)"
  "gr_timeline (pipeline_finalize p) = pipeline_timeline p"
  "gr_worker_shares (pipeline_finalize p) = worker_shares p (observed_duration p)"
  by (simp_all add: pipeline_finalize_def Let_def)

lemma sum_sort_key: "sum_list (map f (sort_key g xs)) = (sum_list (map f xs) :: 'a::comm_monoid_add)"
  by (metis mset_map mset_sort sum_mset_sum_list)

lemma shares_total:
  "sum_list (map wsh_total_requests (worker_shares p d)) = view_field AllWorkers FTotal p"
  by (simp add: worker_shares_def sum_sort_key o_def share_of_def case_prod_beta)

text \<open>C4: The report accounts for every batch the pipeline ingested.  Whatever the batches and their
  order, the report's request, success, failure and byte totals are the sums over the batches
  and its batch count their number; the per-epoch totals add up to the same, and the per-worker
  shares add up to the requests of the batches that name a worker.  (All \<open>u64\<close>, modulo \<open>2 ^ 64\<close>.)\<close>

theorem report_conservation:
  "let p = pipeline_after run n w bs; r = pipeline_finalize p
   in gr_total_requests r = sum_list (map mb_total_requests bs) \<and>
      gr_success_count r = sum_list (map mb_success_count bs) \<and>
      gr_failure_count r = sum_list (map mb_failure_count bs) \<and>
      gr_bytes_received r = sum_list (map mb_bytes_received bs) \<and>
      gr_batches r = of_nat (length bs) \<and>
      sum_list (map (\<lambda>e. me_total (snd e)) (tp_epochs p)) = gr_total_requests r \<and>
      sum_list (map wsh_total_requests (gr_worker_shares r)) =
        sum_list (map mb_total_requests (filter (\<lambda>b. mb_worker_id b \<noteq> []) bs))"
proof -
  have f: "batch_field m FTotal = mb_total_requests" "batch_field m FSuccess = mb_success_count"
    "batch_field m FFailure = mb_failure_count" "batch_field m FBytes = mb_bytes_received" for m
    by (rule ext, simp)+
  have cov: "filter (view_covers Cumulative) bs = bs" "filter (view_covers AllEpochs) bs = bs"
    "view_covers AllWorkers = (\<lambda>b. mb_worker_id b \<noteq> [])"
    by auto
  note v = view_after_filter[of _ _ run n w bs]
  show ?thesis
    using v[of Cumulative FTotal] v[of Cumulative FSuccess] v[of Cumulative FFailure]
      v[of Cumulative FBytes] v[of AllEpochs FTotal] v[of AllWorkers FTotal]
    unfolding cov f by (simp add: Let_def finalize_fields batches_after shares_total)
qed


section \<open>Workers and epochs of the report\<close>

lemma pipeline_after_snoc: "pipeline_after run n w (bs @ [b]) = ingest_step (pipeline_after run n w bs) b"
  by (simp add: pipeline_after_def)

lemma pipeline_after_const:
  "tp_window_epochs (pipeline_after run n w bs) = max w 1"
  "tp_bucket_count (pipeline_after run n w bs) = max n 1"
  "tp_run_id (pipeline_after run n w bs) = run"
proof -
  have "tp_window_epochs (pipeline_after run n w bs) = max w 1 \<and>
        tp_bucket_count (pipeline_after run n w bs) = max n 1 \<and> tp_run_id (pipeline_after run n w bs) = run"
    by (induction bs rule: rev_induct)
      (simp_all only: pipeline_after_snoc ingest_step_absorb, simp_all add: absorb_fields,
       simp_all add: pipeline_after_def pipeline_new_def Let_def)
  then show "tp_window_epochs (pipeline_after run n w bs) = max w 1"
    "tp_bucket_count (pipeline_after run n w bs) = max n 1" "tp_run_id (pipeline_after run n w bs) = run"
    by auto
qed

lemma hm_upsert_key_set: "fst ` set (hm_upsert k d f m) = insert k (fst ` set m)"
  by (simp add: hm_upsert_def dom_update)

lemma worker_keys_after:
  "fst ` set (tp_workers (pipeline_after run n w bs)) = mb_worker_id ` set bs - {[]}"
proof (induction bs rule: rev_induct)
  case Nil
  then show ?case by (simp add: pipeline_after_def pipeline_new_def Let_def)
next
  case (snoc b bs)
  then show ?case
    by (auto simp: pipeline_after_snoc ingest_step_absorb absorb_fields hm_upsert_key_set)
qed

lemma epoch_keys_after:
  "fst ` set (tp_epochs (pipeline_after run n w bs)) = batch_epoch ` set bs"
proof (induction bs rule: rev_induct)
  case Nil
  then show ?case by (simp add: pipeline_after_def pipeline_new_def Let_def)
next
  case (snoc b bs)
  then show ?case
    by (simp add: pipeline_after_snoc ingest_step_absorb absorb_fields bt_keys_upsert)
qed

lemma sorted_list_unique: "sorted xs \<Longrightarrow> distinct xs \<Longrightarrow> set xs = A \<Longrightarrow> xs = sorted_list_of_set A"
  by (metis sorted_list_of_set.idem_if_sorted_distinct)

text \<open>The report lists every participant once and every epoch once.  The workers are exactly the
  non-empty worker ids of the batches, sorted; the timeline has one point per epoch that some
  batch falls into, in strictly increasing time order; so neither depends on the order in which
  the batches arrived.\<close>

lemma report_workers_timeline:
  "let r = pipeline_finalize (pipeline_after run n w bs)
   in gr_workers r = sorted_list_of_set (mb_worker_id ` set bs - {[]}) \<and>
      gr_worker_count r = card (mb_worker_id ` set bs - {[]}) \<and>
      map tpt_epoch_ms (gr_timeline r) = sorted_list_of_set (batch_epoch ` set bs) \<and>
      sorted_wrt (<) (map tpt_epoch_ms (gr_timeline r))"
proof -
  let ?p = "pipeline_after run n w bs"
  have inv: "pipeline_inv (max n 1) ?p" by (rule pipeline_after_inv)
  have dw: "distinct (map fst (tp_workers ?p))" and bt: "sorted_wrt (<) (map fst (tp_epochs ?p))"
    using inv by (simp_all add: pipeline_inv_def hm_inv_def bt_inv_def)
  have keys: "map tpt_epoch_ms (pipeline_timeline ?p) = map fst (tp_epochs ?p)"
    by (auto simp: pipeline_timeline_def Let_def)
  have workers: "sort (map fst (tp_workers ?p)) = sorted_list_of_set (mb_worker_id ` set bs - {[]})"
    using dw by (intro sorted_list_unique) (simp_all add: worker_keys_after)
  moreover have "length (tp_workers ?p) = card (mb_worker_id ` set bs - {[]})"
    using dw worker_keys_after[of run n w bs] by (metis distinct_card length_map set_map)
  moreover have "map fst (tp_epochs ?p) = sorted_list_of_set (batch_epoch ` set bs)"
    using bt by (intro sorted_list_unique) (simp_all add: strict_sorted_iff epoch_keys_after)
  ultimately show ?thesis using bt by (simp add: Let_def finalize_fields keys)
qed

section \<open>The sliding window of a snapshot\<close>

lemma sum_partition:
  fixes f :: "'b \<Rightarrow> 'c::comm_monoid_add"
  assumes "finite T"
  shows "(\<Sum>t\<in>T. sum_list (map f (filter (\<lambda>b. g b = t) bs))) = sum_list (map f (filter (\<lambda>b. g b \<in> T) bs))"
proof (induction bs)
  case (Cons b bs)
  have "(\<Sum>t\<in>T. sum_list (map f (filter (\<lambda>b. g b = t) (b # bs)))) =
        (\<Sum>t\<in>T. (if g b = t then f b else 0) + sum_list (map f (filter (\<lambda>b. g b = t) bs)))"
    by (intro sum.cong) simp_all
  also have "\<dots> = (\<Sum>t\<in>T. if g b = t then f b else 0) + sum_list (map f (filter (\<lambda>b. g b \<in> T) bs))"
    by (simp only: sum.distrib Cons)
  also have "(\<Sum>t\<in>T. if g b = t then f b else 0) = (if g b \<in> T then f b else 0)"
    using assms by (simp add: sum.delta)
  finally show ?case by simp
qed simp

lemma window_sum:
  "sum_list (map (\<lambda>e. field_of k (snd e)) (filter (\<lambda>e. lo \<le> fst e \<and> fst e \<le> hi) (tp_epochs (pipeline_after run n w bs))))
   = sum_list (map (batch_field (max n 1) k) (filter (\<lambda>b. lo \<le> batch_epoch b \<and> batch_epoch b \<le> hi) bs))"
proof -
  let ?es = "tp_epochs (pipeline_after run n w bs)"
  let ?fs = "filter (\<lambda>e. lo \<le> fst e \<and> fst e \<le> hi) ?es"
  let ?T = "fst ` set ?fs"
  have d: "distinct (map fst ?es)"
    using pipeline_after_inv[of n run w bs] by (simp add: pipeline_inv_def bt_distinct)
  then have df: "distinct (map fst ?fs)" by (rule distinct_map_filter)
  have "sum_list (map (\<lambda>e. field_of k (snd e)) ?fs) = (\<Sum>e\<in>set ?fs. field_of k (snd e))"
    using df by (simp add: sum_list_distinct_conv_sum_set distinct_map)
  also have "\<dots> = (\<Sum>e\<in>set ?fs. opt_field k (map_of ?es (fst e)))"
    using d by (intro sum.cong) (auto simp: opt_field_def)
  also have "\<dots> = (\<Sum>t\<in>?T. opt_field k (map_of ?es t))"
    using df by (simp add: sum.reindex distinct_map)
  also have "\<dots> = (\<Sum>t\<in>?T. sum_list (map (batch_field (max n 1) k) (filter (\<lambda>b. batch_epoch b = t) bs)))"
  proof -
    have "view_covers (EpochAt t) = (\<lambda>b. batch_epoch b = t)" for t by (rule ext) simp
    then show ?thesis using view_after_filter[of "EpochAt _" k run n w bs] by simp
  qed
  also have "\<dots> = sum_list (map (batch_field (max n 1) k) (filter (\<lambda>b. batch_epoch b \<in> ?T) bs))"
    by (rule sum_partition) simp
  also have "filter (\<lambda>b. batch_epoch b \<in> ?T) bs = filter (\<lambda>b. lo \<le> batch_epoch b \<and> batch_epoch b \<le> hi) bs"
  proof (rule filter_cong)
    fix b assume "b \<in> set bs"
    then have "batch_epoch b \<in> fst ` set ?es" by (simp add: epoch_keys_after)
    then show "batch_epoch b \<in> ?T \<longleftrightarrow> lo \<le> batch_epoch b \<and> batch_epoch b \<le> hi" by force
  qed simp
  finally show ?thesis .
qed

lemma window_metrics_field:
  assumes "window_metrics (pipeline_after run n w bs) e = Returns m"
  shows "field_of k m = sum_list (map (batch_field (max n 1) k)
     (filter (\<lambda>b. window_start (pipeline_after run n w bs) e \<le> batch_epoch b \<and> batch_epoch b \<le> e) bs))"
proof -
  let ?p = "pipeline_after run n w bs"
  let ?ms = "map snd (filter (\<lambda>x. window_start ?p e \<le> fst x \<and> fst x \<le> e) (tp_epochs ?p))"
  have inv: "pipeline_inv (max n 1) ?p" by (rule pipeline_after_inv)
  then have d: "distinct (map fst (tp_epochs ?p))" by (simp add: pipeline_inv_def bt_distinct)
  have ok: "\<forall>x\<in>set ?ms. metrics_ok (max n 1) x"
    using inv d by (auto simp: pipeline_inv_def)
  have "m = foldl metrics_merge (metrics_new (max n 1)) ?ms"
    using assms by (simp add: window_metrics_def Let_def pipeline_after_const split: if_splits)
  then have "field_of k m = sum_list (map (field_of k) ?ms)"
    using window_fold.measure_run[OF metrics_ok_new ok, of k] by simp
  then show ?thesis using window_sum[of k "window_start ?p e" e run n w bs] by (simp add: o_def)
qed


text \<open>Timestamps and windows for which the epoch arithmetic does not overflow.\<close>

definition sane_batch :: "metric_batch \<Rightarrow> bool" where
  "sane_batch b \<longleftrightarrow> - (2 ^ 62) \<le> mb_window_start_unix_ms b \<and> mb_window_start_unix_ms b < 2 ^ 62"

definition sane_window :: "i64 \<Rightarrow> bool" where
  "sane_window w \<longleftrightarrow> w \<le> 2 ^ 50"

lemma sane_epoch:
  assumes "sane_batch b"
  shows "batch_epoch b = mb_window_start_unix_ms b - mb_window_start_unix_ms b mod 1000"
    "- (2 ^ 62) - 1000 \<le> batch_epoch b" "batch_epoch b < 2 ^ 62"
proof -
  let ?t = "mb_window_start_unix_ms b"
  obtain r where r: "?t mod 1000 = r" "0 \<le> r" "r < 1000" by simp
  have "wrap64 (?t - r) = ?t - r"
    using assms r(2,3) by (intro wrap64_id) (simp_all add: sane_batch_def)
  then show eq: "batch_epoch b = ?t - ?t mod 1000"
    by (simp add: batch_epoch_def epoch_of_def epoch_ms_const_def r)
  show "- (2 ^ 62) - 1000 \<le> batch_epoch b" "batch_epoch b < 2 ^ 62"
    using assms r(2,3) unfolding eq r(1) by (simp_all add: sane_batch_def)
qed

lemma sane_window_start:
  assumes "sane_batch b" and "sane_window w" and "tp_window_epochs p = max w 1"
  shows "window_start p (batch_epoch b) = batch_epoch b - (max w 1 - 1) * 1000"
    "window_start p (batch_epoch b) \<le> batch_epoch b"
proof -
  let ?k = "(max w 1 - 1) * 1000"
  have k: "0 \<le> ?k" "?k \<le> 2 ^ 50 * 1000" using assms(2) by (auto simp: sane_window_def)
  have e: "- (2 ^ 62) - 1000 \<le> batch_epoch b" "batch_epoch b < 2 ^ 62" using sane_epoch[OF assms(1)] by auto
  have "wrap64 ?k = ?k" using k by (intro wrap64_id) simp_all
  moreover have "wrap64 (batch_epoch b - ?k) = batch_epoch b - ?k"
    using k e by (intro wrap64_id) simp_all
  ultimately show "window_start p (batch_epoch b) = batch_epoch b - ?k"
    by (simp add: window_start_def epoch_ms_const_def assms(3))
  then show "window_start p (batch_epoch b) \<le> batch_epoch b" using k by simp
qed

lemma window_start_update [simp]:
  "window_start (p\<lparr>tp_last_published_epoch := x\<rparr>) = window_start p"
  by (rule ext) (simp add: window_start_def)


definition sample_batch :: "string \<Rightarrow> i64 \<Rightarrow> u64 \<Rightarrow> metric_batch" where
  "sample_batch worker t requests =
     metric_batch_default\<lparr>mb_worker_id := worker, mb_window_start_unix_ms := t,
       mb_total_requests := requests, mb_success_count := requests\<rparr>"



section \<open>Interpolated percentiles\<close>

definition bound :: "nat \<Rightarrow> rat" where
  "bound i = [0, 1, 5, 10, 25, 50, 100, 250, 500, 1000] ! i"

lemma ten_cases:
  assumes "i \<le> (9 :: nat)"
  shows "i = 0 \<or> i = 1 \<or> i = 2 \<or> i = 3 \<or> i = 4 \<or> i = 5 \<or> i = 6 \<or> i = 7 \<or> i = 8 \<or> i = 9"
  using assms by presburger

lemma bound_facts:
  assumes "i \<le> 9"
  shows "bounds_get i d = Fin (bound i)" "0 \<le> bound i" "bound i \<le> 1000"
    "\<exists>k :: int. bound i = of_int k \<and> 0 \<le> k \<and> k \<le> 1000"
    "i \<le> 8 \<Longrightarrow> bounds_get (i + 1) d = Fin (bound (i + 1)) \<and> bound i \<le> bound (i + 1)"
    "i = 9 \<Longrightarrow> bounds_get (i + 1) d = PInf"
  using ten_cases[OF assms]
  by (auto simp: bound_def bounds_get_def bucket_bounds_ms_def eval_nat_numeral
      intro: exI[of _ 0] exI[of _ 1] exI[of _ 5] exI[of _ 10] exI[of _ 25] exI[of _ 50] exI[of _ 100]
        exI[of _ 250] exI[of _ 500] exI[of _ 1000])

lemma round64_bound: "i \<le> 9 \<Longrightarrow> round64 (bound i) = Fin (bound i)"
  using bound_facts(4)[of i] round64_int by force

lemma round64_2_129: "round64 (2 ^ 129) = Fin (2 ^ 129)"
  using round64_pow2[of 129] by simp

text \<open>The fraction of the bucket below the target: a monotone number in the unit interval.\<close>

definition fraction :: "u64 \<Rightarrow> u64 \<Rightarrow> rat \<Rightarrow> f64" where
  "fraction cnt cum t = f_clamp (f64_div (f64_sub (Fin t) (f64_of_u64 cum)) (f64_of_u64 cnt)) (Fin 0) (Fin 1)"

lemma fraction_facts:
  assumes "cnt \<noteq> 0" and "unat cum + unat cnt \<le> 2 ^ 53" and "0 \<le> t" and "t \<le> 2 ^ 53"
  shows "\<exists>c. fraction cnt cum t = Fin c \<and> 0 \<le> c \<and> c \<le> 1"
    and "t' \<le> t \<Longrightarrow> 0 \<le> t' \<Longrightarrow> fraction cnt cum t' = Fin a \<Longrightarrow> fraction cnt cum t = Fin b \<Longrightarrow> a \<le> b"
proof -
  obtain k q :: rat where c: "f64_of_u64 cum = Fin k" "f64_of_u64 cnt = Fin q" and pos: "0 < q"
  proof
    show "f64_of_u64 cum = Fin (of_nat (unat cum))" "f64_of_u64 cnt = Fin (of_nat (unat cnt))"
      using assms(2) by (intro f64_of_nat_exact; linarith)+
    have "0 < unat cnt" using assms(1) by (simp add: unat_gt_0)
    then show "0 < (of_nat (unat cnt) :: rat)" by (simp only: of_nat_0_less_iff)
  qed
  have "\<not> is_nan (f64_div (round64 x) (Fin q))" for x
    using pos by (cases "round64 x") (use round64_not_nan[of x] in \<open>auto simp: f_signed_inf_def\<close>)
  then show "\<exists>c. fraction cnt cum t = Fin c \<and> 0 \<le> c \<and> c \<le> 1"
    unfolding fraction_def c f_sub_Fin by (intro f_clamp_unit)
  assume "t' \<le> t" "0 \<le> t'" "fraction cnt cum t' = Fin a" "fraction cnt cum t = Fin b"
  moreover have "f_le (f64_div (f64_sub (Fin t') (f64_of_u64 cum)) (f64_of_u64 cnt))
      (f64_div (f64_sub (Fin t) (f64_of_u64 cum)) (f64_of_u64 cnt))" if "t' \<le> t"
    using that pos unfolding c f_sub_Fin by (intro f64_div_mono round64_mono) simp_all
  ultimately show "a \<le> b" unfolding fraction_def by (metis f_clamp_mono)
qed

definition bucket_hi :: "nat \<Rightarrow> rat \<Rightarrow> rat" where
  "bucket_hi i x = (if i \<le> 8 then bound (i + 1) else max x (bound i))"

lemma interpolate_eq:
  assumes "i \<le> 9"
  shows "interpolate i cnt cum (Fin t) (Fin x) =
    f64_add (Fin (bound i)) (f64_mul (round64 (bucket_hi i x - bound i)) (fraction cnt cum t))"
proof (cases "i \<le> 8")
  case True
  then show ?thesis
    using bound_facts(1,5)[OF assms] by (simp add: interpolate_def Let_def fraction_def bucket_hi_def)
next
  case False
  then have "i = 9" using assms by simp
  then have "bounds_get i d = Fin (bound 9)" "bounds_get (i + 1) d = PInf" for d
    using bound_facts(1,6)[OF assms] by simp_all
  with \<open>i = 9\<close> show ?thesis
    by (simp add: interpolate_def Let_def fraction_def bucket_hi_def f_max_def max_def)
qed

lemma bucket_hi_facts:
  assumes "i \<le> 9" and "x \<le> 2 ^ 128"
  shows "bound i \<le> bucket_hi i x" "bucket_hi i x - bound i \<le> 2 ^ 128"
  using bound_facts(2,3,5)[of i] bound_facts(2,3)[of "i + 1"] assms
  by (auto simp: bucket_hi_def max_def)

lemma bucket_width:
  assumes "i \<le> 9" and "x \<le> 2 ^ 128"
  shows "\<exists>d. round64 (bucket_hi i x - bound i) = Fin d \<and> 0 \<le> d \<and> d \<le> 2 ^ 128"
proof -
  have "round64 (2 ^ 128) = Fin (2 ^ 128)" using round64_pow2[of 128] by simp
  from round64_sandwich[OF round64_small_int(1) this] bucket_hi_facts[OF assms] show ?thesis by simp
qed

lemma interpolate_value:
  assumes "i \<le> 9" and "x \<le> 2 ^ 128" and "fraction cnt cum t = Fin c" and "0 \<le> c" and "c \<le> 1"
    and "round64 (bucket_hi i x - bound i) = Fin d"
  shows "\<exists>v. interpolate i cnt cum (Fin t) (Fin x) = Fin v \<and> bound i \<le> v \<and>
             (i \<le> 8 \<longrightarrow> v \<le> bound (i + 1)) \<and>
             (\<exists>u. round64 (d * c) = Fin u \<and> round64 (bound i + u) = Fin v)"
proof -
  have d: "0 \<le> d" "d \<le> 2 ^ 128" using bucket_width[OF assms(1,2)] assms(6) by auto
  have dc: "0 \<le> d * c" "d * c \<le> 2 ^ 128"
    using d assms(4,5) mult_mono[of d "2 ^ 128" c 1] by auto
  have "round64 (2 ^ 128) = Fin (2 ^ 128)" using round64_pow2[of 128] by simp
  from round64_sandwich[OF round64_small_int(1) this dc]
  obtain u where u: "round64 (d * c) = Fin u" "0 \<le> u" "u \<le> 2 ^ 128" by auto
  have b: "0 \<le> bound i" "bound i \<le> 1000" using bound_facts[OF assms(1)] by auto
  have "bound i \<le> bound i + u" "bound i + u \<le> 2 ^ 129" using u b by simp_all
  from round64_sandwich[OF round64_bound[OF assms(1)] round64_2_129 this]
  obtain v where v: "round64 (bound i + u) = Fin v" "bound i \<le> v" by auto
  have "v \<le> bound (i + 1)" if "i \<le> 8"
  proof -
    obtain k :: int where k: "bound i = of_int k" "0 \<le> k" "k \<le> 1000"
      using bound_facts(4)[OF assms(1)] by auto
    obtain l :: int where l: "bound (i + 1) = of_int l" "0 \<le> l" "l \<le> 1000"
      using bound_facts(4)[of "i + 1"] \<open>i \<le> 8\<close> by auto
    note kl = k l
    have "bucket_hi i x - bound i = of_int (l - k)" using that by (simp add: bucket_hi_def kl[simplified])
    then have dl: "round64 (bucket_hi i x - bound i) = Fin (of_int (l - k))"
      using kl by (simp only:) (rule round64_int, simp)
    then have "d = of_int (l - k)" using assms(6) by simp
    moreover have "d * c \<le> d" using d assms(4,5) by (simp add: mult_left_le)
    ultimately have "u \<le> of_int (l - k)"
      using round64_mono_Fin[OF _ u(1), of "of_int (l - k)"] dl \<open>bucket_hi i x - bound i = of_int (l - k)\<close> by simp
    then have "bound i + u \<le> bound (i + 1)" by (simp add: kl[simplified])
    from round64_mono_Fin[OF this v(1) round64_bound] that show ?thesis by simp
  qed
  then show ?thesis
    using u v by (simp add: interpolate_eq[OF assms(1)] assms(3,6))
qed


lemma interpolate_range:
  assumes "i \<le> 9" and "cnt \<noteq> 0" and "unat cum + unat cnt \<le> 2 ^ 53" and "x \<le> 2 ^ 128"
    and "0 \<le> t" and "t \<le> 2 ^ 53"
  shows "\<exists>v. interpolate i cnt cum (Fin t) (Fin x) = Fin v \<and> bound i \<le> v \<and> (i \<le> 8 \<longrightarrow> v \<le> bound (i + 1))"
proof -
  obtain c where c: "fraction cnt cum t = Fin c" "0 \<le> c" "c \<le> 1"
    using fraction_facts(1)[OF assms(2,3,5,6)] by auto
  obtain d where d: "round64 (bucket_hi i x - bound i) = Fin d"
    using bucket_width[OF assms(1,4)] by auto
  from interpolate_value[OF assms(1,4) c d] show ?thesis by blast
qed

lemma interpolate_mono:
  assumes "i \<le> 9" and "cnt \<noteq> 0" and "unat cum + unat cnt \<le> 2 ^ 53" and "x \<le> 2 ^ 128"
    and "0 \<le> s" and "s \<le> t" and "t \<le> 2 ^ 53"
  shows "f_le (interpolate i cnt cum (Fin s) (Fin x)) (interpolate i cnt cum (Fin t) (Fin x))"
proof -
  have t: "0 \<le> t" and s: "s \<le> 2 ^ 53" using assms by simp_all
  obtain c where c: "fraction cnt cum s = Fin c" "0 \<le> c" "c \<le> 1"
    using fraction_facts(1)[OF assms(2,3,5) s] by auto
  obtain e where e: "fraction cnt cum t = Fin e" "0 \<le> e" "e \<le> 1"
    using fraction_facts(1)[OF assms(2,3) t assms(7)] by auto
  have ce: "c \<le> e" using fraction_facts(2)[OF assms(2,3) t assms(7,6,5) c(1) e(1)] .
  obtain d where d: "round64 (bucket_hi i x - bound i) = Fin d" "0 \<le> d"
    using bucket_width[OF assms(1,4)] by auto
  obtain v u where v: "interpolate i cnt cum (Fin s) (Fin x) = Fin v" "round64 (d * c) = Fin u" "round64 (bound i + u) = Fin v"
    using interpolate_value[OF assms(1,4) c d(1)] by auto
  obtain v' u' where v': "interpolate i cnt cum (Fin t) (Fin x) = Fin v'" "round64 (d * e) = Fin u'" "round64 (bound i + u') = Fin v'"
    using interpolate_value[OF assms(1,4) e d(1)] by auto
  have "u \<le> u'" using round64_mono_Fin[OF _ v(2) v'(2)] ce d(2) by (simp add: mult_left_mono)
  then have "v \<le> v'" using round64_mono_Fin[OF _ v(3) v'(3)] by simp
  then show ?thesis by (simp add: v v')
qed

text \<open>The loop's state in exact numbers: buckets seen so far and the target still to reach.\<close>

lemma unat_add_exact: "unat a + unat b < 2 ^ 64 \<Longrightarrow> unat (a + b :: u64) = unat a + unat b"
  by (simp add: unat_word_ariths)

lemma target_test:
  assumes "unat cum + unat cnt \<le> 2 ^ 53"
  shows "f_le (Fin t) (f64_add (f64_of_u64 cum) (f64_of_u64 cnt)) \<longleftrightarrow> t \<le> of_nat (unat cum + unat cnt)"
proof -
  have "f64_of_u64 cum = Fin (of_nat (unat cum))" "f64_of_u64 cnt = Fin (of_nat (unat cnt))"
    using assms by (intro f64_of_nat_exact; linarith)+
  moreover have "round64 (of_nat (unat cum + unat cnt)) = Fin (of_nat (unat cum + unat cnt))"
    using f64_of_nat_exact[OF assms] by (simp add: f64_of_nat_def)
  ultimately show ?thesis by (simp add: of_nat_add[symmetric] del: of_nat_add of_nat_unat)
qed

lemma percentile_loop_lower:
  assumes "index + length buckets \<le> 10" and "unat cum + sum_list (map unat buckets) \<le> 2 ^ 53"
    and "x \<le> 2 ^ 128" and "0 \<le> t" and "t \<le> of_nat (unat cum + sum_list (map unat buckets))"
    and "0 < sum_list (map unat buckets)"
  shows "\<exists>v. percentile_loop buckets index cum (Fin t) (Fin x) = Fin v \<and> bound index \<le> v"
  using assms
proof (induction buckets arbitrary: index cum)
  case (Cons cnt bs)
  have idx: "index \<le> 9" using Cons.prems(1) by simp
  have step: "bound index \<le> bound (index + 1)" if "index + 1 \<le> 9"
    using bound_facts(5)[OF idx] that by simp
  show ?case
  proof (cases "cnt = 0")
    case True
    with Cons.prems have "index + 1 \<le> 9" by (cases bs) auto
    with True Cons.IH[of "index + 1" cum] Cons.prems step show ?thesis by fastforce
  next
    case False
    have le: "unat cum + unat cnt \<le> 2 ^ 53" using Cons.prems(2) by simp
    show ?thesis
    proof (cases "t \<le> of_nat (unat cum + unat cnt)")
      case True
      have "t \<le> 2 ^ 53" using True le of_nat_mono[OF le, where ?'a = rat] by simp
      from interpolate_range[OF idx False le Cons.prems(3,4) this] show ?thesis
        using True False by (auto simp: target_test[OF le])
    next
      case gt: False
      have sum: "unat (cum + cnt) = unat cum + unat cnt" using le by (intro unat_add_exact) simp
      have pos: "0 < sum_list (map unat bs)" using gt Cons.prems(5) by (cases "sum_list (map unat bs)") auto
      then have i1: "index + 1 \<le> 9" using Cons.prems(1) by (cases bs) auto
      have "\<exists>v. percentile_loop bs (index + 1) (cum + cnt) (Fin t) (Fin x) = Fin v \<and> bound (index + 1) \<le> v"
        using Cons.prems pos by (intro Cons.IH) (simp_all add: sum)
      then show ?thesis using False gt step[OF i1] by (auto simp: target_test[OF le])
    qed
  qed
qed simp

lemma percentile_loop_mono:
  assumes "index + length buckets \<le> 10" and "unat cum + sum_list (map unat buckets) \<le> 2 ^ 53"
    and "x \<le> 2 ^ 128" and "0 \<le> s" and "s \<le> t"
    and "t \<le> of_nat (unat cum + sum_list (map unat buckets))"
  shows "f_le (percentile_loop buckets index cum (Fin s) (Fin x)) (percentile_loop buckets index cum (Fin t) (Fin x))"
  using assms
proof (induction buckets arbitrary: index cum)
  case (Cons cnt bs)
  have idx: "index \<le> 9" using Cons.prems(1) by simp
  show ?case
  proof (cases "cnt = 0")
    case True
    then show ?thesis using Cons.IH[of "index + 1" cum] Cons.prems by simp
  next
    case False
    have le: "unat cum + unat cnt \<le> 2 ^ 53" using Cons.prems(2) by simp
    have le': "(of_nat (unat cum + unat cnt) :: rat) \<le> 2 ^ 53" using of_nat_mono[OF le, where ?'a = rat] by simp
    have sum: "unat (cum + cnt) = unat cum + unat cnt" using le by (intro unat_add_exact) simp
    note test = target_test[OF le]
    consider "t \<le> of_nat (unat cum + unat cnt)"
      | "s \<le> of_nat (unat cum + unat cnt)" "\<not> t \<le> of_nat (unat cum + unat cnt)"
      | "\<not> s \<le> of_nat (unat cum + unat cnt)" "\<not> t \<le> of_nat (unat cum + unat cnt)"
      using Cons.prems(5) by fastforce
    then show ?thesis
    proof cases
      case 1
      then have "t \<le> 2 ^ 53" "s \<le> of_nat (unat cum + unat cnt)" using le' Cons.prems(5) by linarith+
      then show ?thesis
        using 1 False interpolate_mono[OF idx False le Cons.prems(3,4,5)] by (simp add: test)
    next
      case 2
      have pos: "0 < sum_list (map unat bs)" using 2 Cons.prems(6) by (cases "sum_list (map unat bs)") auto
      then have i8: "index \<le> 8" using Cons.prems(1) by (cases bs) auto
      have "s \<le> 2 ^ 53" using 2(1) le' by linarith
      then obtain v where v: "interpolate index cnt cum (Fin s) (Fin x) = Fin v" "v \<le> bound (index + 1)"
        using interpolate_range[OF idx False le Cons.prems(3,4)] i8 by auto
      have "0 \<le> t" using Cons.prems(4,5) by simp
      then obtain u where u: "percentile_loop bs (index + 1) (cum + cnt) (Fin t) (Fin x) = Fin u" "bound (index + 1) \<le> u"
        using percentile_loop_lower[of "index + 1" bs "cum + cnt" x t] Cons.prems pos by (auto simp: sum)
      show ?thesis using 2 False v u by (simp add: test)
    next
      case 3
      then show ?thesis
        using False Cons.IH[of "index + 1" "cum + cnt"] Cons.prems by (simp add: test sum)
    qed
  qed
qed simp

lemma unat_sum_list_exact: "sum_list (map unat ws) < 2 ^ 64 \<Longrightarrow> unat (sum_list ws :: u64) = sum_list (map unat ws)"
  by (induction ws) (simp_all add: unat_add_exact)

lemma percentile_target:
  assumes "n \<le> 2 ^ 53" and "0 \<le> p" and "p \<le> 1"
  shows "\<exists>t. f64_mul (Fin p) (f64_of_nat n) = Fin t \<and> 0 \<le> t \<and> t \<le> of_nat n"
proof -
  have n: "round64 (of_nat n) = Fin (of_nat n)" using f64_of_nat_exact[OF assms(1)] by (simp add: f64_of_nat_def)
  have "0 \<le> p * of_nat n" "p * of_nat n \<le> of_nat n" using assms by (simp_all add: mult_left_le_one_le)
  from round64_sandwich[OF round64_small_int(1) n this] show ?thesis
    using f64_of_nat_exact[OF assms(1)] by simp
qed

lemma approx_percentile_mono:
  assumes "length bs \<le> 10" and "sum_list (map unat bs) \<le> 2 ^ 53" and "x \<le> 2 ^ 128"
    and "0 \<le> p" and "p \<le> q" and "q \<le> 1"
  shows "f_le (approx_percentile bs (Fin p) (Fin x)) (approx_percentile bs (Fin q) (Fin x))"
    and "f_le (Fin 0) (approx_percentile bs (Fin p) (Fin x))"
proof -
  have sum: "unat (sum_list bs) = sum_list (map unat bs)" using assms(2) by (intro unat_sum_list_exact) simp
  let ?n = "sum_list (map unat bs)"
  obtain s where s: "f64_mul (Fin p) (f64_of_nat ?n) = Fin s" "0 \<le> s" "s \<le> of_nat ?n"
    using percentile_target[OF assms(2,4)] assms by auto
  obtain t where t: "f64_mul (Fin q) (f64_of_nat ?n) = Fin t" "0 \<le> t" "t \<le> of_nat ?n"
    using percentile_target[OF assms(2) _ assms(6)] assms by auto
  have "p * of_nat ?n \<le> q * of_nat ?n" using assms by (intro mult_right_mono) auto
  then have "s \<le> t"
    using s(1) t(1) f64_of_nat_exact[OF assms(2)] round64_mono_Fin by simp
  then have "f_le (percentile_loop bs 0 0 (Fin s) (Fin x)) (percentile_loop bs 0 0 (Fin t) (Fin x))"
    using assms s t by (intro percentile_loop_mono) simp_all
  then show "f_le (approx_percentile bs (Fin p) (Fin x)) (approx_percentile bs (Fin q) (Fin x))"
    by (simp add: approx_percentile_def Let_def sum s t)
  show "f_le (Fin 0) (approx_percentile bs (Fin p) (Fin x))"
  proof (cases "?n = 0")
    case True
    then have "unat (sum_list bs) = 0" using sum by simp
    then have "sum_list bs = 0" by (simp only: unat_eq_zero)
    then show ?thesis by (simp add: approx_percentile_def)
  next
    case False
    have "\<exists>v. percentile_loop bs 0 0 (Fin s) (Fin x) = Fin v \<and> bound 0 \<le> v"
      using assms(1-3) s(2,3) neq0_conv[THEN iffD1, OF False] by (intro percentile_loop_lower) simp_all
    then obtain v where "percentile_loop bs 0 0 (Fin s) (Fin x) = Fin v" "bound 0 \<le> v" by blast
    then show ?thesis using bound_facts(2)[of 0] by (auto simp: approx_percentile_def Let_def sum s)
  qed
qed

lemma unit_literal: "0 \<le> r \<Longrightarrow> r \<le> 1 \<Longrightarrow> \<exists>a. f64_lit r = Fin a \<and> 0 \<le> a \<and> a \<le> 1"
  using round64_between[of 0 r 1] by simp

lemma latency_ordered_finite:
  assumes "length (me_buckets m) \<le> 10" and "sum_list (map unat (me_buckets m)) \<le> 2 ^ 53"
    and "me_max_ms m = Some (Fin x)" and "x \<le> 2 ^ 128"
  shows "f_le (Fin 0) (gl_p50_ms (metrics_latency m))"
    and "f_le (gl_p50_ms (metrics_latency m)) (gl_p90_ms (metrics_latency m))"
    and "f_le (gl_p90_ms (metrics_latency m)) (gl_p95_ms (metrics_latency m))"
    and "f_le (gl_p95_ms (metrics_latency m)) (gl_p99_ms (metrics_latency m))"
proof -
  obtain a b c d where l: "f64_lit (50 / 100) = Fin a" "f64_lit (90 / 100) = Fin b"
    "f64_lit (95 / 100) = Fin c" "f64_lit (99 / 100) = Fin d"
    and r: "0 \<le> a" "a \<le> 1" "0 \<le> b" "b \<le> 1" "0 \<le> c" "c \<le> 1" "0 \<le> d" "d \<le> 1"
    using unit_literal[of "50 / 100"] unit_literal[of "90 / 100"] unit_literal[of "95 / 100"]
      unit_literal[of "99 / 100"] by auto
  have ord: "a \<le> b" "b \<le> c" "c \<le> d"
    using round64_mono_Fin[OF _ l(1,2)] round64_mono_Fin[OF _ l(2,3)] round64_mono_Fin[OF _ l(3,4)] by simp_all
  note mono = approx_percentile_mono[OF assms(1,2,4)]
  have eq: "gl_p50_ms (metrics_latency m) = approx_percentile (me_buckets m) (Fin a) (Fin x)"
    "gl_p90_ms (metrics_latency m) = approx_percentile (me_buckets m) (Fin b) (Fin x)"
    "gl_p95_ms (metrics_latency m) = approx_percentile (me_buckets m) (Fin c) (Fin x)"
    "gl_p99_ms (metrics_latency m) = approx_percentile (me_buckets m) (Fin d) (Fin x)"
    unfolding metrics_latency_def l assms(3) by (simp_all add: Let_def)
  show "f_le (Fin 0) (gl_p50_ms (metrics_latency m))"
    "f_le (gl_p50_ms (metrics_latency m)) (gl_p90_ms (metrics_latency m))"
    "f_le (gl_p90_ms (metrics_latency m)) (gl_p95_ms (metrics_latency m))"
    "f_le (gl_p95_ms (metrics_latency m)) (gl_p99_ms (metrics_latency m))"
    unfolding eq using mono(1)[OF r(1) ord(1) r(4)] mono(1)[OF r(3) ord(2) r(6)]
      mono(1)[OF r(5) ord(3) r(8)] mono(2)[OF r(1) order_refl r(2)] by simp_all
qed

text \<open>What the workers send: a finite maximum.  Merging keeps it, or there was no sample at all.\<close>

definition finite_latency :: "metric_batch \<Rightarrow> bool" where
  "finite_latency b \<longleftrightarrow> (case mb_latency b of None \<Rightarrow> True
     | Some l \<Rightarrow> is_finite (ls_max_ms l) \<and> f_le (ls_max_ms l) (Fin (2 ^ 128)))"

definition max_known :: "metrics \<Rightarrow> bool" where
  "max_known m \<longleftrightarrow> (case me_max_ms m of None \<Rightarrow> sum_list (me_buckets m) = 0
     | Some v \<Rightarrow> \<exists>x. v = Fin x \<and> x \<le> 2 ^ 128)"

lemma max_known_merge_batch: "max_known m \<Longrightarrow> finite_latency b \<Longrightarrow> max_known (merge_batch b n m)"
  by (cases "mb_latency b"; cases "me_max_ms m"; cases "ls_max_ms (the (mb_latency b))")
    (auto simp: max_known_def finite_latency_def merge_batch_def Let_def opt_max_def f_max_def)

lemma max_known_after:
  "\<forall>b \<in> set bs. finite_latency b \<Longrightarrow> max_known (tp_cumulative (pipeline_after run n w bs))"
proof (induction bs rule: rev_induct)
  case Nil
  then show ?case
    by (simp add: pipeline_after_def pipeline_new_def Let_def metrics_new_def max_known_def sum_list_replicate)
next
  case (snoc b bs)
  then show ?case
    by (simp add: pipeline_after_snoc ingest_step_absorb absorb_fields max_known_merge_batch)
qed

lemma buckets_after: "length (me_buckets (tp_cumulative (pipeline_after run n w bs))) = max n 1"
  using pipeline_after_inv[of n run w bs] by (simp only: pipeline_inv_def metrics_ok_def)

lemma finalize_latency: "gr_latency (pipeline_finalize p) = metrics_latency (tp_cumulative p)"
  by (simp add: pipeline_finalize_def Let_def)

lemma latency_buckets: "gl_bucket_counts (metrics_latency m) = me_buckets m"
  by (simp add: metrics_latency_def Let_def)

text \<open>The percentiles of the final report are ordered.  With at most the ten buckets the workers
  send, finite maxima and at most \<open>2 ^ 53\<close> samples, the interpolated latencies satisfy
  \<open>0 \<le> p50 \<le> p90 \<le> p95 \<le> p99\<close> whatever the batches: no rounding of the \<open>f64\<close> interpolation
  inverts two percentiles or produces a NaN.\<close>

lemma report_percentiles_ordered:
  assumes "n \<le> 10" and "\<forall>b \<in> set bs. finite_latency b"
    and "sum_list (map unat (gl_bucket_counts (gr_latency (pipeline_finalize (pipeline_after run n w bs))))) \<le> 2 ^ 53"
  shows "let l = gr_latency (pipeline_finalize (pipeline_after run n w bs))
         in f_le (Fin 0) (gl_p50_ms l) \<and> f_le (gl_p50_ms l) (gl_p90_ms l) \<and>
            f_le (gl_p90_ms l) (gl_p95_ms l) \<and> f_le (gl_p95_ms l) (gl_p99_ms l)"
proof -
  let ?m = "tp_cumulative (pipeline_after run n w bs)"
  have len: "length (me_buckets ?m) \<le> 10" using assms(1) by (simp add: buckets_after)
  have sum: "sum_list (map unat (me_buckets ?m)) \<le> 2 ^ 53"
    using assms(3) by (simp add: finalize_latency latency_buckets)
  show ?thesis
  proof (cases "me_max_ms ?m")
    case None
    then have "sum_list (me_buckets ?m) = 0" using max_known_after[OF assms(2), of run n w] by (simp add: max_known_def)
    then show ?thesis by (simp add: finalize_latency metrics_latency_def Let_def approx_percentile_def)
  next
    case (Some v)
    then obtain x where "me_max_ms ?m = Some (Fin x)" "x \<le> 2 ^ 128"
      using max_known_after[OF assms(2), of run n w] by (auto simp: max_known_def)
    then show ?thesis
      using latency_ordered_finite[OF len sum] by (simp add: finalize_latency Let_def)
  qed
qed

definition sample_latency_batch :: metric_batch where
  "sample_latency_batch = (sample_batch ''w1'' 2500 4)\<lparr>mb_latency := Some
     (latency_summary_default\<lparr>ls_bucket_counts := [1, 2, 0, 1], ls_sample_count := 4, ls_max_ms := Fin 9\<rparr>)\<rparr>"

text \<open>An eleventh bucket breaks this: its lower bound is already infinite.\<close>

lemma eleventh_bucket_nan:
  assumes "cnt \<noteq> 0" and "f_le target (f64_add (f64_of_u64 cum) (f64_of_u64 cnt))" and "is_finite x"
  shows "percentile_loop (cnt # bs) 10 cum target x = NaN"
proof -
  let ?r = "f64_div (f64_sub target (f64_of_u64 cum)) (f64_of_u64 cnt)"
  obtain y where x: "x = Fin y" using assms(3) by (cases x) auto
  have i: "interpolate 10 cnt cum target x = f64_add PInf (f64_mul NInf (f_clamp ?r (Fin 0) (Fin 1)))"
    by (simp add: interpolate_def Let_def bounds_get_def bucket_bounds_ms_def x f_sub_def[of _ "Fin y"])
  show ?thesis
  proof (cases "is_nan ?r")
    case True
    then have "f_clamp ?r (Fin 0) (Fin 1) = NaN" by (cases ?r) (simp_all add: f_clamp_def Let_def)
    then show ?thesis using assms(1,2) i by simp
  next
    case False
    then obtain c where "f_clamp ?r (Fin 0) (Fin 1) = Fin c" "0 \<le> c" using f_clamp_unit by blast
    then show ?thesis using assms(1,2) i by (auto simp: f_signed_inf_def)
  qed
qed

section \<open>The task answers with what it was sent\<close>

definition batches_of :: "pipeline_command list \<Rightarrow> metric_batch list" where
  "batches_of cs = concat (map (\<lambda>c. case c of PBatch b \<Rightarrow> [b] | _ \<Rightarrow> []) cs)"

lemma batches_of_simps [simp]:
  "batches_of [] = []" "batches_of (PBatch b # cs) = b # batches_of cs" "batches_of (PFinalize k # cs) = batches_of cs"
  by (simp_all add: batches_of_def)

definition sane_command :: "pipeline_command \<Rightarrow> bool" where
  "sane_command c = (case c of PBatch b \<Rightarrow> sane_batch b | PFinalize _ \<Rightarrow> True | PShutdown \<Rightarrow> False)"

lemma sane_command_simps [simp]:
  "sane_command (PBatch b) = sane_batch b" "sane_command (PFinalize k)" "\<not> sane_command PShutdown"
  by (simp_all add: sane_command_def)

lemma ingest_total:
  assumes "sane_batch b" and "sane_window w" and "tp_window_epochs p = max w 1"
  shows "\<exists>s. ingest b p = (ingest_step p b, Returns s)"
proof -
  have "tp_window_epochs ((absorb b p)\<lparr>tp_last_published_epoch := Some (batch_epoch b)\<rparr>) = max w 1"
    using assms(3) by (simp add: absorb_fields)
  note start = sane_window_start(2)[OF assms(1,2) this]
  then show ?thesis
    by (auto simp: ingest_step_absorb ingest_def Let_def pipeline_snapshot_def window_metrics_def
        batch_epoch_def absorb_fields simp del: window_start_update)
qed

lemma window_epochs_step: "tp_window_epochs (ingest_step p b) = tp_window_epochs p"
  by (simp add: ingest_step_absorb absorb_fields)

lemma run_pipeline_append:
  assumes "\<forall>c \<in> set cs. sane_command c" and "sane_window w" and "tp_window_epochs p = max w 1"
  shows "\<exists>out. \<forall>ds. run_pipeline p (cs @ ds) =
    (case run_pipeline (foldl ingest_step p (batches_of cs)) ds of (q, out', alive) \<Rightarrow> (q, out @ out', alive))"
  using assms(1,3)
proof (induction cs arbitrary: p)
  case Nil
  then show ?case by (intro exI[of _ "[]"]) (simp split: prod.split)
next
  case (Cons c cs)
  show ?case
  proof (cases c)
    case (PBatch b)
    then obtain s where s: "ingest b p = (ingest_step p b, Returns s)"
      using ingest_total[of b w p] assms(2) Cons.prems by auto
    obtain out where "\<forall>ds. run_pipeline (ingest_step p b) (cs @ ds) =
        (case run_pipeline (foldl ingest_step (ingest_step p b) (batches_of cs)) ds of (q, out', alive) \<Rightarrow> (q, out @ out', alive))"
      using Cons by (metis insertCI list.set(2) window_epochs_step)
    then show ?thesis using PBatch s
      by (cases s; intro exI[of _ "(case s of None \<Rightarrow> out | Some x \<Rightarrow> Published x # out)"])
        (simp_all split: prod.split)
  next
    case (PFinalize k)
    obtain out where "\<forall>ds. run_pipeline p (cs @ ds) =
        (case run_pipeline (foldl ingest_step p (batches_of cs)) ds of (q, out', alive) \<Rightarrow> (q, out @ out', alive))"
      using Cons by (metis insertCI list.set(2))
    then show ?thesis using PFinalize
      by (intro exI[of _ "Replied k (pipeline_finalize p) # out"]) (simp split: prod.split)
  qed (use Cons in simp)
qed

text \<open>The pipeline task is a faithful queue.  With timestamps in range, a finalize request is
  answered by the report of exactly the batches enqueued before it; the task keeps serving, and
  after a shutdown nothing that is enqueued changes its state or output.\<close>

lemma pipeline_task_reply:
  assumes "\<forall>c \<in> set cs. sane_command c" and "sane_window w"
  shows "let final = pipeline_finalize (pipeline_after run n w (batches_of cs))
    in \<exists>out. run_pipeline (pipeline_new run n w) (cs @ [PFinalize k]) =
             (pipeline_after run n w (batches_of cs), out @ [Replied k final], True) \<and>
           run_pipeline (pipeline_new run n w) (cs @ PFinalize k # PShutdown # ds) =
             (pipeline_after run n w (batches_of cs), out @ [Replied k final], False)"
proof -
  have "tp_window_epochs (pipeline_new run n w) = max w 1" by (simp add: pipeline_new_def Let_def)
  from run_pipeline_append[OF assms this] show ?thesis
    by (auto simp: pipeline_after_def Let_def)
qed

end
