(* ===== verification/Master_Run.thy ===== *)
theory Master_Run
  imports Master_Registry Master_Pipeline
begin

text \<open>
  The master's configuration (\<open>src/distributed/master/config.rs\<close>), its shared state and the
  life of a run (\<open>run.rs\<close>), and the gRPC handlers (\<open>server.rs\<close>).

  A pipeline handle is the pipeline it was spawned with and the commands sent to it so far; what
  its task answers is \<open>run_pipeline\<close> of those commands.  The handlers are functions on the
  shared state.  \<open>start_run\<close> gives up control at its awaits, so it takes, for every await, the
  list of handler calls (\<open>master_event\<close>) that other tasks make there, and the clock readings.
\<close>

section \<open>Configuration\<close>

record master_config =
  mc_cluster_id :: string
  mc_bind_address :: string
  mc_port :: u16
  mc_heartbeat_interval_ms :: u32
  mc_metric_flush_interval_ms :: u32
  mc_worker_timeout_ms :: u64
  mc_sweep_interval_ms :: u64
  mc_expected_workers :: usize
  mc_barrier_timeout_ms :: u64
  mc_histogram_bucket_count :: u32
  mc_window_secs :: u64
  mc_no_live :: bool
  mc_tls :: bool
  mc_run_url :: "string option"
  mc_run_virtual_users :: u32
  mc_run_duration_secs :: u64
  mc_report_path :: "string option"

definition missed_heartbeats_before_eviction :: nat where
  "missed_heartbeats_before_eviction = 3"

text \<open>The parser and printer of socket addresses are arguments: \<open>parse\<close> gives the error text or
  the printed address.\<close>

type_synonym addr_parser = "string \<Rightarrow> string + string"

definition listen_addr :: "addr_parser \<Rightarrow> master_config \<Rightarrow> string master_result" where
  "listen_addr parse c =
     (case parse (mc_bind_address c @ '':'' @ show_nat (unat (mc_port c))) of
        Inl e \<Rightarrow> Inl (MConfig (''invalid bind address: '' @ e))
      | Inr a \<Rightarrow> Inr a)"

definition worker_timeout :: "master_config \<Rightarrow> duration" where
  "worker_timeout c =
     (if mc_worker_timeout_ms c > 0 then from_millis (unat (mc_worker_timeout_ms c))
      else from_millis (unat (mc_heartbeat_interval_ms c) * missed_heartbeats_before_eviction))"

definition sweep_interval :: "master_config \<Rightarrow> duration" where
  "sweep_interval c = from_millis (max (unat (mc_sweep_interval_ms c)) 50)"

definition barrier_timeout :: "master_config \<Rightarrow> duration" where
  "barrier_timeout c = from_millis (max (unat (mc_barrier_timeout_ms c)) 100)"

definition has_run_spec :: "master_config \<Rightarrow> bool" where
  "has_run_spec c = (mc_run_url c \<noteq> None)"

definition cluster_configuration :: "master_config \<Rightarrow> string \<Rightarrow> cluster_configuration_msg" where
  "cluster_configuration c master_endpoint =
     \<lparr>cc_cluster_id = mc_cluster_id c, cc_master_endpoint = master_endpoint,
      cc_heartbeat_interval_ms = mc_heartbeat_interval_ms c,
      cc_metric_flush_interval_ms = mc_metric_flush_interval_ms c, cc_max_batch_size = 0,
      cc_tls_required = mc_tls c, cc_histogram_bucket_count = mc_histogram_bucket_count c,
      cc_cluster_labels = []\<rparr>"

definition master_config_validate :: "addr_parser \<Rightarrow> master_config \<Rightarrow> unit master_result" where
  "master_config_validate parse c =
     (case listen_addr parse c of
        Inl e \<Rightarrow> Inl e
      | Inr _ \<Rightarrow>
          (if mc_port c = 0 then Inl (MConfig ''port must be non-zero'')
           else if mc_heartbeat_interval_ms c = 0 then Inl (MConfig ''heartbeat interval must be greater than zero'')
           else if mc_histogram_bucket_count c = 0 then Inl (MConfig ''histogram bucket count must be greater than zero'')
           else if mc_window_secs c = 0 then Inl (MConfig ''window seconds must be greater than zero'')
           else if has_run_spec c \<and> mc_run_virtual_users c = 0
           then Inl (MConfig ''run virtual-users must be greater than zero'')
           else if has_run_spec c \<and> mc_run_duration_secs c = 0
           then Inl (MConfig ''run duration must be greater than zero'')
           else Inr ()))"

section \<open>Pipeline handles\<close>

record pipeline_handle =
  plh_pipeline :: telemetry_pipeline
  plh_sent :: "pipeline_command list"

definition handle_spawn :: "string \<Rightarrow> usize \<Rightarrow> i64 \<Rightarrow> pipeline_handle" where
  "handle_spawn run_id bucket_count window_epochs =
     \<lparr>plh_pipeline = pipeline_new run_id bucket_count window_epochs, plh_sent = []\<rparr>"

definition handle_send :: "pipeline_command \<Rightarrow> pipeline_handle \<Rightarrow> pipeline_handle" where
  "handle_send c h = h\<lparr>plh_sent := plh_sent h @ [c]\<rparr>"

definition handle_ingest :: "metric_batch \<Rightarrow> pipeline_handle \<Rightarrow> pipeline_handle" where
  "handle_ingest b h = handle_send (PBatch b) h"

text \<open>Ask for the report: the request is number \<open>0\<close>, its reply the last output with that number.\<close>

definition reply_of :: "task_output list \<Rightarrow> global_report option" where
  "reply_of out = (case rev (List.map_filter (\<lambda>x. case x of Replied k r \<Rightarrow> if k = 0 then Some r else None | _ \<Rightarrow> None) out) of
     [] \<Rightarrow> None | r # _ \<Rightarrow> Some r)"

definition handle_finalize :: "pipeline_handle \<Rightarrow> pipeline_handle \<times> global_report option" where
  "handle_finalize h =
     (let h' = handle_send (PFinalize 0) h
      in (h', reply_of (fst (snd (run_pipeline (plh_pipeline h') (plh_sent h'))))))"

definition handle_shutdown :: "pipeline_handle \<Rightarrow> pipeline_handle" where
  "handle_shutdown h = handle_send PShutdown h"

section \<open>Shared state\<close>

record active_run =
  ar_run_id :: string
  ar_start_command_id :: string
  ar_allocated :: "string list"
  ar_pipeline :: pipeline_handle
  ar_acked :: "string list"
  ar_telemetry_done :: "string list"

text \<open>
  The hash sets are lists without duplicates.  \<open>ms_outbox\<close> are the commands delivered to the
  command channels and \<open>ms_closed\<close> the channels whose receiver is gone.
\<close>

record master_state =
  ms_config :: master_config
  ms_registry :: registry
  ms_run :: "active_run option"
  ms_endpoint :: string
  ms_outbox :: "(channel \<times> command_request) list"
  ms_closed :: "channel list"

definition master_state_new :: "addr_parser \<Rightarrow> master_config \<Rightarrow> master_state master_result" where
  "master_state_new parse config =
     (case master_config_validate parse config of
        Inl e \<Rightarrow> Inl e
      | Inr _ \<Rightarrow>
          (case listen_addr parse config of
             Inl e \<Rightarrow> Inl e
           | Inr listen \<Rightarrow>
               Inr \<lparr>ms_config = config, ms_registry = registry_new, ms_run = None,
                    ms_endpoint = ''http://'' @ listen, ms_outbox = [], ms_closed = []\<rparr>))"

definition ingest_batch :: "metric_batch \<Rightarrow> master_state \<Rightarrow> master_state" where
  "ingest_batch batch s =
     (case ms_run s of
        None \<Rightarrow> s
      | Some run \<Rightarrow>
          (if mb_test_run_id batch = ar_run_id run
           then s\<lparr>ms_run := Some (run\<lparr>ar_pipeline := handle_ingest batch (ar_pipeline run)\<rparr>)\<rparr>
           else s))"

definition record_ack :: "command_response \<Rightarrow> master_state \<Rightarrow> master_state" where
  "record_ack response s =
     (case ms_run s of
        None \<Rightarrow> s
      | Some run \<Rightarrow>
          (if ca_command_id response = ar_start_command_id run
           then s\<lparr>ms_run := Some (run\<lparr>ar_acked := List.insert (ca_worker_id response) (ar_acked run)\<rparr>)\<rparr>
           else s))"

definition mark_telemetry_done :: "string \<Rightarrow> master_state \<Rightarrow> master_state" where
  "mark_telemetry_done worker_id s =
     (if worker_id = [] then s
      else case ms_run s of
        None \<Rightarrow> s
      | Some run \<Rightarrow> s\<lparr>ms_run := Some (run\<lparr>ar_telemetry_done := List.insert worker_id (ar_telemetry_done run)\<rparr>)\<rparr>)"

section \<open>The gRPC handlers\<close>

datatype grpc_status = InvalidArgument string | NotFound string | StreamFailed string

fun master_error_text :: "master_error \<Rightarrow> string" where
  "master_error_text (MConfig e) = ''configuration error: '' @ e"
| "master_error_text (MRegistry e) = ''registry error: '' @ e"
| "master_error_text (BarrierTimeout expected ready) =
     ''barrier timeout: '' @ show_nat ready @ ''/'' @ show_nat expected @ '' workers ready''"
| "master_error_text (MRun e) = ''run error: '' @ e"
| "master_error_text (MTransport e) = ''transport error: '' @ e"
| "master_error_text (MRpc e) = ''rpc error: '' @ e"
| "master_error_text (MIo e) = ''io error: '' @ e"

definition not_registered :: "string \<Rightarrow> grpc_status" where
  "not_registered worker_id =
     NotFound (''worker '' @ [CHR 0x27] @ worker_id @ [CHR 0x27] @ '' not registered'')"

definition register_worker ::
    "nat \<Rightarrow> register_worker_request \<Rightarrow> master_state \<Rightarrow> master_state \<times> (grpc_status + register_worker_response)" where
  "register_worker now request s =
     (case register now request (ms_registry s) of
        Inl e \<Rightarrow> (s, Inl (InvalidArgument (master_error_text e)))
      | Inr r \<Rightarrow>
          (s\<lparr>ms_registry := r\<rparr>,
           Inr \<lparr>rw_status = registration_status_num RS_Accepted, rw_acknowledgment_id = ''ack-'' @ rr_worker_id request,
                rw_cluster_config = Some (cluster_configuration (ms_config s) (ms_endpoint s)), rw_message = []\<rparr>))"

definition heartbeat ::
    "nat \<Rightarrow> clock \<Rightarrow> heartbeat_request \<Rightarrow> master_state \<Rightarrow> master_state \<times> (grpc_status + heartbeat_response)" where
  "heartbeat now wall request s =
     (let state = (case worker_state_try_from (hq_state request) of Some st \<Rightarrow> st | None \<Rightarrow> WS_Unspecified)
      in case record_heartbeat now (hq_worker_id request) state (hq_active_vus request) (hq_test_run_id request) (ms_registry s) of
           Inl _ \<Rightarrow> (s, Inl (not_registered (hq_worker_id request)))
         | Inr r \<Rightarrow>
             (s\<lparr>ms_registry := r\<rparr>,
              Inr \<lparr>hr_directive = heartbeat_directive_num HD_Continue,
                   hr_next_heartbeat_interval_ms = mc_heartbeat_interval_ms (ms_config s), hr_message = [],
                   hr_pending_command_id = [], hr_server_time = Some (now_timestamp wall)\<rparr>))"

text \<open>The channel made by the handler is an argument.\<close>

definition watch_commands ::
    "channel \<Rightarrow> watch_commands_request \<Rightarrow> master_state \<Rightarrow> master_state \<times> (grpc_status + channel)" where
  "watch_commands tx request s =
     (case attach_commands (wc_worker_id request) tx (ms_registry s) of
        Inl _ \<Rightarrow> (s, Inl (not_registered (wc_worker_id request)))
      | Inr r \<Rightarrow> (s\<lparr>ms_registry := r\<rparr>, Inr tx))"

definition acknowledge_command :: "command_response \<Rightarrow> master_state \<Rightarrow> master_state" where
  "acknowledge_command response s = record_ack response s"

text \<open>
  The loop of \<open>stream_metrics\<close> over the messages of one stream; a message may be a transport
  error, which leaves the handler without marking the telemetry as done.
\<close>

record stream_state =
  sst_accepted_batches :: u32
  sst_accepted_requests :: u64
  sst_last_batch_id :: string
  sst_worker_id :: string

definition stream_batch :: "metric_batch \<Rightarrow> stream_state \<Rightarrow> stream_state" where
  "stream_batch batch st =
     \<lparr>sst_accepted_batches = sst_accepted_batches st + 1,
      sst_accepted_requests = sst_accepted_requests st + mb_total_requests batch,
      sst_last_batch_id = mb_batch_id batch,
      sst_worker_id = (if mb_worker_id batch \<noteq> [] then mb_worker_id batch else sst_worker_id st)\<rparr>"

fun stream_loop ::
    "(string + metric_batch) list \<Rightarrow> stream_state \<Rightarrow> master_state \<Rightarrow> master_state \<times> (grpc_status + stream_state)" where
  "stream_loop [] st s = (s, Inr st)"
| "stream_loop (Inl e # ms) st s = (s, Inl (StreamFailed e))"
| "stream_loop (Inr batch # ms) st s = stream_loop ms (stream_batch batch st) (ingest_batch batch s)"

definition stream_metrics ::
    "clock \<Rightarrow> (string + metric_batch) list \<Rightarrow> master_state \<Rightarrow> master_state \<times> (grpc_status + stream_acknowledgment)" where
  "stream_metrics wall messages s =
     (case stream_loop messages \<lparr>sst_accepted_batches = 0, sst_accepted_requests = 0, sst_last_batch_id = [], sst_worker_id = []\<rparr> s of
        (s', Inl e) \<Rightarrow> (s', Inl e)
      | (s', Inr st) \<Rightarrow>
          (mark_telemetry_done (sst_worker_id st) s',
           Inr \<lparr>sa_worker_id = sst_worker_id st, sa_accepted_batches = sst_accepted_batches st,
                sa_accepted_requests = sst_accepted_requests st, sa_resync_required = False, sa_message = [],
                sa_processed_at = Some (now_timestamp wall), sa_last_batch_id = sst_last_batch_id st\<rparr>))"

section \<open>Aborting\<close>

text \<open>Deliver a command to a worker's channel, if it has one that is still open.\<close>

definition deliver :: "string \<Rightarrow> command_request \<Rightarrow> master_state \<Rightarrow> master_state \<times> bool" where
  "deliver worker_id command s =
     (case command_sender worker_id (ms_registry s) of
        None \<Rightarrow> (s, False)
      | Some tx \<Rightarrow> if tx \<in> set (ms_closed s) then (s, False)
                    else (s\<lparr>ms_outbox := ms_outbox s @ [(tx, command)]\<rparr>, True))"

definition abort_command :: "clock \<Rightarrow> active_run \<Rightarrow> command_request" where
  "abort_command wall run =
     \<lparr>cr_command = command_type_num CT_Abort, cr_command_id = ''cmd-'' @ ar_run_id run @ ''-abort'',
      cr_test_run_id = ar_run_id run, cr_config = None, cr_issued_at = Some (now_timestamp wall),
      cr_command_timeout_ms = 0\<rparr>"

definition abort_run :: "clock \<Rightarrow> master_state \<Rightarrow> master_state" where
  "abort_run wall s =
     (case ms_run s of
        None \<Rightarrow> s
      | Some run \<Rightarrow> foldl (\<lambda>s w. fst (deliver w (abort_command wall run) s)) (s\<lparr>ms_run := None\<rparr>) (ar_allocated run))"

section \<open>What other tasks do meanwhile\<close>

datatype master_event =
    EvRegister nat register_worker_request
  | EvHeartbeat nat clock heartbeat_request
  | EvWatch channel watch_commands_request
  | EvAck command_response
  | EvBatch metric_batch
  | EvStreamClosed string
  | EvSweep nat
  | EvChannelClosed channel
  | EvAbort clock

fun master_step :: "master_state \<Rightarrow> master_event \<Rightarrow> master_state" where
  "master_step s (EvRegister now q) = fst (register_worker now q s)"
| "master_step s (EvHeartbeat now wall q) = fst (heartbeat now wall q s)"
| "master_step s (EvWatch tx q) = fst (watch_commands tx q s)"
| "master_step s (EvAck r) = acknowledge_command r s"
| "master_step s (EvBatch b) = ingest_batch b s"
| "master_step s (EvStreamClosed w) = mark_telemetry_done w s"
| "master_step s (EvSweep now) = s\<lparr>ms_registry := fst (sweep now (worker_timeout (ms_config s)) (ms_registry s))\<rparr>"
| "master_step s (EvChannelClosed tx) = s\<lparr>ms_closed := tx # ms_closed s\<rparr>"
| "master_step s (EvAbort wall) = abort_run wall s"

abbreviation master_run :: "master_state \<Rightarrow> master_event list \<Rightarrow> master_state" where
  "master_run \<equiv> foldl master_step"

section \<open>Starting a run\<close>

text \<open>The events before each turn of a loop, and the clock the turn reads.\<close>

type_synonym turns = "(master_event list \<times> nat) list"

fun barrier_wait ::
    "usize \<Rightarrow> usize \<Rightarrow> nat \<Rightarrow> master_state \<Rightarrow> turns \<Rightarrow> (master_state \<times> string list master_result) option" where
  "barrier_wait expected required deadline s [] = None"
| "barrier_wait expected required deadline s ((evs, now) # ts) =
     (let s' = master_run s evs; ready = barrier_ready (ms_registry s')
      in if required \<le> length ready
         then Some (s', Inr (if expected = 0 then ready else take required ready))
         else if deadline - now = 0
         then Some (s', Inl (BarrierTimeout required (length ready)))
         else barrier_wait expected required deadline s' ts)"

definition resolve_run_id :: "clock \<Rightarrow> test_configuration \<Rightarrow> string" where
  "resolve_run_id wall config =
     (if str_trim (tc_test_run_id config) = [] then ''run-'' @ show_int (now_unix_ms wall) else tc_test_run_id config)"

definition bucket_count_of :: "master_config \<Rightarrow> usize" where
  "bucket_count_of c = unat (mc_histogram_bucket_count c)"

definition window_epochs_of :: "master_config \<Rightarrow> i64" where
  "window_epochs_of c = wrap64 (int (max (unat (mc_window_secs c)) 1))"

definition install_run :: "string \<Rightarrow> string list \<Rightarrow> master_state \<Rightarrow> master_state master_result" where
  "install_run run_id allocated s =
     (case ms_run s of
        Some _ \<Rightarrow> Inl (MRun ''a run is already active'')
      | None \<Rightarrow>
          Inr (s\<lparr>ms_run := Some
            \<lparr>ar_run_id = run_id, ar_start_command_id = ''cmd-'' @ run_id @ ''-start'', ar_allocated = allocated,
             ar_pipeline = handle_spawn run_id (bucket_count_of (ms_config s)) (window_epochs_of (ms_config s)),
             ar_acked = [], ar_telemetry_done = []\<rparr>\<rparr>))"

definition start_command :: "clock \<Rightarrow> string \<Rightarrow> test_configuration \<Rightarrow> command_request" where
  "start_command wall run_id config =
     \<lparr>cr_command = command_type_num CT_Start, cr_command_id = ''cmd-'' @ run_id @ ''-start'',
      cr_test_run_id = run_id, cr_config = Some (config\<lparr>tc_test_run_id := run_id\<rparr>),
      cr_issued_at = Some (now_timestamp wall), cr_command_timeout_ms = 0\<rparr>"

fun broadcast_start ::
    "command_request \<Rightarrow> string list \<Rightarrow> master_event list list \<Rightarrow> master_state \<Rightarrow> master_state \<times> nat" where
  "broadcast_start command [] evss s = (s, 0)"
| "broadcast_start command (w # ws) evss s =
     (case deliver w command (master_run s (case evss of [] \<Rightarrow> [] | evs # _ \<Rightarrow> evs)) of
        (s', ok) \<Rightarrow> (case broadcast_start command ws (tl evss) s' of (s'', n) \<Rightarrow> (s'', n + (if ok then 1 else 0))))"

definition completion_grace :: duration where
  "completion_grace = from_secs 5"

definition run_duration :: "test_configuration \<Rightarrow> duration" where
  "run_duration config =
     (case tc_duration config of None \<Rightarrow> 0 | Some (secs, nanos) \<Rightarrow> duration_new (nat (max secs 0)) (nat (max nanos 0)))"

definition run_complete :: "master_state \<Rightarrow> bool" where
  "run_complete s = (case ms_run s of None \<Rightarrow> True | Some run \<Rightarrow> length (ar_allocated run) \<le> length (ar_telemetry_done run))"

fun await_completion :: "nat \<Rightarrow> master_state \<Rightarrow> turns \<Rightarrow> master_state option" where
  "await_completion deadline s [] = None"
| "await_completion deadline s ((evs, now) # ts) =
     (let s' = master_run s evs
      in if run_complete s' then Some s'
         else if deadline - now = 0 then Some s'
         else await_completion deadline s' ts)"

definition finalize_run :: "master_state \<Rightarrow> master_state \<times> global_report master_result" where
  "finalize_run s =
     (case ms_run s of
        None \<Rightarrow> (s, Inl (MRun ''active run disappeared''))
      | Some run \<Rightarrow>
          (s\<lparr>ms_run := None\<rparr>,
           case snd (handle_finalize (ar_pipeline run)) of
             None \<Rightarrow> Inl (MRun ''telemetry pipeline stopped'')
           | Some report \<Rightarrow> Inr report))"

record run_schedule =
  rs_started :: nat
  rs_barrier :: turns
  rs_wall :: clock
  rs_install :: "master_event list"
  rs_sends :: "master_event list list"
  rs_begun :: nat
  rs_waits :: turns
  rs_final :: "master_event list"

definition start_run_master ::
    "run_schedule \<Rightarrow> test_configuration \<Rightarrow> usize \<Rightarrow> master_state \<Rightarrow>
     (master_state \<times> global_report master_result) option" where
  "start_run_master sch config expected s =
     (case barrier_wait expected (max expected 1) (rs_started sch + barrier_timeout (ms_config s)) s (rs_barrier sch) of
        None \<Rightarrow> None
      | Some (s1, Inl e) \<Rightarrow> Some (s1, Inl e)
      | Some (s1, Inr allocated) \<Rightarrow>
          (if allocated = [] then Some (s1, Inl (MRun ''no workers available''))
           else
             let run_id = resolve_run_id (rs_wall sch) config; s2 = master_run s1 (rs_install sch)
             in case install_run run_id allocated s2 of
                  Inl e \<Rightarrow> Some (s2, Inl e)
                | Inr s3 \<Rightarrow>
                    (case broadcast_start (start_command (rs_wall sch) run_id config) allocated (rs_sends sch) s3 of
                       (s4, delivered) \<Rightarrow>
                         (if delivered = 0
                          then Some ((master_run s4 (rs_final sch))\<lparr>ms_run := None\<rparr>,
                                     Inl (MRun ''no worker received the START command''))
                          else case await_completion (rs_begun sch + run_duration config + completion_grace) s4 (rs_waits sch) of
                                 None \<Rightarrow> None
                               | Some s5 \<Rightarrow> Some (finalize_run (master_run s5 (rs_final sch)))))))"

section \<open>Handlers leave the run alone\<close>

definition batches_in :: "master_event list \<Rightarrow> metric_batch list" where
  "batches_in evs = List.map_filter (\<lambda>e. case e of EvBatch b \<Rightarrow> Some b | _ \<Rightarrow> None) evs"

definition is_abort :: "master_event \<Rightarrow> bool" where
  "is_abort e = (case e of EvAbort _ \<Rightarrow> True | _ \<Rightarrow> False)"

definition for_run :: "string \<Rightarrow> metric_batch list \<Rightarrow> metric_batch list" where
  "for_run run_id bs = filter (\<lambda>b. mb_test_run_id b = run_id) bs"

lemma batches_in_simps [simp]:
  "batches_in [] = []" "batches_in (xs @ ys) = batches_in xs @ batches_in ys"
  "batches_in (e # evs) = (case e of EvBatch b \<Rightarrow> [b] | _ \<Rightarrow> []) @ batches_in evs"
  by (auto simp: batches_in_def List.map_filter_def split: master_event.split)

lemma for_run_append [simp]: "for_run r (xs @ ys) = for_run r xs @ for_run r ys"
  by (simp add: for_run_def)

text \<open>The active run with more batches in its pipeline's queue; acknowledgements and closed
  streams may also have been recorded.\<close>

definition same_run :: "active_run \<Rightarrow> metric_batch list \<Rightarrow> active_run \<Rightarrow> bool" where
  "same_run run bs run' \<longleftrightarrow> ar_run_id run' = ar_run_id run \<and> ar_start_command_id run' = ar_start_command_id run \<and>
     ar_allocated run' = ar_allocated run \<and>
     ar_pipeline run' = (ar_pipeline run)\<lparr>plh_sent := plh_sent (ar_pipeline run) @ map PBatch bs\<rparr>"

lemma same_run_refl [simp]: "same_run run [] run"
  by (simp add: same_run_def)

lemma same_run_trans: "same_run run bs run' \<Longrightarrow> same_run run' cs run'' \<Longrightarrow> same_run run (bs @ cs) run''"
  by (simp add: same_run_def)

lemmas handler_defs = register_worker_def heartbeat_def watch_commands_def acknowledge_command_def record_ack_def
  ingest_batch_def mark_telemetry_done_def handle_ingest_def handle_send_def Let_def

lemma master_step_run:
  assumes "ms_run s = Some run" and "\<not> is_abort e"
  shows "\<exists>run'. ms_run (master_step s e) = Some run' \<and> same_run run (for_run (ar_run_id run) (batches_in [e])) run'"
  using assms
  by (cases e) (auto simp: handler_defs same_run_def for_run_def is_abort_def split: option.splits sum.splits)

lemma master_run_run:
  assumes "ms_run s = Some run" and "list_all (\<lambda>e. \<not> is_abort e) evs"
  shows "\<exists>run'. ms_run (master_run s evs) = Some run' \<and> same_run run (for_run (ar_run_id run) (batches_in evs)) run'"
  using assms
proof (induction evs arbitrary: s run)
  case (Cons e evs)
  obtain r where r: "ms_run (master_step s e) = Some r" "same_run run (for_run (ar_run_id run) (batches_in [e])) r"
    using master_step_run[of s run e] Cons.prems by auto
  obtain r' where "ms_run (master_run (master_step s e) evs) = Some r'" "same_run r (for_run (ar_run_id r) (batches_in evs)) r'"
    using Cons.IH[OF r(1)] Cons.prems by auto
  moreover have "ar_run_id r = ar_run_id run" using r(2) by (simp add: same_run_def)
  ultimately show ?case
    using same_run_trans[OF r(2)] by (metis append_Cons append_Nil batches_in_simps(2) foldl_Cons for_run_append)
qed (simp add: for_run_def)

lemma deliver_run [simp]: "ms_run (fst (deliver w c s)) = ms_run s" "ms_config (fst (deliver w c s)) = ms_config s"
  by (auto simp: deliver_def split: option.splits)

lemma broadcast_run:
  assumes "ms_run s = Some run" and "list_all (list_all (\<lambda>e. \<not> is_abort e)) evss"
  shows "\<exists>run'. ms_run (fst (broadcast_start c ws evss s)) = Some run' \<and>
    same_run run (for_run (ar_run_id run) (batches_in (concat (take (length ws) evss)))) run'"
  using assms
proof (induction ws arbitrary: evss s run)
  case Nil
  then show ?case by (simp add: for_run_def)
next
  case (Cons w ws)
  let ?evs = "case evss of [] \<Rightarrow> [] | evs # _ \<Rightarrow> evs"
  have ok: "list_all (\<lambda>e. \<not> is_abort e) ?evs" "list_all (list_all (\<lambda>e. \<not> is_abort e)) (tl evss)"
    using Cons.prems(2) by (cases evss; simp)+
  obtain r where r: "ms_run (master_run s ?evs) = Some r" "same_run run (for_run (ar_run_id run) (batches_in ?evs)) r"
    using master_run_run[OF Cons.prems(1) ok(1)] by blast
  let ?d = "deliver w c (master_run s ?evs)"
  obtain r' where r': "ms_run (fst (broadcast_start c ws (tl evss) (fst ?d))) = Some r'"
    "same_run r (for_run (ar_run_id r) (batches_in (concat (take (length ws) (tl evss))))) r'"
    using Cons.IH[OF _ ok(2), of "fst ?d" r] r(1) by auto
  have "ar_run_id r = ar_run_id run" using r(2) by (simp add: same_run_def)
  then have "same_run run (for_run (ar_run_id run) (batches_in (?evs @ concat (take (length ws) (tl evss))))) r'"
    using same_run_trans[OF r(2) r'(2)] by simp
  moreover have "?evs @ concat (take (length ws) (tl evss)) = concat (take (length (w # ws)) evss)"
    by (cases evss) simp_all
  moreover have "fst (broadcast_start c (w # ws) evss s) = fst (broadcast_start c ws (tl evss) (fst ?d))"
    by (simp add: case_prod_beta)
  ultimately show ?case using r'(1) by (metis (no_types, lifting))
qed

lemma await_run:
  assumes "await_completion deadline s ts = Some t" and "ms_run s = Some run"
    and "list_all (\<lambda>x. list_all (\<lambda>e. \<not> is_abort e) (fst x)) ts"
  shows "\<exists>k run'. k \<le> length ts \<and> ms_run t = Some run' \<and>
    same_run run (for_run (ar_run_id run) (batches_in (concat (map fst (take k ts))))) run'"
  using assms
proof (induction deadline s ts arbitrary: run rule: await_completion.induct)
  case (2 deadline s evs now ts)
  obtain r where r: "ms_run (master_run s evs) = Some r" "same_run run (for_run (ar_run_id run) (batches_in evs)) r"
    using master_run_run[of s run evs] 2(3,4) by auto
  show ?case
  proof (cases "run_complete (master_run s evs) \<or> deadline - now = 0")
    case True
    then have "t = master_run s evs" using 2(2) by (auto simp: Let_def split: if_splits)
    then show ?thesis using r by (intro exI[of _ 1] exI[of _ r]) simp
  next
    case False
    then have "await_completion deadline (master_run s evs) ts = Some t" using 2(2) by (auto simp: Let_def)
    then obtain k r' where k: "k \<le> length ts" "ms_run t = Some r'"
      "same_run r (for_run (ar_run_id r) (batches_in (concat (map fst (take k ts))))) r'"
      using 2(1)[OF refl, of r] False r(1) 2(4) by auto
    have "ar_run_id r = ar_run_id run" using r(2) by (simp add: same_run_def)
    then have "same_run run (for_run (ar_run_id run) (batches_in (evs @ concat (map fst (take k ts))))) r'"
      using same_run_trans[OF r(2) k(3)] by simp
    then show ?thesis using k by (intro exI[of _ "Suc k"] exI[of _ r']) simp
  qed
qed simp

section \<open>What the pipeline answers\<close>

lemma reply_of_snoc: "reply_of (out @ [Replied 0 r]) = Some r"
  by (simp add: reply_of_def List.map_filter_def)

lemma batches_of_map [simp]: "batches_of (map PBatch bs) = bs"
  by (induction bs) simp_all

lemma handle_finalize_batches:
  assumes "list_all sane_batch bs" and "sane_window w"
  shows "snd (handle_finalize \<lparr>plh_pipeline = pipeline_new run n w, plh_sent = map PBatch bs\<rparr>) =
    Some (pipeline_finalize (pipeline_after run n w bs))"
proof -
  have ok: "\<forall>c \<in> set (map PBatch bs). sane_command c" using assms(1) by (auto simp: list_all_iff)
  have "tp_window_epochs (pipeline_new run n w) = max w 1" by (simp add: pipeline_new_def Let_def)
  from run_pipeline_append[OF ok assms(2) this] obtain out where
    "run_pipeline (pipeline_new run n w) (map PBatch bs @ [PFinalize 0]) =
      (pipeline_after run n w bs, out @ [Replied 0 (pipeline_finalize (pipeline_after run n w bs))], True)"
    by (auto simp: pipeline_after_def)
  then show ?thesis by (simp add: handle_finalize_def handle_send_def Let_def reply_of_snoc)
qed

lemma finalize_run_batches:
  assumes "ms_run s = Some run" and "ar_pipeline run = \<lparr>plh_pipeline = pipeline_new r n w, plh_sent = map PBatch bs\<rparr>"
    and "list_all sane_batch bs" and "sane_window w"
  shows "finalize_run s = (s\<lparr>ms_run := None\<rparr>, Inr (pipeline_finalize (pipeline_after r n w bs)))"
  using assms(1,2) handle_finalize_batches[OF assms(3,4)] by (simp add: finalize_run_def)

section \<open>The report of a run\<close>

definition quiet :: "run_schedule \<Rightarrow> bool" where
  "quiet sch \<longleftrightarrow> list_all (list_all (\<lambda>e. \<not> is_abort e)) (rs_sends sch) \<and>
     list_all (\<lambda>x. list_all (\<lambda>e. \<not> is_abort e) (fst x)) (rs_waits sch) \<and> list_all (\<lambda>e. \<not> is_abort e) (rs_final sch)"

definition schedule_batches :: "run_schedule \<Rightarrow> nat \<Rightarrow> nat \<Rightarrow> metric_batch list" where
  "schedule_batches sch i k = batches_in (concat (take i (rs_sends sch)) @ concat (map fst (take k (rs_waits sch))) @ rs_final sch)"

lemma install_run_Inr:
  assumes "install_run run_id allocated s = Inr t"
  shows "ms_run s = None" "\<exists>run. ms_run t = Some run \<and> ar_run_id run = run_id \<and> ar_allocated run = allocated \<and>
    ar_pipeline run = handle_spawn run_id (bucket_count_of (ms_config s)) (window_epochs_of (ms_config s))"
  using assms by (auto simp: install_run_def split: option.splits)

lemma started_run:
  assumes "quiet sch" and "ms_run s3 = Some run"
    and "ar_pipeline run = \<lparr>plh_pipeline = pipeline_new r n w, plh_sent = []\<rparr>" and "ar_run_id run = r"
    and "await_completion d (fst (broadcast_start c ws (rs_sends sch) s3)) (rs_waits sch) = Some s5"
    and "\<forall>i k. list_all sane_batch (for_run r (schedule_batches sch i k))" and "sane_window w"
  shows "\<exists>k. k \<le> length (rs_waits sch) \<and> finalize_run (master_run s5 (rs_final sch)) =
    ((master_run s5 (rs_final sch))\<lparr>ms_run := None\<rparr>,
     Inr (pipeline_finalize (pipeline_after r n w (for_run r (schedule_batches sch (length ws) k)))))"
proof -
  have q: "list_all (list_all (\<lambda>e. \<not> is_abort e)) (rs_sends sch)"
    "list_all (\<lambda>x. list_all (\<lambda>e. \<not> is_abort e) (fst x)) (rs_waits sch)" "list_all (\<lambda>e. \<not> is_abort e) (rs_final sch)"
    using assms(1) by (simp_all add: quiet_def)
  obtain r1 where r1: "ms_run (fst (broadcast_start c ws (rs_sends sch) s3)) = Some r1"
    "same_run run (for_run r (batches_in (concat (take (length ws) (rs_sends sch))))) r1"
    using broadcast_run[OF assms(2) q(1)] assms(4) by metis
  obtain k r2 where r2: "k \<le> length (rs_waits sch)" "ms_run s5 = Some r2"
    "same_run r1 (for_run (ar_run_id r1) (batches_in (concat (map fst (take k (rs_waits sch)))))) r2"
    using await_run[OF assms(5) r1(1) q(2)] by blast
  obtain r3 where r3: "ms_run (master_run s5 (rs_final sch)) = Some r3"
    "same_run r2 (for_run (ar_run_id r2) (batches_in (rs_final sch))) r3"
    using master_run_run[OF r2(2) q(3)] by blast
  have ids: "ar_run_id r1 = r" "ar_run_id r2 = r"
    using r1(2) r2(3) assms(4) by (simp_all add: same_run_def)
  have "same_run run (for_run r (schedule_batches sch (length ws) k)) r3"
    using same_run_trans[OF same_run_trans[OF r1(2) r2(3)] r3(2)] ids by (simp add: schedule_batches_def)
  then have p: "ar_pipeline r3 = \<lparr>plh_pipeline = pipeline_new r n w, plh_sent = map PBatch (for_run r (schedule_batches sch (length ws) k))\<rparr>"
    using assms(3) by (simp add: same_run_def)
  show ?thesis
    using finalize_run_batches[OF r3(1) p] assms(6,7) r2(1) by blast
qed

lemma abort_config [simp]: "ms_config (abort_run wall s) = ms_config s"
proof -
  have "ms_config (foldl (\<lambda>s w. fst (deliver w c s)) s ws) = ms_config s" for c ws s
    by (induction ws arbitrary: s) simp_all
  then show ?thesis by (simp add: abort_run_def split: option.split)
qed

lemma master_step_config [simp]: "ms_config (master_step s e) = ms_config s"
  by (cases e) (auto simp: handler_defs split: option.splits sum.splits)

lemma master_run_config [simp]: "ms_config (master_run s evs) = ms_config s"
  by (induction evs arbitrary: s) simp_all

lemma barrier_wait_config: "barrier_wait expected required deadline s ts = Some (t, r) \<Longrightarrow> ms_config t = ms_config s"
  by (induction expected required deadline s ts rule: barrier_wait.induct) (auto simp: Let_def split: if_splits)

text \<open>The barrier of \<open>start_run\<close> is the barrier on the registries it observes.\<close>

fun observed_registries :: "master_state \<Rightarrow> turns \<Rightarrow> (registry \<times> nat) list" where
  "observed_registries s [] = []"
| "observed_registries s ((evs, now) # ts) =
     (ms_registry (master_run s evs), now) # observed_registries (master_run s evs) ts"

lemma barrier_wait_loop:
  "map_option snd (barrier_wait expected required deadline s ts) =
   barrier_loop expected required deadline (observed_registries s ts)"
  by (induction expected required deadline s ts rule: barrier_wait.induct) (auto simp: Let_def)

lemma barrier_wait_nonempty:
  "barrier_wait expected required deadline s ts = Some (t, Inr ids) \<Longrightarrow> 0 < required \<Longrightarrow> ids \<noteq> []"
  by (induction expected required deadline s ts rule: barrier_wait.induct) (auto simp: Let_def split: if_splits)

definition schedule_sane :: "run_schedule \<Rightarrow> bool" where
  "schedule_sane sch \<longleftrightarrow>
     list_all sane_batch (batches_in (concat (rs_sends sch) @ concat (map fst (rs_waits sch)) @ rs_final sch))"

lemma sub_batches: "set (batches_in xs) \<subseteq> set (batches_in ys)" if "set xs \<subseteq> set ys"
  using that by (auto simp: batches_in_def List.map_filter_def)

lemma schedule_sane_sub: "schedule_sane sch \<Longrightarrow> list_all sane_batch (for_run r (schedule_batches sch i k))"
proof -
  have "set (concat (take i (rs_sends sch)) @ concat (map fst (take k (rs_waits sch))) @ rs_final sch) \<subseteq>
      set (concat (rs_sends sch) @ concat (map fst (rs_waits sch)) @ rs_final sch)"
    using set_take_subset[of i "rs_sends sch"] set_take_subset[of k "rs_waits sch"] by auto
  from sub_batches[OF this] show "schedule_sane sch \<Longrightarrow> list_all sane_batch (for_run r (schedule_batches sch i k))"
    unfolding schedule_sane_def schedule_batches_def for_run_def list_all_iff by auto
qed

lemma barrier_wait_Inl:
  "barrier_wait expected required deadline s ts = Some (t, Inl e) \<Longrightarrow> \<exists>n. e = BarrierTimeout required n"
  by (induction expected required deadline s ts rule: barrier_wait.induct) (auto simp: Let_def split: if_splits)

lemma report_total:
  "gr_total_requests (pipeline_finalize (pipeline_after run n w bs)) = sum_list (map mb_total_requests bs)"
proof -
  have "batch_field k FTotal = mb_total_requests" for k by (rule ext) simp
  then show ?thesis using view_after_filter[of Cumulative FTotal run n w bs] by (simp add: finalize_fields)
qed

lemma report_run_id: "gr_test_run_id (pipeline_finalize (pipeline_after run n w bs)) = run"
  by (simp add: pipeline_finalize_def Let_def pipeline_after_const)

text \<open>The ways in which \<open>start_run\<close> ends.\<close>

lemma start_run_cases:
  assumes "start_run_master sch config expected s = Some (t, res)"
  obtains (timeout) n where "res = Inl (BarrierTimeout (max expected 1) n)"
  | (active) "res = Inl (MRun ''a run is already active'')" "ms_run t \<noteq> None"
  | (undelivered) "res = Inl (MRun ''no worker received the START command'')" "ms_run t = None"
  | (ran) run_id allocated s3 run c s5 d where "run_id = resolve_run_id (rs_wall sch) config" "allocated \<noteq> []"
      "ms_run s3 = Some run" "ar_run_id run = run_id"
      "ar_pipeline run = \<lparr>plh_pipeline = pipeline_new run_id (bucket_count_of (ms_config s)) (window_epochs_of (ms_config s)), plh_sent = []\<rparr>"
      "await_completion d (fst (broadcast_start c allocated (rs_sends sch) s3)) (rs_waits sch) = Some s5"
      "(t, res) = finalize_run (master_run s5 (rs_final sch))"
proof -
  let ?r = "resolve_run_id (rs_wall sch) config"
  obtain s1 b where b: "barrier_wait expected (max expected 1) (rs_started sch + barrier_timeout (ms_config s)) s (rs_barrier sch) = Some (s1, b)"
    using assms by (auto simp: start_run_master_def split: option.splits)
  show thesis
  proof (cases b)
    case (Inl e)
    then show ?thesis using timeout barrier_wait_Inl[OF b[unfolded Inl]] assms b by (auto simp: start_run_master_def)
  next
    case (Inr allocated)
    have ne: "allocated \<noteq> []" using barrier_wait_nonempty b Inr by fastforce
    let ?s2 = "master_run s1 (rs_install sch)"
    have cfg: "ms_config ?s2 = ms_config s" using barrier_wait_config[OF b] by simp
    show ?thesis
    proof (cases "install_run ?r allocated ?s2")
      case (Inl e)
      then have "e = MRun ''a run is already active''" "ms_run ?s2 \<noteq> None" by (auto simp: install_run_def split: option.splits)
      then show ?thesis using active assms b Inr Inl ne by (auto simp: start_run_master_def Let_def)
    next
      case in3: (Inr s3)
      obtain s4 m where s4: "broadcast_start (start_command (rs_wall sch) ?r config) allocated (rs_sends sch) s3 = (s4, m)" by fastforce
      obtain run where run: "ms_run s3 = Some run" "ar_run_id run = ?r"
        "ar_pipeline run = \<lparr>plh_pipeline = pipeline_new ?r (bucket_count_of (ms_config s)) (window_epochs_of (ms_config s)), plh_sent = []\<rparr>"
        using install_run_Inr(2)[OF in3] cfg by (auto simp: handle_spawn_def)
      show ?thesis
      proof (cases "m = 0")
        case True
        then show ?thesis using undelivered assms b Inr ne in3 s4 by (auto simp: start_run_master_def Let_def)
      next
        case False
        then obtain s5 where "await_completion (rs_begun sch + run_duration config + completion_grace) s4 (rs_waits sch) = Some s5"
          "(t, res) = finalize_run (master_run s5 (rs_final sch))"
          using assms b Inr ne in3 s4 by (auto simp: start_run_master_def Let_def split: option.splits)
        then show ?thesis using ran[OF refl ne run] s4 by (metis fst_conv)
      qed
    qed
  qed
qed


definition sample_master_config :: master_config where
  "sample_master_config = \<lparr>mc_cluster_id = ''c'', mc_bind_address = ''0.0.0.0'', mc_port = 50051,
     mc_heartbeat_interval_ms = 2000, mc_metric_flush_interval_ms = 1000, mc_worker_timeout_ms = 0,
     mc_sweep_interval_ms = 1000, mc_expected_workers = 0, mc_barrier_timeout_ms = 30000,
     mc_histogram_bucket_count = 10, mc_window_secs = 5, mc_no_live = True, mc_tls = False, mc_run_url = None,
     mc_run_virtual_users = 0, mc_run_duration_secs = 0, mc_report_path = None\<rparr>"

definition sample_master :: master_state where
  "sample_master = \<lparr>ms_config = sample_master_config, ms_registry = [(''w1'', sample_record ''w1'' Ready 5 (Some 1))],
     ms_run = None, ms_endpoint = ''http://0.0.0.0:50051'', ms_outbox = [], ms_closed = []\<rparr>"

definition sample_run_config :: test_configuration where
  "sample_run_config = \<lparr>tc_test_run_id = ''run'', tc_targets = [], tc_ramp_up = None, tc_duration = None,
     tc_virtual_users = 1, tc_request_timeout_ms = 0, tc_headers = [], tc_payloads = [], tc_http_method = [], tc_metadata = []\<rparr>"

definition sample_run_batch :: "string \<Rightarrow> u64 \<Rightarrow> metric_batch" where
  "sample_run_batch run n = (sample_batch ''w1'' 2500 n)\<lparr>mb_test_run_id := run\<rparr>"

definition sample_schedule :: run_schedule where
  "sample_schedule = \<lparr>rs_started = 0, rs_barrier = [([], 0)], rs_wall = 0, rs_install = [], rs_sends = [], rs_begun = 0,
     rs_waits = [([EvBatch (sample_run_batch ''run'' 4), EvBatch (sample_run_batch ''old'' 9), EvStreamClosed ''w1''], 10)],
     rs_final = []\<rparr>"

lemma sample_started:
  "\<exists>x. start_run_master sample_schedule sample_run_config 1 sample_master = Some (finalize_run x)"
proof -
  let ?t = "rs_started sample_schedule + barrier_timeout (ms_config sample_master)"
  have b: "barrier_wait 1 (max 1 1) ?t sample_master (rs_barrier sample_schedule) = Some (sample_master, Inr [''w1''])"
    by (simp add: sample_schedule_def sample_master_def barrier_ready_def allocatable_workers_def sample_record_def)
  have r: "resolve_run_id (rs_wall sample_schedule) sample_run_config = ''run''"
    unfolding resolve_run_id_def sample_run_config_def by code_simp
  have u: "1 - 0 = (1 :: nat)" by simp
  obtain s3 where s3: "install_run ''run'' [''w1''] (master_run sample_master (rs_install sample_schedule)) = Inr s3"
    and m3: "ms_registry s3 = ms_registry sample_master" "ms_closed s3 = []"
    by (simp add: sample_schedule_def sample_master_def install_run_def)
  obtain s4 where s4: "broadcast_start (start_command (rs_wall sample_schedule) ''run'' sample_run_config) [''w1''] (rs_sends sample_schedule) s3 = (s4, 1)"
    using m3 by (simp add: sample_schedule_def deliver_def command_sender_def sample_master_def sample_record_def)
  obtain run where run: "ms_run s3 = Some run" "ar_allocated run = [''w1'']" using install_run_Inr(2)[OF s3] by blast
  have "ms_run s4 = Some run"
    using broadcast_run[OF run(1), of "[]"] s4 run by (auto simp: sample_schedule_def deliver_def split: option.splits if_splits)
  then have c: "run_complete (master_run s4 [EvBatch (sample_run_batch ''run'' 4), EvBatch (sample_run_batch ''old'' 9), EvStreamClosed ''w1''])"
    using run(2) by (auto simp: run_complete_def ingest_batch_def mark_telemetry_done_def handle_ingest_def handle_send_def List.insert_def
        split: option.splits) (metis length_greater_0_conv list.set(1) empty_iff Suc_leI)+
  then have "await_completion d s4 (rs_waits sample_schedule) =
      Some (master_run s4 [EvBatch (sample_run_batch ''run'' 4), EvBatch (sample_run_batch ''old'' 9), EvStreamClosed ''w1''])" for d
    by (simp add: sample_schedule_def Let_def)
  then show ?thesis
    using b r s3 s4 by (simp add: start_run_master_def Let_def) blast
qed


lemma foreign_stream_completes:
  assumes "ms_run s = Some run" and "ar_allocated run = [w]" and "ar_telemetry_done run = []" and "x \<noteq> []"
  shows "run_complete (mark_telemetry_done x s)"
  using assms by (simp add: run_complete_def mark_telemetry_done_def)

section \<open>Streams\<close>

abbreviation arrived :: "'e + 'b \<Rightarrow> bool" where
  "arrived m \<equiv> \<not> isl m"

lemma stream_loop_split:
  "stream_loop ms st s =
    (let bs = map projr (takeWhile arrived ms)
     in (master_run s (map EvBatch bs),
         case dropWhile arrived ms of [] \<Rightarrow> Inr (foldl (\<lambda>st b. stream_batch b st) st bs) | m # _ \<Rightarrow> Inl (StreamFailed (projl m))))"
  by (induction ms st s rule: stream_loop.induct) (simp_all add: Let_def split: list.split, metis dropWhile_eq_Nil_conv list.distinct(1))

definition stream_start :: stream_state where
  "stream_start = \<lparr>sst_accepted_batches = 0, sst_accepted_requests = 0, sst_last_batch_id = [], sst_worker_id = []\<rparr>"

lemma stream_batches_totals:
  "sst_accepted_batches (foldl (\<lambda>st b. stream_batch b st) st bs) = sst_accepted_batches st + of_nat (length bs)"
  "sst_accepted_requests (foldl (\<lambda>st b. stream_batch b st) st bs) = sst_accepted_requests st + sum_list (map mb_total_requests bs)"
  "sst_last_batch_id (foldl (\<lambda>st b. stream_batch b st) st bs) = (if bs = [] then sst_last_batch_id st else mb_batch_id (last bs))"
  "sst_worker_id (foldl (\<lambda>st b. stream_batch b st) st bs) =
     (let named = filter (\<lambda>b. mb_worker_id b \<noteq> []) bs in if named = [] then sst_worker_id st else mb_worker_id (last named))"
  by (induction bs arbitrary: st) (simp_all add: stream_batch_def Let_def)

text \<open>C15: A metric stream is ingested message by message.  If the stream ends cleanly, its effect on
  the master is that of its batches one after another followed by the end of the stream of the
  last worker named in it, and the acknowledgment counts all its batches and all their requests
  and names the last batch; if the transport fails, the batches before the failure are ingested,
  an error is returned and no worker's telemetry is marked as complete.\<close>

theorem stream_metrics_exact:
  "let (s', r) = stream_metrics wall messages s; bs = map projr (takeWhile arrived messages);
       named = filter (\<lambda>b. mb_worker_id b \<noteq> []) bs; w = (if named = [] then [] else mb_worker_id (last named))
   in if list_all arrived messages
      then s' = master_run s (map EvBatch bs @ [EvStreamClosed w]) \<and>
           (\<exists>ack. r = Inr ack \<and> sa_worker_id ack = w \<and> sa_accepted_batches ack = of_nat (length bs) \<and>
                  sa_accepted_requests ack = sum_list (map mb_total_requests bs) \<and>
                  sa_last_batch_id ack = (if bs = [] then [] else mb_batch_id (last bs)) \<and> \<not> sa_resync_required ack)
      else s' = master_run s (map EvBatch bs) \<and> (\<exists>e. r = Inl (StreamFailed e))"
proof (cases "list_all arrived messages")
  case True
  then have d: "dropWhile arrived messages = []" "takeWhile arrived messages = messages"
    by (simp_all add: dropWhile_eq_Nil_conv takeWhile_eq_all_conv list_all_iff)
  show ?thesis
    using True by (simp add: stream_metrics_def stream_loop_split Let_def d stream_batches_totals)
next
  case False
  then obtain m ms where d: "dropWhile arrived messages = m # ms"
    by (cases "dropWhile arrived messages") (auto simp: dropWhile_eq_Nil_conv list_all_iff)
  show ?thesis using False by (simp add: stream_metrics_def stream_loop_split Let_def d)
qed

section \<open>The registry under the handlers\<close>

lemma master_step_registry_inv: "registry_inv (ms_registry s) \<Longrightarrow> registry_inv (ms_registry (master_step s e))"
proof -
  assume inv: "registry_inv (ms_registry s)"
  have k: "registry_inv (registry_step (ms_registry s) op)" for op by (rule registry_inv_step[OF inv])
  have hb: "registry_inv r'" if "record_heartbeat now w st vus run (ms_registry s) = Inr r'" for now w st vus run r'
    using k[of "OpHeartbeat now w st vus run"] that by (simp add: or_keep_def)
  have ab: "ms_registry (abort_run wall s) = ms_registry s" for wall
  proof -
    have "ms_registry (foldl (\<lambda>s w. fst (deliver w c s)) s ws) = ms_registry s" for c ws s
      by (induction ws arbitrary: s) (auto simp: deliver_def split: option.splits)
    then show ?thesis by (simp add: abort_run_def split: option.split)
  qed
  show ?thesis
  proof (cases e)
    case (EvRegister now q)
    then show ?thesis using k[of "OpRegister now q"] inv by (auto simp: register_worker_def or_keep_def split: sum.splits)
  next
    case (EvHeartbeat now wall q)
    then show ?thesis using hb inv by (auto simp: heartbeat_def Let_def split: sum.splits)
  next
    case (EvWatch tx q)
    then show ?thesis using k[of "OpAttach (wc_worker_id q) tx"] inv by (auto simp: watch_commands_def or_keep_def split: sum.splits)
  next
    case (EvSweep now)
    then show ?thesis using k[of "OpSweep now (worker_timeout (ms_config s))"] by simp
  qed (use inv ab in \<open>auto simp: acknowledge_command_def record_ack_def ingest_batch_def mark_telemetry_done_def split: option.splits\<close>)
qed

interpretation master: guarded_machine master_step "\<lambda>s. registry_inv (ms_registry s)" "\<lambda>_. True"
  by unfold_locales (rule master_step_registry_inv)

text \<open>Without a run, no handler makes one.\<close>

lemma master_step_idle: "ms_run s = None \<Longrightarrow> ms_run (master_step s e) = None"
  by (cases e) (auto simp: handler_defs abort_run_def split: option.splits sum.splits)

lemma master_run_idle: "ms_run s = None \<Longrightarrow> ms_run (master_run s evs) = None"
  by (induction evs arbitrary: s) (simp_all add: master_step_idle)

section \<open>Aborting and starting again\<close>

definition reachable_channels :: "master_state \<Rightarrow> string list \<Rightarrow> channel list" where
  "reachable_channels s ws =
     List.map_filter (\<lambda>w. case command_sender w (ms_registry s) of
        None \<Rightarrow> None | Some tx \<Rightarrow> if tx \<in> set (ms_closed s) then None else Some tx) ws"

lemma reachable_channels_cong:
  "ms_registry s = ms_registry s' \<Longrightarrow> ms_closed s = ms_closed s' \<Longrightarrow> reachable_channels s ws = reachable_channels s' ws"
  by (simp only: reachable_channels_def)

lemma deliver_all:
  "foldl (\<lambda>s w. fst (deliver w c s)) s ws = s\<lparr>ms_outbox := ms_outbox s @ map (\<lambda>tx. (tx, c)) (reachable_channels s ws)\<rparr>"
proof (induction ws arbitrary: s)
  case Nil
  then show ?case by (simp add: reachable_channels_def)
next
  case (Cons w ws)
  have "reachable_channels (fst (deliver w c s)) ws = reachable_channels s ws"
    by (rule reachable_channels_cong) (auto simp: deliver_def split: option.splits)
  then show ?case
    using Cons[of "fst (deliver w c s)"]
    by (auto simp: deliver_def reachable_channels_def List.map_filter_def split: option.splits)
qed

definition busy_master :: master_state where
  "busy_master = sample_master\<lparr>ms_run := Some
     \<lparr>ar_run_id = ''run'', ar_start_command_id = ''cmd-run-start'', ar_allocated = [''w1'', ''w2''],
      ar_pipeline = handle_spawn ''run'' 10 5, ar_acked = [], ar_telemetry_done = []\<rparr>\<rparr>"

text \<open>Aborting is clean.  It sends the ABORT command of the run, once and in order, to every
  allocated worker with an open command stream and to nobody else, leaves the registry as it
  is, and drops the run; from then on late batches, acknowledgements and closing streams of it
  have no effect: no sequence of handler calls makes a run active again.\<close>

lemma abort_drops_run:
  assumes "ms_run s = Some run"
  shows "let s' = abort_run wall s
    in ms_outbox s' = ms_outbox s @ map (\<lambda>tx. (tx, abort_command wall run)) (reachable_channels s (ar_allocated run)) \<and>
       ms_registry s' = ms_registry s \<and> ms_run s' = None \<and> (\<forall>evs. ms_run (master_run s' evs) = None)"
proof -
  have e: "abort_run wall s = s\<lparr>ms_run := None, ms_outbox := ms_outbox s @
      map (\<lambda>tx. (tx, abort_command wall run)) (reachable_channels s (ar_allocated run))\<rparr>"
    using assms reachable_channels_cong[of "s\<lparr>ms_run := None\<rparr>" s] by (simp add: abort_run_def deliver_all)
  show ?thesis unfolding Let_def e using master_run_idle by simp
qed

text \<open>C23: One run at a time on the master.  If a run is active when the barrier has let a start
  through, that start is refused and does nothing: the active run and its queue are what the
  handlers made of them.  And whatever happens, aborts included, a start that was not refused
  or timed out at the barrier ends with no run active, so it does not block the next one.\<close>

theorem one_run_at_a_time:
  assumes "start_run_master sch config expected s = Some (t, res)"
  shows "(\<forall>s1 ids. barrier_wait expected (max expected 1) (rs_started sch + barrier_timeout (ms_config s)) s (rs_barrier sch) = Some (s1, Inr ids) \<and>
            ms_run (master_run s1 (rs_install sch)) \<noteq> None \<longrightarrow>
            t = master_run s1 (rs_install sch) \<and> res = Inl (MRun ''a run is already active'')) \<and>
         (ms_run t = None \<or> res = Inl (MRun ''a run is already active'') \<or> (\<exists>n. res = Inl (BarrierTimeout (max expected 1) n)))"
proof
  show "\<forall>s1 ids. barrier_wait expected (max expected 1) (rs_started sch + barrier_timeout (ms_config s)) s (rs_barrier sch) = Some (s1, Inr ids) \<and>
            ms_run (master_run s1 (rs_install sch)) \<noteq> None \<longrightarrow>
            t = master_run s1 (rs_install sch) \<and> res = Inl (MRun ''a run is already active'')"
  proof (intro allI impI)
    fix s1 ids
    assume b: "barrier_wait expected (max expected 1) (rs_started sch + barrier_timeout (ms_config s)) s (rs_barrier sch) = Some (s1, Inr ids) \<and>
      ms_run (master_run s1 (rs_install sch)) \<noteq> None"
    then have "ids \<noteq> []" using barrier_wait_nonempty by force
    then show "t = master_run s1 (rs_install sch) \<and> res = Inl (MRun ''a run is already active'')"
      using b assms by (auto simp: start_run_master_def install_run_def Let_def)
  qed
  have f: "ms_run (fst (finalize_run x)) = None" for x by (simp add: finalize_run_def split: option.split)
  show "ms_run t = None \<or> res = Inl (MRun ''a run is already active'') \<or> (\<exists>n. res = Inl (BarrierTimeout (max expected 1) n))"
    using assms
  proof (cases rule: start_run_cases)
    case (ran run_id allocated s3 run c s5 d)
    then show ?thesis using f[of "master_run s5 (rs_final sch)"] by (simp flip: ran(7))
  qed simp_all
qed

theorem one_run_at_a_time_witness:
  "\<exists>t res. start_run_master sample_schedule sample_run_config 1 busy_master = Some (t, res) \<and>
     t = busy_master \<and> res = Inl (MRun ''a run is already active'')"
proof -
  let ?t = "rs_started sample_schedule + barrier_timeout (ms_config busy_master)"
  have b: "barrier_wait 1 (max 1 1) ?t busy_master (rs_barrier sample_schedule) = Some (busy_master, Inr [''w1''])"
    by (simp add: sample_schedule_def busy_master_def sample_master_def barrier_ready_def allocatable_workers_def sample_record_def)
  have i: "rs_install sample_schedule = []" by (simp add: sample_schedule_def)
  have r: "ms_run busy_master \<noteq> None" by (simp add: busy_master_def)
  obtain t res where "start_run_master sample_schedule sample_run_config 1 busy_master = Some (t, res)"
    using b r i by (auto simp: start_run_master_def install_run_def Let_def)
  then show ?thesis using one_run_at_a_time[of sample_schedule sample_run_config 1 busy_master t res] b r i by simp
qed

end
