(* ===== verification/Cluster.thy ===== *)
theory Cluster
  imports Worker_Runtime Master_Run
begin

text \<open>
  Master and worker together: the session of a worker with its master (\<open>distributed/worker.rs\<close>), the single run
  of the master's program (\<open>bin/strobengine-master.rs\<close>), and what the two sides make of each other's messages.
  The transport is the list of results of its calls.
\<close>

section \<open>The session of a worker\<close>

text \<open>The URI parser and the result of dialling are arguments.\<close>

definition worker_connect :: "(string \<Rightarrow> string + unit) \<Rightarrow> string + unit \<Rightarrow> worker_config \<Rightarrow> unit worker_result" where
  "worker_connect parse dial config =
     (case parse (endpoint_uri config) of
        Inl e \<Rightarrow> Inl (WConfig (''invalid master endpoint: '' @ e))
      | Inr _ \<Rightarrow> (case dial of Inl e \<Rightarrow> Inl (WTransport e) | Inr _ \<Rightarrow> Inr ()))"

definition worker_register :: "string + register_worker_response \<Rightarrow> cluster_configuration_msg worker_result" where
  "worker_register reply = (case reply of Inl e \<Rightarrow> Inl (WRpc e) | Inr response \<Rightarrow> register_outcome response)"

text \<open>
  What the tasks of a session do, in the order in which it happens: a beat of the heartbeat loop with the reply of the
  master, a message of the command stream with the result of its acknowledgement, the end of an awaited STOP, the end of
  a run, the end of a loop that saw the shutdown before the session did, a panic of a loop, the shutdown.
\<close>

datatype session_event =
    SeBeat "string + heartbeat_response"
  | SeMessage clock "string + command_request option" "string + unit"
  | SeResumes clock "string + unit"
  | SeFinishes nat
  | SeHeartbeatStops
  | SeHeartbeatPanics string
  | SeCommandsStop
  | SeCommandsPanic string
  | SeShutdown

definition sent_ack :: "string + unit \<Rightarrow> unit worker_result option" where
  "sent_ack ack = (case ack of Inl e \<Rightarrow> Some (Inl (WRpc e)) | Inr _ \<Rightarrow> None)"

definition heartbeat_beat :: "string + heartbeat_response \<Rightarrow> ('m, 'h) shared \<Rightarrow> ('m, 'h) shared \<times> unit worker_result option" where
  "heartbeat_beat reply s =
     (case reply of
        Inl e \<Rightarrow> (s, Some (Inl (WRpc e)))
      | Inr response \<Rightarrow> (case handle_directive response s of Inl e \<Rightarrow> (s, Some (Inl e)) | Inr s' \<Rightarrow> (s', None)))"

text \<open>The command loop takes no message while the handler of a STOP awaits the end of its run.\<close>

definition command_turn ::
    "('m, 'n, 'v, 'h) http_ops \<Rightarrow> run_params \<Rightarrow> clock \<Rightarrow> string + command_request option \<Rightarrow> string + unit \<Rightarrow> ('m, 'h) shared \<Rightarrow>
     ('m, 'h) shared \<times> unit worker_result option" where
  "command_turn P params now message ack s =
     (if sh_waiting s \<noteq> None then (s, None)
      else case message of
        Inl e \<Rightarrow> (s, Some (Inl (WRpc e)))
      | Inr None \<Rightarrow> (s, Some (Inl (WDisconnected ''command stream closed'')))
      | Inr (Some command) \<Rightarrow>
          (let s' = handle_command P params now command s in (s', if sh_waiting s' = None then sent_ack ack else None)))"

definition session_turn_step ::
    "('m, 'n, 'v, 'h) http_ops \<Rightarrow> run_params \<Rightarrow> session_event \<Rightarrow> ('m, 'h) shared \<Rightarrow> ('m, 'h) shared \<times> unit worker_result option" where
  "session_turn_step P params ev s =
     (case ev of
        SeBeat reply \<Rightarrow> heartbeat_beat reply s
      | SeMessage now message ack \<Rightarrow> command_turn P params now message ack s
      | SeResumes now ack \<Rightarrow>
          (case sh_waiting s of
             Some (i, command) \<Rightarrow>
               (if i < length (sh_tasks s) \<and> rt_done (sh_tasks s ! i) then (handle_stop_resumed params now command s, sent_ack ack)
                else (s, None))
           | None \<Rightarrow> (s, None))
      | SeFinishes i \<Rightarrow> (if i < length (sh_tasks s) \<and> \<not> rt_done (sh_tasks s ! i) then (task_finish i s, None) else (s, None))
      | SeHeartbeatStops \<Rightarrow> (s, Some (Inl (WDisconnected ''heartbeat loop stopped'')))
      | SeCommandsStop \<Rightarrow> (s, Some (Inl (WDisconnected ''command loop stopped'')))
      | SeHeartbeatPanics e \<Rightarrow> (s, Some (Inl (WDisconnected (''heartbeat task panicked: '' @ e))))
      | SeCommandsPanic e \<Rightarrow> (s, Some (Inl (WDisconnected (''command task panicked: '' @ e))))
      | SeShutdown \<Rightarrow> (s, Some (Inr ())))"

fun session_loop ::
    "('m, 'n, 'v, 'h) http_ops \<Rightarrow> run_params \<Rightarrow> session_event list \<Rightarrow> ('m, 'h) shared \<Rightarrow> ('m, 'h) shared \<times> unit worker_result option" where
  "session_loop P params [] s = (s, None)"
| "session_loop P params (ev # evs) s =
     (case session_turn_step P params ev s of
        (s', None) \<Rightarrow> session_loop P params evs s'
      | (s', Some r) \<Rightarrow> (s', Some r))"

text \<open>
  The end of a session stops the run and waits for it; \<open>meanwhile\<close> is what the loops, which are aborted only
  afterwards, still do during that wait.
\<close>

definition session_end ::
    "('m, 'n, 'v, 'h) http_ops \<Rightarrow> run_params \<Rightarrow> session_event list \<Rightarrow> ('m, 'h) shared \<Rightarrow> ('m, 'h) shared" where
  "session_end P params meanwhile s =
     (case stop_begin s of
        (s', None) \<Rightarrow> stop_end s'
      | (s', Some i) \<Rightarrow> stop_end (fst (session_loop P params meanwhile s')))"

definition worker_session ::
    "('m, 'n, 'v, 'h) http_ops \<Rightarrow> run_params \<Rightarrow> unit worker_result \<Rightarrow> string + register_worker_response \<Rightarrow> session_event list \<Rightarrow>
     session_event list \<Rightarrow> (('m, 'h) shared \<times> unit worker_result) option" where
  "worker_session P params dialled reply evs meanwhile =
     (case dialled of
        Inl e \<Rightarrow> Some (shared_new, Inl e)
      | Inr _ \<Rightarrow>
          (case worker_register reply of
             Inl e \<Rightarrow> Some (shared_new, Inl e)
           | Inr cluster \<Rightarrow>
               (case session_loop P params evs shared_new of
                  (s, None) \<Rightarrow> None
                | (s, Some r) \<Rightarrow> Some (session_end P params meanwhile s, r))))"

section \<open>The master's program\<close>

definition build_test_config :: "master_config \<Rightarrow> test_configuration" where
  "build_test_config config =
     \<lparr>tc_test_run_id = [],
      tc_targets = [\<lparr>te_url = (case mc_run_url config of None \<Rightarrow> [] | Some u \<Rightarrow> u), te_method = [], te_weight = Fin 0\<rparr>],
      tc_ramp_up = None, tc_duration = Some (wrap64 (int (unat (mc_run_duration_secs config))), 0),
      tc_virtual_users = mc_run_virtual_users config, tc_request_timeout_ms = 0, tc_headers = [], tc_payloads = [],
      tc_http_method = [], tc_metadata = []\<rparr>"

text \<open>What the live display receives, and the positions of its bar; drawing belongs to another crate.\<close>

datatype live_event = LvSnapshot live_snapshot | LvLagged | LvClosed

definition live_bar_length :: "u64 \<Rightarrow> u64" where
  "live_bar_length duration_secs = max duration_secs 1"

fun render_live :: "live_event list \<Rightarrow> usize list \<times> bool" where
  "render_live [] = ([], False)"
| "render_live (LvSnapshot snapshot # evs) =
     (case render_live evs of (ps, ended) \<Rightarrow> (f_to_usize (f_round (lv_elapsed_secs snapshot)) # ps, ended))"
| "render_live (LvLagged # evs) = render_live evs"
| "render_live (LvClosed # evs) = ([], True)"

text \<open>What the program writes to its output, in order; the texts are those of the formatter.\<close>

datatype output_item = SummaryLine global_report | ReportJson global_report | WrittenLine string

definition write_report :: "(string \<Rightarrow> string + unit) \<Rightarrow> string + unit \<Rightarrow> report_destination \<Rightarrow> global_report \<Rightarrow> output_item list \<times> (string + unit)" where
  "write_report to_file to_stdout destination report =
     (case destination of
        DestFile path \<Rightarrow> ([], to_file path)
      | DestStdout \<Rightarrow> (case to_stdout of Inl e \<Rightarrow> ([], Inl e) | Inr _ \<Rightarrow> ([ReportJson report], Inr ()))
      | DestNone \<Rightarrow> ([], Inr ()))"

definition run_once ::
    "run_schedule \<Rightarrow> (string \<Rightarrow> string + unit) \<Rightarrow> string + unit \<Rightarrow> master_config \<Rightarrow> master_state \<Rightarrow>
     (master_state \<times> output_item list \<times> unit master_result) option" where
  "run_once sch to_file to_stdout config s =
     (case start_run_master sch (build_test_config config) (mc_expected_workers config) s of
        None \<Rightarrow> None
      | Some (t, Inl e) \<Rightarrow> Some (t, [], Inl e)
      | Some (t, Inr report) \<Rightarrow>
          (let destination = report_destination_parse (mc_report_path config)
           in case write_report to_file to_stdout destination report of
                (out, Inl e) \<Rightarrow> Some (t, SummaryLine report # out, Inl (MIo e))
              | (out, Inr _) \<Rightarrow>
                  Some (t, SummaryLine report # out @ (case destination of DestFile path \<Rightarrow> [WrittenLine path] | _ \<Rightarrow> []), Inr ())))"

section \<open>Sessions\<close>

text \<open>A turn of a session is a step of the worker's control state, or leaves it alone.\<close>

lemma session_turn_wstep:
  "fst (session_turn_step P params ev s) = s \<or> (\<exists>l. wstep P params l s (fst (session_turn_step P params ev s)))"
proof (cases ev)
  case (SeBeat reply)
  then show ?thesis
    using wstep.directive[of _ s _ P params] by (auto simp: session_turn_step_def heartbeat_beat_def split: sum.split)
next
  case (SeMessage now message ack)
  then show ?thesis
    using wstep.command[of s P params now]
    by (cases "sh_waiting s = None") (force simp: session_turn_step_def command_turn_def Let_def split: sum.split option.split)+
next
  case (SeResumes now ack)
  then show ?thesis using wstep.resume[of s _ _ P params now] by (auto simp: session_turn_step_def split: option.split)
next
  case (SeFinishes i)
  then show ?thesis using wstep.finish[of i s P params] by (auto simp: session_turn_step_def)
qed (simp_all add: session_turn_step_def)

lemma session_loop_inv: "worker_inv s \<Longrightarrow> worker_inv (fst (session_loop P params evs s))"
proof (induction P params evs s rule: session_loop.induct)
  case (2 P params ev evs s)
  have "worker_inv (fst (session_turn_step P params ev s))"
    using session_turn_wstep[of P params ev s] wstep_inv[of P params _ s] 2(2) by metis
  then show ?case using 2(1) by (auto split: prod.split option.split)
qed simp

text \<open>
  When no command is handled during the final wait, a session leaves nothing behind: the slot is empty, no virtual user is
  counted, and the run that held the slot is cancelled.
\<close>

definition takes_no_command :: "session_event \<Rightarrow> bool" where
  "takes_no_command ev \<longleftrightarrow> (case ev of SeMessage _ _ _ \<Rightarrow> False | _ \<Rightarrow> True)"

lemma idle_turn_keeps:
  assumes "takes_no_command ev" and "sh_run s = None"
  shows "sh_run (fst (session_turn_step P params ev s)) = None \<and>
    map rt_cancelled (sh_tasks (fst (session_turn_step P params ev s))) = map rt_cancelled (sh_tasks s)"
proof (cases ev)
  case (SeBeat reply)
  have "cancel_run s = s" using assms(2) by (simp add: cancel_run_def)
  then show ?thesis
    using SeBeat assms(2)
    by (auto simp: session_turn_step_def heartbeat_beat_def handle_directive_def split: sum.split option.split heartbeat_directive.split)
next
  case (SeResumes now ack)
  then show ?thesis
    using assms(2) by (auto simp: session_turn_step_def handle_stop_resumed_def acknowledge_def set_state_def stop_end_def split: option.split)
next
  case (SeFinishes i)
  then show ?thesis
    using assms(2) by (auto simp: session_turn_step_def task_finish_def set_state_def map_update list_update_same_conv)
qed (use assms in \<open>auto simp: session_turn_step_def takes_no_command_def\<close>)

lemma map_nth_eq: "map f xs = map f ys \<Longrightarrow> i < length ys \<Longrightarrow> f (xs ! i) = f (ys ! i)"
  by (metis length_map nth_map)

lemma session_end_clean:
  assumes "list_all takes_no_command meanwhile" and "worker_inv s" and "t = session_end P params meanwhile s"
  shows "sh_run t = None \<and> sh_active_vus t = 0 \<and> (\<forall>i. sh_run s = Some i \<longrightarrow> rt_cancelled (sh_tasks t ! i))"
proof -
  have keeps: "sh_run (fst (session_loop P params evs u)) = None \<and>
      map rt_cancelled (sh_tasks (fst (session_loop P params evs u))) = map rt_cancelled (sh_tasks u)"
    if "list_all takes_no_command evs" "sh_run u = None" for evs u
    using that
  proof (induction P params evs u rule: session_loop.induct)
    case (2 P params ev evs u)
    then show ?case using idle_turn_keeps[of ev u P params] by (auto split: prod.split option.split)
  qed simp
  show ?thesis
  proof (cases "sh_run s")
    case None
    then show ?thesis by (simp add: assms(3) session_end_def stop_begin_def stop_end_def)
  next
    case (Some i)
    define u where "u = cancel_task i (s\<lparr>sh_run := None\<rparr>)"
    have i: "i < length (sh_tasks s)" using assms(2) Some by (simp add: worker_inv_def)
    have t: "t = stop_end (fst (session_loop P params meanwhile u))"
      using Some by (simp add: assms(3) session_end_def stop_begin_def u_def)
    have "sh_run u = None" by (simp add: u_def cancel_task_def)
    from keeps[OF assms(1) this] have k: "sh_run t = None" "map rt_cancelled (sh_tasks t) = map rt_cancelled (sh_tasks u)"
      by (simp_all add: t stop_end_def)
    then have "rt_cancelled (sh_tasks t ! i) = rt_cancelled (sh_tasks u ! i)"
      using i map_nth_eq[OF k(2), of i] by (simp add: u_def cancel_task_def)
    then show ?thesis using k Some i by (simp add: t stop_end_def u_def cancel_task_def)
  qed
qed

text \<open>
  The loops are still alive during that wait: a START that arrives then takes the slot the session has just freed, and
  its run is left uncancelled when the session is over.
\<close>

lemma late_start_survives:
  assumes "sh_run s = Some i" and "sh_waiting s = None" and "i < length (sh_tasks s)"
    and "command_kind command = CT_Start" and "cr_config command = Some config"
    and "from_proto P config (rp_max_vus params) (rp_request_timeout params) = Inr plan"
    and "t = session_end P params [SeMessage now (Inr (Some command)) (Inr ())] s"
  shows "sh_run t = Some (length (sh_tasks s)) \<and> \<not> rt_cancelled (sh_tasks t ! length (sh_tasks s))"
  using assms
  by (simp add: session_end_def stop_begin_def stop_end_def session_turn_step_def command_turn_def sent_ack_def handle_command_def
      start_run_def begin_run_def cancel_task_def acknowledge_def set_state_def Let_def nth_append)

section \<open>Registration\<close>

lemma resolved_max_vus_pos: "resolved_max_vus parallelism c \<noteq> 0"
  by (auto simp: resolved_max_vus_def vus_per_core_def Let_def max_def split: option.split)

lemma allocatable_update:
  assumes "hm_inv r" and "wr_status w = Ready" and "wr_command_tx w \<noteq> None"
  shows "wr_worker_id w \<in> set (allocatable_workers (AList.update k w r))"
proof -
  have "(k, w) \<in> set (AList.update k w r)" by (metis map_of_SomeD update_conv' fun_upd_same)
  then show ?thesis using assms(2,3) by (force simp: allocatable_workers_def)
qed

text \<open>C12: the handshake of a worker with a master.  Every worker whose id is not blank is accepted, whatever else is registered,
  and takes over the heartbeat interval of the master.  Once it has opened its command stream and sent the first heartbeat
  of a fresh session, it is told to go on, it is among the workers the barrier may allocate, and commands for it go into
  the stream it opened.\<close>

theorem handshake_ready:
  assumes "master_config_validate parse (ms_config s) = Inr ()" and "registry_inv (ms_registry s)"
    and "params = run_params_of host parallelism config" and "str_trim (rp_worker_id params) \<noteq> []"
    and "register_worker t1 (register_request params hostname ip capacity version labels c1) s = (s1, reply)"
    and "watch_commands tx \<lparr>wc_worker_id = rp_worker_id params, wc_last_command_id = []\<rparr> s1 = (s2, stream)"
    and "heartbeat t3 wall (heartbeat_of params c3 total_mem available cpu shared_new) s2 = (s3, beat)"
  shows "(\<exists>response cluster. reply = Inr response \<and> register_outcome response = Inr cluster \<and>
       session_interval config cluster = from_millis (unat (mc_heartbeat_interval_ms (ms_config s)))) \<and>
     stream = Inr tx \<and> (\<exists>response. beat = Inr response \<and> (\<forall>s. handle_directive response s = Inr s)) \<and>
     rp_worker_id params \<in> set (barrier_ready (ms_registry s3)) \<and>
     command_sender (rp_worker_id params) (ms_registry s3) = Some tx"
proof -
  let ?id = "rp_worker_id params"
  have vus: "rp_max_vus params \<noteq> 0" using resolved_max_vus_pos by (simp add: assms(3) run_params_of_def)
  have interval: "mc_heartbeat_interval_ms (ms_config s) > 0"
    using assms(1) by (auto simp: master_config_validate_def word_gt_0 split: sum.splits if_splits)
  obtain rec where reg: "s1 = s\<lparr>ms_registry := AList.update ?id rec (ms_registry s)\<rparr>" "wr_worker_id rec = ?id"
    and reply: "reply = Inr \<lparr>rw_status = registration_status_num RS_Accepted, rw_acknowledgment_id = ''ack-'' @ ?id,
      rw_cluster_config = Some (cluster_configuration (ms_config s) (ms_endpoint s)), rw_message = []\<rparr>"
    using assms(4,5) vus by (auto simp: register_worker_def register_def register_request_def)
  have watch: "s2 = s1\<lparr>ms_registry := AList.update ?id (rec\<lparr>wr_command_tx := Some tx\<rparr>) (ms_registry s1)\<rparr>" "stream = Inr tx"
    using assms(6) by (auto simp: watch_commands_def attach_commands_def reg update_conv')
  define rec' where "rec' = rec\<lparr>wr_command_tx := Some tx, wr_status := Ready, wr_active_vus := 0, wr_test_run_id := [], wr_last_heartbeat := t3\<rparr>"
  have beat: "s3 = s2\<lparr>ms_registry := AList.update ?id rec' (ms_registry s2)\<rparr>"
    "beat = Inr \<lparr>hr_directive = heartbeat_directive_num HD_Continue, hr_next_heartbeat_interval_ms = mc_heartbeat_interval_ms (ms_config s2),
       hr_message = [], hr_pending_command_id = [], hr_server_time = Some (now_timestamp wall)\<rparr>"
    using assms(7) worker_state_round_trip[of WS_Ready]
    by (auto simp: heartbeat_def heartbeat_of_def record_heartbeat_def watch update_conv' shared_new_def wsm_new_def rec'_def Let_def)
  have "hm_inv (ms_registry s2)" using assms(2) by (simp add: watch reg registry_inv_def)
  from allocatable_update[OF this, of rec' ?id] have "?id \<in> set (barrier_ready (ms_registry s3))"
    by (simp add: beat barrier_ready_def rec'_def reg)
  moreover have "command_sender ?id (ms_registry s3) = Some tx" by (simp add: beat command_sender_def update_conv' rec'_def)
  ultimately show ?thesis
    using reply watch(2) beat(2) interval heartbeat_directive_round_trip[of HD_Continue]
    by (simp add: register_outcome_def session_interval_def cluster_configuration_def handle_directive_def)
qed

section \<open>The command to start\<close>

lemma daemon_plan:
  assumes "mc_run_url mc = Some url" and "str_trim url \<noteq> []" and "unat (mc_run_duration_secs mc) < 2 ^ 63"
    and "0 < mc_run_duration_secs mc"
  shows "from_proto P ((build_test_config mc)\<lparr>tc_test_run_id := run_id\<rparr>) max_vus timeout =
    Inr \<lparr>ep_targets = [str_trim url], ep_method = ho_get P, ep_body = None, ep_headers = ho_map_new P, ep_timeout = timeout,
         ep_virtual_users = plan_virtual_users (build_test_config mc) max_vus,
         ep_duration = Some (from_secs (unat (mc_run_duration_secs mc)))\<rparr>"
proof -
  have d: "wrap64 (int (unat (mc_run_duration_secs mc))) = int (unat (mc_run_duration_secs mc))"
  proof (rule wrap64_id)
    show "int (unat (mc_run_duration_secs mc)) < 2 ^ 63" using assms(3) by (metis of_nat_less_numeral_power_cancel_iff)
    show "- (2 ^ 63) \<le> int (unat (mc_run_duration_secs mc))" by (rule order_trans[of _ 0]) simp_all
  qed
  have "0 < unat (mc_run_duration_secs mc)" using assms(4) by (simp add: unat_gt_0)
  then have "\<not> uint (mc_run_duration_secs mc) \<le> 0" "wrap64 (uint (mc_run_duration_secs mc)) = uint (mc_run_duration_secs mc)"
    using d by (auto simp: uint_0_iff)
  then show ?thesis
    using assms(1,2)
    by (simp add: from_proto_def build_test_config_def plan_targets_def plan_method_def plan_body_def plan_duration_def
        plan_virtual_users_def str_trim_Nil d duration_new_def from_secs_def Let_def)
qed

text \<open>Every batch of a run carries the ids it was started with.\<close>

definition batch_of :: "run_params \<Rightarrow> string \<Rightarrow> metric_batch \<Rightarrow> bool" where
  "batch_of params rid b \<longleftrightarrow> mb_worker_id b = rp_worker_id params \<and> mb_test_run_id b = rid"

definition collector_of :: "run_params \<Rightarrow> string \<Rightarrow> 'hist windowed_collector \<Rightarrow> bool" where
  "collector_of params rid c \<longleftrightarrow> wco_worker_id c = rp_worker_id params \<and> wco_test_run_id c = rid"

lemma take_batch_ids:
  assumes "collector_of params rid c" and "take_batch H now c = (b, c')"
  shows "collector_of params rid c' \<and> (\<forall>x. b = Some x \<longrightarrow> batch_of params rid x)"
  using assms by (auto simp: take_batch_def collector_of_def batch_of_def Let_def split: if_splits)

lemma orchestrator_ids:
  assumes "collector_of params rid c" and "list_all (batch_of params rid) out" and "orchestrator_loop H c out es = (c', out', ended)"
  shows "collector_of params rid c' \<and> list_all (batch_of params rid) out'"
  using assms
proof (induction H c out es rule: orchestrator_loop.induct)
  case (4 H c out m es)
  have "collector_of params rid (collector_record H c m)" using 4(2) by (simp add: collector_of_def collector_record_def Let_def)
  then show ?case using 4 by simp
next
  case (5 H c out now accepted es)
  obtain b c1 where t: "take_batch H now c = (b, c1)" by fastforce
  note ids = take_batch_ids[OF 5(3) t]
  show ?case using 5 t ids by (auto split: option.splits if_splits)
qed auto

lemma run_orchestrator_ids: "list_all (batch_of params rid) (run_orchestrator H params rid n start es flush accepted)"
proof -
  let ?c = "set_active_vus n (collector_new H start (rp_worker_id params) rid (rp_window params))"
  obtain c out ended where r: "orchestrator_loop H ?c [] es = (c, out, ended)" using prod_cases3 by blast
  have "collector_of params rid ?c" by (simp add: collector_of_def set_active_vus_def collector_new_def)
  from orchestrator_ids[OF this _ r] have ids: "collector_of params rid c" "list_all (batch_of params rid) out" by simp_all
  obtain b c' where t: "take_batch H flush c = (b, c')" by fastforce
  then show ?thesis
    using ids take_batch_ids[OF ids(1) t] by (auto simp: run_orchestrator_def r split: option.split)
qed

text \<open>C11: the master's START is what the worker runs, and the master counts what the worker sends.  The command of the single run
  of the master's program is acknowledged by every fresh worker, the acknowledgement is the one the master waits for, and
  the worker's task has the run's id and a plan for exactly the configured address, duration and virtual users, capped by
  the worker's ceiling.  Every batch of the run goes into the pipeline of the master's run, in order and none left out.\<close>

theorem start_understood:
  assumes "mc_run_url mc = Some url" and "str_trim url \<noteq> []" and "0 < mc_run_duration_secs mc"
    and "unat (mc_run_duration_secs mc) < 2 ^ 63" and "run_id \<noteq> []"
    and "w = handle_command P params now (start_command wall run_id (build_test_config mc)) shared_new"
    and "install_run run_id allocated s = Inr s'"
    and "batches = run_orchestrator H params run_id n start es flush accepted"
  shows "(\<exists>plan. sh_run w = Some 0 \<and> sh_tasks w = [\<lparr>rt_test_run_id = run_id, rt_plan = plan, rt_cancelled = False, rt_done = False\<rparr>] \<and>
       ep_targets plan = [str_trim url] \<and> ep_duration plan = Some (from_secs (unat (mc_run_duration_secs mc))) \<and>
       ep_virtual_users plan = max 1 (min (unat (mc_run_virtual_users mc)) (if rp_max_vus params = 0 then unat (mc_run_virtual_users mc) else unat (rp_max_vus params)))) \<and>
     (\<exists>ack run. sh_acks w = [ack] \<and> ca_status ack = command_status_num CS_Acknowledged \<and>
       ms_run (record_ack ack s') = Some run \<and> ar_acked run = [rp_worker_id params]) \<and>
     (\<exists>run. ms_run (foldl (\<lambda>s b. ingest_batch b s) s' batches) = Some run \<and>
       plh_sent (ar_pipeline run) = map PBatch batches)"
proof -
  have kind: "command_kind (start_command wall run_id (build_test_config mc)) = CT_Start"
    using command_type_round_trip[of CT_Start] by (simp add: command_kind_def start_command_def)
  note plan = daemon_plan[OF assms(1,2,4,3), of P run_id "rp_max_vus params" "rp_request_timeout params"]
  have run: "ms_run s' = Some \<lparr>ar_run_id = run_id, ar_start_command_id = ''cmd-'' @ run_id @ ''-start'', ar_allocated = allocated,
      ar_pipeline = handle_spawn run_id (bucket_count_of (ms_config s)) (window_epochs_of (ms_config s)), ar_acked = [], ar_telemetry_done = []\<rparr>"
    using assms(7) by (auto simp: install_run_def split: option.splits)
  have vus: "plan_virtual_users (build_test_config mc) (rp_max_vus params) =
      max 1 (min (unat (mc_run_virtual_users mc)) (if rp_max_vus params = 0 then unat (mc_run_virtual_users mc) else unat (rp_max_vus params)))"
  proof -
    have "unat (max v 1) = max (unat v) 1" for v :: u32 by (auto simp: max_def word_le_nat_alt)
    then show ?thesis by (auto simp: plan_virtual_users_def build_test_config_def Let_def)
  qed
  have "\<exists>run'. ms_run (foldl (\<lambda>s b. ingest_batch b s) u bs) = Some run' \<and> plh_sent (ar_pipeline run') = plh_sent (ar_pipeline r) @ map PBatch bs"
    if "ms_run u = Some r" "ar_run_id r = run_id" "list_all (batch_of params run_id) bs" for u r bs
    using that
  proof (induction bs arbitrary: u r)
    case (Cons b bs)
    then show ?case
      using Cons.IH[of "ingest_batch b u" "r\<lparr>ar_pipeline := handle_ingest b (ar_pipeline r)\<rparr>"]
      by (auto simp: ingest_batch_def batch_of_def handle_ingest_def handle_send_def)
  qed simp
  from this[OF run _ run_orchestrator_ids[of params run_id H n start es flush accepted]] have
    "\<exists>run. ms_run (foldl (\<lambda>s b. ingest_batch b s) s' batches) = Some run \<and> plh_sent (ar_pipeline run) = map PBatch batches"
    by (simp add: assms(8) handle_spawn_def)
  moreover define command where "command = start_command wall run_id (build_test_config mc)"
  have "cr_config command = Some ((build_test_config mc)\<lparr>tc_test_run_id := run_id\<rparr>)" "cr_test_run_id command = run_id"
    "cr_command_id command = ''cmd-'' @ run_id @ ''-start''"
    by (simp_all add: command_def start_command_def)
  note command = this kind[folded command_def]
  have w: "w = handle_command P params now command shared_new" by (simp add: assms(6) command_def)
  have "sh_run w = Some 0" "sh_acks w = [\<lparr>ca_command_id = ''cmd-'' @ run_id @ ''-start'', ca_worker_id = rp_worker_id params,
      ca_status = command_status_num CS_Acknowledged, ca_error_message = [], ca_acknowledged_at = Some (now_timestamp now)\<rparr>]"
    "\<exists>plan. sh_tasks w = [\<lparr>rt_test_run_id = run_id, rt_plan = plan, rt_cancelled = False, rt_done = False\<rparr>] \<and>
       ep_targets plan = [str_trim url] \<and> ep_duration plan = Some (from_secs (unat (mc_run_duration_secs mc))) \<and>
       ep_virtual_users plan = plan_virtual_users (build_test_config mc) (rp_max_vus params)"
    using assms(5)
    by (simp_all add: w handle_command_def command plan start_run_def shared_new_def begin_run_def acknowledge_def set_state_def Let_def)
  ultimately show ?thesis unfolding vus by (auto simp: record_ack_def run List.insert_def)
qed

text \<open>A master and a worker for examples.\<close>

definition sample_worker_config :: worker_config where
  "sample_worker_config =
     \<lparr>wcf_master_endpoint = ''m:1'', wcf_worker_id = Some ''w2'', wcf_hostname = None, wcf_ip_address = None, wcf_max_vus = 8,
      wcf_labels = [], wcf_heartbeat_interval_ms = 1000, wcf_metric_window_ms = 1000, wcf_request_timeout_ms = 5000, wcf_tls = False\<rparr>"

definition sample_capacity :: resource_capacity where
  "sample_capacity =
     \<lparr>rc_cpu_cores = 1, rc_total_memory_bytes = 1, rc_available_memory_bytes = 1, rc_available_cpu_percent = Fin 50\<rparr>"

lemma sample_worker_id: "rp_worker_id (run_params_of None None sample_worker_config) = ''w2''"
  by (simp add: run_params_of_def resolved_worker_id_def sample_worker_config_def)

theorem handshake_ready_witness:
  "\<exists>params s1 s2 s3 reply beat. params = run_params_of None None sample_worker_config \<and>
     register_worker 1 (register_request params ''h'' ''i'' sample_capacity ''v'' [] 1) sample_master = (s1, Inr reply) \<and>
     watch_commands 7 \<lparr>wc_worker_id = rp_worker_id params, wc_last_command_id = []\<rparr> s1 = (s2, Inr 7) \<and>
     heartbeat 3 3 (heartbeat_of params 3 8 4 (Fin 0) (shared_new :: (string, string) shared)) s2 = (s3, Inr beat) \<and>
     ''w2'' \<in> set (barrier_ready (ms_registry s3)) \<and> command_sender ''w2'' (ms_registry s3) = Some 7"
proof -
  obtain params where p: "params = run_params_of None None sample_worker_config" by blast
  have valid: "master_config_validate Inr (ms_config sample_master) = Inr ()"
    by (simp add: master_config_validate_def listen_addr_def sample_master_def sample_master_config_def has_run_spec_def)
  have inv: "registry_inv (ms_registry sample_master)"
    by (simp add: sample_master_def registry_inv_def hm_inv_def record_ok_def sample_record_def str_trim_samples)
  have blank: "str_trim (rp_worker_id params) \<noteq> []" unfolding p sample_worker_id by (simp add: str_trim_samples)
  obtain s1 reply where r: "register_worker 1 (register_request params ''h'' ''i'' sample_capacity ''v'' [] 1) sample_master = (s1, reply)"
    by fastforce
  obtain s2 st where w: "watch_commands 7 \<lparr>wc_worker_id = rp_worker_id params, wc_last_command_id = []\<rparr> s1 = (s2, st)" by fastforce
  obtain s3 beat where h: "heartbeat 3 3 (heartbeat_of params 3 8 4 (Fin 0) (shared_new :: (string, string) shared)) s2 = (s3, beat)"
    by fastforce
  from handshake_ready[OF valid inv p blank r w h] obtain reply' beat' where
    "reply = Inr reply'" "beat = Inr beat'" "st = Inr 7" "''w2'' \<in> set (barrier_ready (ms_registry s3))"
    "command_sender ''w2'' (ms_registry s3) = Some 7"
    by (auto simp: p sample_worker_id)
  then show ?thesis using p r w h by blast
qed

definition sample_daemon :: master_config where
  "sample_daemon = sample_master_config\<lparr>mc_run_url := Some ''http://a'', mc_run_virtual_users := 20, mc_run_duration_secs := 2\<rparr>"

theorem start_understood_witness:
  "\<exists>w ack. w = handle_command plain_http (run_params_of None None sample_worker_config) 0 (start_command 0 ''run'' (build_test_config sample_daemon)) shared_new \<and>
     sh_run w = Some 0 \<and> sh_acks w = [ack] \<and> ca_status ack = command_status_num CS_Acknowledged"
proof -
  have url: "mc_run_url sample_daemon = Some ''http://a''" "str_trim ''http://a'' \<noteq> []" by (simp add: sample_daemon_def) code_simp
  have d: "0 < mc_run_duration_secs sample_daemon" "unat (mc_run_duration_secs sample_daemon) < 2 ^ 63"
    by (simp_all add: sample_daemon_def)
  obtain s' where s': "install_run ''run'' [''w2''] sample_master = Inr s'" by (simp add: install_run_def sample_master_def)
  have "''run'' \<noteq> []" by simp
  from start_understood[OF url d this refl s' refl, of plain_http "run_params_of None None sample_worker_config" 0 0 exact_hdr 1 0 "[]" 0 True]
  show ?thesis by blast
qed

end
