(* ===== verification/Rust_Utf8.thy ===== *)
theory Rust_Utf8
  imports Rust_Std
begin

text \<open>
  \<open>str::from_utf8\<close>: which byte lists are well-formed UTF-8, by the table of well-formed byte
  sequences of the Unicode standard (no overlong forms, no surrogates, nothing above U+10FFFF).
\<close>

section \<open>Well-formed UTF-8\<close>

definition byte_in :: "nat \<Rightarrow> nat \<Rightarrow> char \<Rightarrow> bool" where
  "byte_in lo hi c \<longleftrightarrow> lo \<le> byte c \<and> byte c \<le> hi"

text \<open>The range of the second byte after a given first byte of a sequence of three or four bytes.\<close>

definition second_byte :: "nat \<Rightarrow> char \<Rightarrow> bool" where
  "second_byte x =
     (if x = 0xE0 then byte_in 0xA0 0xBF
      else if x = 0xED then byte_in 0x80 0x9F
      else if x = 0xF0 then byte_in 0x90 0xBF
      else if x = 0xF4 then byte_in 0x80 0x8F
      else utf8_cont)"

text \<open>The bytes after the first character, if the list starts with a well-formed one.\<close>

fun utf8_next :: "bytes \<Rightarrow> bytes option" where
  "utf8_next [] = None"
| "utf8_next (a # s) =
     (if byte a < 0x80 then Some s
      else case s of
        [] \<Rightarrow> None
      | b # s1 \<Rightarrow>
          (if byte_in 0xC2 0xDF a then (if utf8_cont b then Some s1 else None)
           else case s1 of
             [] \<Rightarrow> None
           | c # s2 \<Rightarrow>
               (if byte_in 0xE0 0xEF a then (if second_byte (byte a) b \<and> utf8_cont c then Some s2 else None)
                else case s2 of
                  [] \<Rightarrow> None
                | d # s3 \<Rightarrow>
                    (if byte_in 0xF0 0xF4 a \<and> second_byte (byte a) b \<and> utf8_cont c \<and> utf8_cont d
                     then Some s3 else None))))"

lemma utf8_next_suffix: "utf8_next s = Some r \<Longrightarrow> \<exists>c. c \<noteq> [] \<and> s = c @ r \<and>
    (length c = 1 \<and> byte (hd c) < 0x80 \<or> (\<forall>x\<in>set c. 0x80 \<le> byte x))"
proof (cases s)
  case (Cons a t)
  assume n: "utf8_next s = Some r"
  have w: "second_byte (byte a) b \<Longrightarrow> 128 \<le> byte b" "utf8_cont b \<Longrightarrow> 128 \<le> byte b" for b
    by (simp_all add: second_byte_def byte_in_def utf8_cont_def split: if_splits)
  show ?thesis
  proof (cases "byte a < 0x80")
    case True
    with n Cons show ?thesis by (intro exI[of _ "[a]"]) simp
  next
    case False
    obtain c where "s = c @ r" "c = [a, hd (tl c)] \<or> c = [a, c ! 1, c ! 2] \<or> c = [a, c ! 1, c ! 2, c ! 3]"
      "\<forall>x\<in>set c. 0x80 \<le> byte x"
      using n Cons False w by (auto split: list.splits if_splits)
    then show ?thesis by fastforce
  qed
qed simp

lemma utf8_next_shorter: "utf8_next s = Some r \<Longrightarrow> length r < length s"
  using utf8_next_suffix by fastforce

function utf8_valid :: "bytes \<Rightarrow> bool" where
  "utf8_valid s = (s = [] \<or> (case utf8_next s of None \<Rightarrow> False | Some r \<Rightarrow> utf8_valid r))"
  by pat_completeness auto
termination
  by (relation "measure length") (simp_all add: utf8_next_shorter)

declare utf8_valid.simps [simp del]

lemma utf8_valid_Nil [simp]: "utf8_valid []"
  by (simp add: utf8_valid.simps)

lemma utf8_valid_ascii: "byte a < 0x80 \<Longrightarrow> utf8_valid (a # s) \<longleftrightarrow> utf8_valid s"
  by (subst utf8_valid.simps) simp

lemma utf8_valid_all_ascii: "list_all (\<lambda>c. byte c < 0x80) s \<Longrightarrow> utf8_valid s"
  by (induction s) (simp_all add: utf8_valid_ascii)

lemma utf8_next_append: "utf8_next s = Some r \<Longrightarrow> utf8_next (s @ t) = Some (r @ t)"
  by (cases s) (auto split: list.splits if_splits)

text \<open>Induction over the characters of a well-formed string.\<close>

lemma utf8_valid_induct [consumes 1, case_names Nil ascii wide]:
  assumes "utf8_valid s" and "P []"
    and "\<And>a s. byte a < 0x80 \<Longrightarrow> utf8_valid s \<Longrightarrow> P s \<Longrightarrow> P (a # s)"
    and "\<And>c s. c \<noteq> [] \<Longrightarrow> \<forall>x\<in>set c. 0x80 \<le> byte x \<Longrightarrow> (\<And>t. utf8_valid t \<Longrightarrow> utf8_valid (c @ t)) \<Longrightarrow>
      utf8_valid s \<Longrightarrow> P s \<Longrightarrow> P (c @ s)"
  shows "P s"
  using assms(1)
proof (induction s rule: utf8_valid.induct)
  case (1 s)
  show ?case
  proof (cases "s = []")
    case False
    then obtain r where r: "utf8_next s = Some r" "utf8_valid r"
      using 1(2) by (subst (asm) utf8_valid.simps) (auto split: option.splits)
    have P: "P r" using 1(1)[OF r] .
    obtain c where c: "c \<noteq> []" "s = c @ r" "length c = 1 \<and> byte (hd c) < 0x80 \<or> (\<forall>x\<in>set c. 0x80 \<le> byte x)"
      using utf8_next_suffix[OF r(1)] by blast
    show ?thesis
    proof (cases "length c = 1 \<and> byte (hd c) < 0x80")
      case True
      then show ?thesis using assms(3) r(2) P c by (cases c) auto
    next
      case False
      then have w: "\<forall>x\<in>set c. 0x80 \<le> byte x" using c(3) by blast
      show ?thesis
        unfolding c(2)
      proof (rule assms(4)[OF c(1) w _ r(2) P])
        fix t
        assume t: "utf8_valid t"
        have "utf8_next c = Some []"
          using r(1) c(1,2) w by (cases c) (auto split: list.splits if_splits simp: append_eq_Cons_conv)
        then have "utf8_next (c @ t) = Some t" using utf8_next_append by fastforce
        then show "utf8_valid (c @ t)" using t by (subst utf8_valid.simps) simp
      qed
    qed
  qed (simp add: assms(2))
qed

lemma utf8_valid_append: "utf8_valid s \<Longrightarrow> utf8_valid t \<Longrightarrow> utf8_valid (s @ t)"
  by (induction s rule: utf8_valid_induct) (simp_all add: utf8_valid_ascii)

end
