(* ===== verification/Stomp_Codec.thy ===== *)
theory Stomp_Codec
  imports Rust_Utf8
begin

text \<open>
  The STOMP 1.2 frame codec (\<open>protocols/stomp_codec.rs\<close>): frames, header escaping, the encoder
  and the incremental decoder with its buffer and read position.  A decoder step either
  returns or panics: a slice whose start is past its end panics, and the sum of a position and
  a length wraps at 64 bits as in the release profile.

  The decoder is refined against \<open>parse_frame\<close>, a parser of plain byte lists without
  positions.  From it come the independence of the way bytes are split into chunks and the
  round trip of encoded frames, the latter through the locale \<open>stream_codec\<close>.
\<close>

section \<open>Frames\<close>

abbreviation LF :: char where "LF \<equiv> CHR 0x0A"
abbreviation CR :: char where "CR \<equiv> CHR 0x0D"
abbreviation NUL :: char where "NUL \<equiv> CHR 0x00"
abbreviation BSLASH :: char where "BSLASH \<equiv> CHR 0x5C"

datatype codec_error = Utf8 | MissingHeaderValue | TrailingEscape | InvalidEscape | MissingNull

fun codec_error_text :: "codec_error \<Rightarrow> string" where
  "codec_error_text Utf8 = ''frame contained invalid UTF-8''"
| "codec_error_text MissingHeaderValue = ''header line is missing '' @ [CHR 0x27] @ '':'' @ [CHR 0x27] @ '' separator''"
| "codec_error_text TrailingEscape = ''header value ends with a dangling escape''"
| "codec_error_text InvalidEscape = ''header value contains an unknown escape''"
| "codec_error_text MissingNull = ''content-length body is not NULL-terminated''"

record frame =
  fr_command :: string
  fr_headers :: "(string \<times> string) list"
  fr_body :: bytes

definition frame_new :: "string \<Rightarrow> frame" where
  "frame_new command = \<lparr>fr_command = command, fr_headers = [], fr_body = []\<rparr>"

fun set_header_in :: "string \<Rightarrow> string \<Rightarrow> (string \<times> string) list \<Rightarrow> (string \<times> string) list" where
  "set_header_in name value [] = [(name, value)]"
| "set_header_in name value ((k, v) # hs) =
     (if eq_ignore_ascii_case k name then (k, value) # hs else (k, v) # set_header_in name value hs)"

definition set_header :: "string \<Rightarrow> string \<Rightarrow> frame \<Rightarrow> frame" where
  "set_header name value f = f\<lparr>fr_headers := set_header_in name value (fr_headers f)\<rparr>"

definition with_header :: "string \<Rightarrow> string \<Rightarrow> frame \<Rightarrow> frame" where
  "with_header name value f = set_header name value f"

definition with_body :: "bytes \<Rightarrow> frame \<Rightarrow> frame" where
  "with_body body f = f\<lparr>fr_body := body\<rparr>"

definition header_in :: "string \<Rightarrow> (string \<times> string) list \<Rightarrow> string option" where
  "header_in name hs = map_option snd (List.find (\<lambda>(k, _). eq_ignore_ascii_case k name) hs)"

definition header :: "string \<Rightarrow> frame \<Rightarrow> string option" where
  "header name f = header_in name (fr_headers f)"

definition content_length :: "frame \<Rightarrow> usize option" where
  "content_length f = (case header ''content-length'' f of None \<Rightarrow> None | Some v \<Rightarrow> parse_usize (str_trim v))"

section \<open>Encoding\<close>

definition escape_byte :: "char \<Rightarrow> bytes" where
  "escape_byte b =
     (if b = LF then [BSLASH, CHR ''n'']
      else if b = CR then [BSLASH, CHR ''r'']
      else if b = CHR '':'' then [BSLASH, CHR ''c'']
      else if b = BSLASH then [BSLASH, BSLASH]
      else [b])"

fun encode_header :: "bytes \<Rightarrow> bytes \<Rightarrow> bytes" where
  "encode_header [] out = out"
| "encode_header (b # bs) out = encode_header bs (out @ escape_byte b)"

fun encode_headers :: "(string \<times> string) list \<Rightarrow> bytes \<Rightarrow> bytes" where
  "encode_headers [] out = out"
| "encode_headers ((name, value) # hs) out =
     encode_headers hs (encode_header value (encode_header name out @ [CHR '':'']) @ [LF])"

definition encode :: "frame \<Rightarrow> bytes" where
  "encode f = encode_headers (fr_headers f) (fr_command f @ [LF]) @ [LF] @ fr_body f @ [NUL]"

section \<open>Decoding\<close>

fun unescape :: "bytes \<Rightarrow> bytes \<Rightarrow> codec_error + string" where
  "unescape [] out = Inr out"
| "unescape (c # cs) out =
     (if c \<noteq> BSLASH then unescape cs (out @ [c])
      else case cs of
        [] \<Rightarrow> Inl TrailingEscape
      | e # cs' \<Rightarrow>
          (if e = CHR ''n'' then unescape cs' (out @ [LF])
           else if e = CHR ''r'' then unescape cs' (out @ [CR])
           else if e = CHR ''c'' then unescape cs' (out @ [CHR '':''])
           else if e = BSLASH then unescape cs' (out @ [BSLASH])
           else Inl InvalidEscape))"

definition decode_header :: "bytes \<Rightarrow> codec_error + string" where
  "decode_header bs = (if utf8_valid bs then unescape bs [] else Inl Utf8)"

definition strip_cr :: "bytes \<Rightarrow> bytes" where
  "strip_cr line = (if line \<noteq> [] \<and> last line = CR then butlast line else line)"

fun find_byte :: "bytes \<Rightarrow> char \<Rightarrow> usize option" where
  "find_byte [] needle = None"
| "find_byte (b # bs) needle = (if b = needle then Some 0 else map_option Suc (find_byte bs needle))"

lemma find_byte_less: "find_byte bs c = Some n \<Longrightarrow> n < length bs"
  by (induction bs arbitrary: n) (auto split: if_splits)

record decoder =
  dec_buf :: bytes
  dec_pos :: usize

definition decoder_new :: decoder where
  "decoder_new = \<lparr>dec_buf = [], dec_pos = 0\<rparr>"

definition push :: "bytes \<Rightarrow> decoder \<Rightarrow> decoder" where
  "push data d = d\<lparr>dec_buf := dec_buf d @ data\<rparr>"

definition pending :: "decoder \<Rightarrow> usize" where
  "pending d = length (dec_buf d) - dec_pos d"

definition compact :: "decoder \<Rightarrow> decoder" where
  "compact d =
     (if 0 < dec_pos d \<and> (dec_pos d = length (dec_buf d) \<or> 4096 \<le> dec_pos d)
      then \<lparr>dec_buf = drop (dec_pos d) (dec_buf d), dec_pos = 0\<rparr> else d)"

definition is_eol :: "char \<Rightarrow> bool" where
  "is_eol c \<longleftrightarrow> c = LF \<or> c = CR"

function skip_loop :: "bytes \<Rightarrow> usize \<Rightarrow> usize" where
  "skip_loop buf pos = (if pos < length buf \<and> is_eol (buf ! pos) then skip_loop buf (pos + 1) else pos)"
  by pat_completeness auto
termination
  by (relation "measure (\<lambda>(buf, pos). length buf - pos)") auto

declare skip_loop.simps [simp del]

definition skip_heartbeats :: "decoder \<Rightarrow> decoder" where
  "skip_heartbeats d = compact (d\<lparr>dec_pos := skip_loop (dec_buf d) (dec_pos d)\<rparr>)"

text \<open>The header lines from \<open>cursor\<close> on; \<open>Inr None\<close> when the buffer ends first.\<close>

function header_loop ::
    "bytes \<Rightarrow> usize \<Rightarrow> (string \<times> string) list \<Rightarrow> codec_error + ((string \<times> string) list \<times> usize) option" where
  "header_loop buf cursor headers =
     (case find_byte (drop cursor buf) LF of
        None \<Rightarrow> Inr None
      | Some nl \<Rightarrow>
          (let line = strip_cr (take nl (drop cursor buf)); cursor = cursor + nl + 1
           in if line = [] then Inr (Some (headers, cursor))
              else case find_byte line (CHR '':'') of
                None \<Rightarrow> Inl MissingHeaderValue
              | Some colon \<Rightarrow>
                  (case decode_header (take colon line) of
                     Inl e \<Rightarrow> Inl e
                   | Inr name \<Rightarrow>
                       (case decode_header (drop (colon + 1) line) of
                          Inl e \<Rightarrow> Inl e
                        | Inr value \<Rightarrow> header_loop buf cursor (headers @ [(name, value)])))))"
  by pat_completeness auto
termination
  by (relation "measure (\<lambda>(buf, cursor, headers). length buf - cursor)") (auto dest!: find_byte_less)

declare header_loop.simps [simp del]

text \<open>A single end of line before the NULL is not part of the body.\<close>

definition trimmed_end :: "bytes \<Rightarrow> usize \<Rightarrow> usize \<Rightarrow> usize" where
  "trimmed_end buf cursor body_end =
     (if cursor < body_end \<and> buf ! (body_end - 1) = LF
      then let trimmed = body_end - 1
           in if cursor < trimmed \<and> buf ! (trimmed - 1) = CR then trimmed - 1 else trimmed
      else body_end)"

definition byte_slice :: "bytes \<Rightarrow> usize \<Rightarrow> usize \<Rightarrow> bytes outcome" where
  "byte_slice buf i j = (if i \<le> j \<and> j \<le> length buf then Returns (take (j - i) (drop i buf)) else Panics)"

definition header_length :: "(string \<times> string) list \<Rightarrow> usize option" where
  "header_length headers =
     (case header_in ''content-length'' headers of None \<Rightarrow> None | Some v \<Rightarrow> parse_usize (str_trim v))"

definition take_body ::
    "bytes \<Rightarrow> usize \<Rightarrow> (string \<times> string) list \<Rightarrow> (codec_error + (bytes \<times> usize) option) outcome" where
  "take_body buf cursor headers =
     (case header_length headers of
        Some len \<Rightarrow>
          (let body_end = (cursor + len) mod 2 ^ 64
           in if length buf \<le> body_end then Returns (Inr None)
              else if buf ! body_end \<noteq> NUL then Returns (Inl MissingNull)
              else case byte_slice buf cursor body_end of
                Panics \<Rightarrow> Panics
              | Returns body \<Rightarrow> Returns (Inr (Some (body, body_end + 1))))
      | None \<Rightarrow>
          (case find_byte (drop cursor buf) NUL of
             None \<Rightarrow> Returns (Inr None)
           | Some null_off \<Rightarrow>
               (let body_end = cursor + null_off
                in case byte_slice buf cursor (trimmed_end buf cursor body_end) of
                     Panics \<Rightarrow> Panics
                   | Returns body \<Rightarrow> Returns (Inr (Some (body, body_end + 1))))))"

lemma skip_loop_ge: "pos \<le> skip_loop buf pos"
  by (induction buf pos rule: skip_loop.induct) (subst skip_loop.simps, auto)

lemma pending_compact [simp]: "pending (compact d) = pending d"
  by (simp add: pending_def compact_def)

lemma pending_skip: "pending (skip_heartbeats d) \<le> pending d"
  using skip_loop_ge[of "dec_pos d" "dec_buf d"] by (simp add: skip_heartbeats_def) (simp add: pending_def)

function next_frame :: "decoder \<Rightarrow> (decoder \<times> (codec_error + frame option)) outcome" where
  "next_frame d\<^sub>0 =
     (let d = skip_heartbeats d\<^sub>0
      in case find_byte (drop (dec_pos d) (dec_buf d)) LF of
           None \<Rightarrow> Returns (d, Inr None)
         | Some nl \<Rightarrow>
             (let cmd_line = strip_cr (take nl (drop (dec_pos d) (dec_buf d)))
              in if cmd_line = [] then next_frame (d\<lparr>dec_pos := dec_pos d + nl + 1\<rparr>)
                 else if \<not> utf8_valid cmd_line then Returns (d, Inl Utf8)
                 else case header_loop (dec_buf d) (dec_pos d + nl + 1) [] of
                   Inl e \<Rightarrow> Returns (d, Inl e)
                 | Inr None \<Rightarrow> Returns (d, Inr None)
                 | Inr (Some (headers, cursor)) \<Rightarrow>
                     (case take_body (dec_buf d) cursor headers of
                        Panics \<Rightarrow> Panics
                      | Returns (Inl e) \<Rightarrow> Returns (d, Inl e)
                      | Returns (Inr None) \<Rightarrow> Returns (d, Inr None)
                      | Returns (Inr (Some (body, end_pos))) \<Rightarrow>
                          Returns (compact (d\<lparr>dec_pos := end_pos\<rparr>),
                            Inr (Some \<lparr>fr_command = str_trim cmd_line, fr_headers = headers, fr_body = body\<rparr>)))))"
  by pat_completeness auto
termination
proof (relation "measure pending")
  fix d\<^sub>0 d nl cmd_line
  assume "d = skip_heartbeats d\<^sub>0" "find_byte (drop (dec_pos d) (dec_buf d)) LF = Some nl"
  then show "(d\<lparr>dec_pos := dec_pos d + nl + 1\<rparr>, d\<^sub>0) \<in> measure pending"
    using pending_skip[of d\<^sub>0] find_byte_less[of "drop (dec_pos d) (dec_buf d)" LF nl] by (simp add: pending_def)
qed simp

declare next_frame.simps [simp del]

section \<open>The reference parser\<close>

datatype 'a parsed = Incomplete | Malformed codec_error | Oversized | Parsed 'a bytes

definition trim_eol :: "bytes \<Rightarrow> bytes" where
  "trim_eol body = (if body \<noteq> [] \<and> last body = LF then strip_cr (butlast body) else body)"

lemma split_once_find: "split_once c bs = map_option (\<lambda>n. (take n bs, drop (Suc n) bs)) (find_byte bs c)"
  by (induction bs) (auto split: option.splits)

function parse_headers ::
    "bytes \<Rightarrow> (string \<times> string) list \<Rightarrow> codec_error + ((string \<times> string) list \<times> bytes) option" where
  "parse_headers bs headers =
     (case split_once LF bs of
        None \<Rightarrow> Inr None
      | Some (raw, rest) \<Rightarrow>
          (let line = strip_cr raw
           in if line = [] then Inr (Some (headers, rest))
              else case split_once (CHR '':'') line of
                None \<Rightarrow> Inl MissingHeaderValue
              | Some (n, v) \<Rightarrow>
                  (case decode_header n of
                     Inl e \<Rightarrow> Inl e
                   | Inr name \<Rightarrow>
                       (case decode_header v of
                          Inl e \<Rightarrow> Inl e
                        | Inr value \<Rightarrow> parse_headers rest (headers @ [(name, value)])))))"
  by pat_completeness auto
termination
  by (relation "measure (\<lambda>(bs, headers). length bs)") (auto dest: split_once_Some)

declare parse_headers.simps [simp del]

definition parse_body :: "(string \<times> string) list \<Rightarrow> bytes \<Rightarrow> bytes parsed" where
  "parse_body headers bs =
     (case header_length headers of
        Some len \<Rightarrow>
          (if 2 ^ 63 \<le> len then Oversized
           else if length bs \<le> len then Incomplete
           else if bs ! len \<noteq> NUL then Malformed MissingNull
           else Parsed (take len bs) (drop (Suc len) bs))
      | None \<Rightarrow> (case split_once NUL bs of None \<Rightarrow> Incomplete | Some (raw, rest) \<Rightarrow> Parsed (trim_eol raw) rest))"

definition parse_frame :: "bytes \<Rightarrow> frame parsed" where
  "parse_frame bs =
     (case split_once LF (dropWhile is_eol bs) of
        None \<Rightarrow> Incomplete
      | Some (raw, rest) \<Rightarrow>
          (if \<not> utf8_valid (strip_cr raw) then Malformed Utf8
           else case parse_headers rest [] of
             Inl e \<Rightarrow> Malformed e
           | Inr None \<Rightarrow> Incomplete
           | Inr (Some (headers, rest)) \<Rightarrow>
               (case parse_body headers rest of
                  Incomplete \<Rightarrow> Incomplete
                | Malformed e \<Rightarrow> Malformed e
                | Oversized \<Rightarrow> Oversized
                | Parsed body rest \<Rightarrow>
                    Parsed \<lparr>fr_command = str_trim (strip_cr raw), fr_headers = headers, fr_body = body\<rparr> rest)))"

section \<open>The decoder implements it\<close>

definition unread :: "decoder \<Rightarrow> bytes" where
  "unread d = drop (dec_pos d) (dec_buf d)"

text \<open>The position stays inside the buffer, and less than 4096 consumed bytes are kept.\<close>

definition dec_inv :: "decoder \<Rightarrow> bool" where
  "dec_inv d \<longleftrightarrow> dec_pos d = 0 \<or> dec_pos d < length (dec_buf d) \<and> dec_pos d < 4096"

lemma dec_inv_new [simp]: "dec_inv decoder_new" "unread decoder_new = []"
  by (simp_all add: dec_inv_def decoder_new_def unread_def)

lemma dec_inv_push [simp]: "dec_inv d \<Longrightarrow> dec_inv (push data d)"
  by (auto simp: dec_inv_def push_def)

lemma unread_push [simp]: "dec_inv d \<Longrightarrow> unread (push data d) = unread d @ data"
  by (auto simp: dec_inv_def push_def unread_def)

lemma unread_compact [simp]: "unread (compact d) = unread d"
  by (simp add: compact_def unread_def)

lemma dec_inv_compact: "dec_pos d \<le> length (dec_buf d) \<Longrightarrow> dec_inv (compact d)"
  by (auto simp: compact_def dec_inv_def)

lemma pending_unread: "pending d = length (unread d)"
  by (simp add: pending_def unread_def)

lemma buf_compact: "length (dec_buf (compact d)) \<le> length (dec_buf d)"
  by (simp add: compact_def)

lemma skip_loop_drop: "pos \<le> length buf \<Longrightarrow> skip_loop buf pos \<le> length buf \<and> drop (skip_loop buf pos) buf = dropWhile is_eol (drop pos buf)"
proof (induction buf pos rule: skip_loop.induct)
  case (1 buf pos)
  show ?case
  proof (cases "pos < length buf \<and> is_eol (buf ! pos)")
    case True
    then have "drop pos buf = buf ! pos # drop (pos + 1) buf" using Cons_nth_drop_Suc[of pos buf] by simp
    with True 1 show ?thesis by (subst (1 2) skip_loop.simps) simp
  next
    case False
    then have "dropWhile is_eol (drop pos buf) = drop pos buf"
      by (cases "pos < length buf") (simp_all flip: Cons_nth_drop_Suc)
    with False 1(2) show ?thesis by (subst (1 2) skip_loop.simps) auto
  qed
qed

lemma skip_heartbeats_facts:
  assumes "dec_inv d"
  shows "dec_inv (skip_heartbeats d)" "unread (skip_heartbeats d) = dropWhile is_eol (unread d)"
    "length (dec_buf (skip_heartbeats d)) \<le> length (dec_buf d)"
proof -
  have "dec_pos d \<le> length (dec_buf d)" using assms by (auto simp: dec_inv_def)
  note s = skip_loop_drop[OF this]
  show "dec_inv (skip_heartbeats d)" unfolding skip_heartbeats_def by (rule dec_inv_compact) (use s in simp)
  show "unread (skip_heartbeats d) = dropWhile is_eol (unread d)"
    unfolding skip_heartbeats_def unread_compact using s by (simp add: unread_def)
  show "length (dec_buf (skip_heartbeats d)) \<le> length (dec_buf d)"
    unfolding skip_heartbeats_def using buf_compact[of "d\<lparr>dec_pos := skip_loop (dec_buf d) (dec_pos d)\<rparr>"] by simp
qed

lemma header_loop_parse:
  assumes "cursor \<le> length buf"
  shows "case header_loop buf cursor hs of
      Inl e \<Rightarrow> parse_headers (drop cursor buf) hs = Inl e
    | Inr None \<Rightarrow> parse_headers (drop cursor buf) hs = Inr None
    | Inr (Some (h, c)) \<Rightarrow> parse_headers (drop cursor buf) hs = Inr (Some (h, drop c buf)) \<and> c \<le> length buf"
  using assms
proof (induction buf cursor hs rule: header_loop.induct)
  case (1 buf cursor hs)
  show ?case
  proof (cases "find_byte (drop cursor buf) LF")
    case None
    then show ?thesis by (subst header_loop.simps, subst (1 2 3) parse_headers.simps) (simp add: split_once_find)
  next
    case (Some nl)
    let ?c = "cursor + nl + 1" and ?line = "strip_cr (take nl (drop cursor buf))"
    have c: "?c \<le> length buf" using find_byte_less[OF Some] by simp
    have s: "split_once LF (drop cursor buf) = Some (take nl (drop cursor buf), drop ?c buf)"
      using Some by (simp add: split_once_find add.commute)
    show ?thesis
    proof (cases "?line = []")
      case True
      then show ?thesis using Some s c by (subst header_loop.simps, subst (1 2 3) parse_headers.simps) simp
    next
      case False
      show ?thesis
      proof (cases "find_byte ?line (CHR '':'')")
        case None
        then show ?thesis using Some s False
          by (subst header_loop.simps, subst (1 2 3) parse_headers.simps) (simp add: split_once_find Let_def)
      next
        case colon: (Some k)
        show ?thesis
        proof (cases "decode_header (take k ?line)")
          case (Inl e)
          then show ?thesis using Some s False colon
            by (subst header_loop.simps, subst (1 2 3) parse_headers.simps) (simp add: split_once_find[of "CHR '':''"] Let_def)
        next
          case name: (Inr name)
          show ?thesis
          proof (cases "decode_header (drop (k + 1) ?line)")
            case (Inl e)
            then show ?thesis using Some s False colon name
              by (subst header_loop.simps, subst (1 2 3) parse_headers.simps) (simp add: split_once_find[of "CHR '':''"] Let_def)
          next
            case (Inr val)
            note ih = 1(1)[OF Some refl refl False colon name Inr c]
            have h: "header_loop buf cursor hs = header_loop buf ?c (hs @ [(name, val)])"
              using Some False colon name Inr by (subst header_loop.simps) (simp add: Let_def)
            have p: "parse_headers (drop cursor buf) hs = parse_headers (drop ?c buf) (hs @ [(name, val)])"
              using s False colon name Inr
              by (subst parse_headers.simps) (simp add: split_once_find[of "CHR '':''"] Let_def)
            show ?thesis unfolding h p by (rule ih)
          qed
        qed
      qed
    qed
  qed
qed

lemma trimmed_end_trim:
  assumes "cursor \<le> body_end" and "body_end \<le> length buf"
  shows "byte_slice buf cursor (trimmed_end buf cursor body_end) = Returns (trim_eol (take (body_end - cursor) (drop cursor buf)))"
proof -
  let ?b = "\<lambda>j. take (j - cursor) (drop cursor buf)"
  have ne: "?b j \<noteq> [] \<longleftrightarrow> cursor < j" if "cursor \<le> j" "j \<le> length buf" for j using that by auto
  have l: "last (?b j) = buf ! (j - 1)" if "cursor < j" "j \<le> length buf" for j
  proof -
    have "last (?b j) = ?b j ! (j - cursor - 1)" using that by (subst last_conv_nth) auto
    also have "\<dots> = buf ! (j - 1)" using that by simp
    finally show ?thesis .
  qed
  have bl: "butlast (?b j) = ?b (j - 1)" if "cursor < j" "j \<le> length buf" for j
    using that by (simp add: butlast_take)
  show ?thesis
  proof (cases "cursor < body_end \<and> buf ! (body_end - 1) = LF")
    case True
    then have "trim_eol (?b body_end) = strip_cr (?b (body_end - 1))"
      using ne l bl assms by (simp add: trim_eol_def)
    moreover have "byte_slice buf cursor (trimmed_end buf cursor body_end) = Returns (strip_cr (?b (body_end - 1)))"
      using True ne[of "body_end - 1"] l[of "body_end - 1"] bl[of "body_end - 1"] assms
      by (auto simp: trimmed_end_def byte_slice_def strip_cr_def Let_def)
    ultimately show ?thesis by simp
  next
    case False
    then have "trim_eol (?b body_end) = ?b body_end" using ne[of body_end] l[of body_end] assms by (auto simp: trim_eol_def)
    then show ?thesis using False assms by (auto simp: trimmed_end_def byte_slice_def)
  qed
qed

lemma take_body_parse:
  assumes "cursor \<le> length buf" and "length buf < 2 ^ 63"
  shows "case parse_body headers (drop cursor buf) of
      Oversized \<Rightarrow> True
    | Incomplete \<Rightarrow> take_body buf cursor headers = Returns (Inr None)
    | Malformed e \<Rightarrow> take_body buf cursor headers = Returns (Inl e)
    | Parsed b r \<Rightarrow> \<exists>c. take_body buf cursor headers = Returns (Inr (Some (b, c))) \<and> r = drop c buf \<and> c \<le> length buf"
proof (cases "header_length headers")
  case None
  show ?thesis
  proof (cases "find_byte (drop cursor buf) NUL")
    case n: (Some k)
    have "k < length buf - cursor" using find_byte_less[OF n] by simp
    then show ?thesis
      using None n trimmed_end_trim[of cursor "cursor + k" buf]
      by (simp add: parse_body_def take_body_def split_once_find Let_def add.commute)
  qed (use None in \<open>simp add: parse_body_def take_body_def split_once_find\<close>)
next
  case (Some len)
  show ?thesis
  proof (cases "2 ^ 63 \<le> len")
    case False
    then have m: "(cursor + len) mod 2 ^ 64 = cursor + len" using assms by simp
    have l: "length (drop cursor buf) \<le> len \<longleftrightarrow> length buf \<le> cursor + len" using assms(1) by auto
    have n: "drop cursor buf ! len = buf ! (cursor + len)" using assms(1) by (rule nth_drop)
    have t: "byte_slice buf cursor (cursor + len) = Returns (take len (drop cursor buf))" if "\<not> length buf \<le> cursor + len"
      using that by (simp add: byte_slice_def)
    have k: "\<not> length buf \<le> cursor + len \<Longrightarrow> Suc (cursor + len) \<le> length buf" by simp
    show ?thesis
      unfolding parse_body_def take_body_def Some option.case m Let_def l n
      using False t k by (auto simp: add.commute simp del: nth_drop length_drop)
  qed (use Some in \<open>simp add: parse_body_def\<close>)
qed

lemma strip_cr_command: "\<not> is_eol (hd bs) \<Longrightarrow> split_once LF bs = Some (raw, rest) \<Longrightarrow> strip_cr raw \<noteq> []"
  by (cases raw) (auto simp: is_eol_def strip_cr_def dest!: split_once_Some)

lemma hd_dropWhile_eol: "split_once c (dropWhile is_eol bs) = Some x \<Longrightarrow> \<not> is_eol (hd (dropWhile is_eol bs))"
  using hd_dropWhile[of is_eol bs] by (cases "dropWhile is_eol bs") auto

lemma next_frame_parse:
  assumes "dec_inv d" and "length (dec_buf d) < 2 ^ 63"
  shows "case parse_frame (unread d) of
      Oversized \<Rightarrow> True
    | Incomplete \<Rightarrow> next_frame d = Returns (skip_heartbeats d, Inr None)
    | Malformed e \<Rightarrow> next_frame d = Returns (skip_heartbeats d, Inl e)
    | Parsed f r \<Rightarrow> \<exists>d'. next_frame d = Returns (d', Inr (Some f)) \<and> dec_inv d' \<and> unread d' = r \<and>
                       length (dec_buf d') \<le> length (dec_buf d)"
proof -
  define s where "s = skip_heartbeats d"
  note sf = skip_heartbeats_facts[OF assms(1), folded s_def]
  have len: "dec_pos s \<le> length (dec_buf s)" "length (dec_buf s) < 2 ^ 63"
    using sf assms(2) by (auto simp: dec_inv_def)
  have u: "dropWhile is_eol (unread d) = drop (dec_pos s) (dec_buf s)" using sf(2) by (simp add: unread_def)
  show ?thesis
  proof (cases "find_byte (drop (dec_pos s) (dec_buf s)) LF")
    case None
    then show ?thesis by (subst next_frame.simps) (simp add: parse_frame_def u split_once_find flip: s_def)
  next
    case (Some nl)
    let ?raw = "take nl (drop (dec_pos s) (dec_buf s))" and ?c = "dec_pos s + nl + 1"
    have c: "?c \<le> length (dec_buf s)" using find_byte_less[OF Some] by simp
    have so: "split_once LF (drop (dec_pos s) (dec_buf s)) = Some (?raw, drop ?c (dec_buf s))"
      using Some by (simp add: split_once_find add.commute)
    have ne: "strip_cr ?raw \<noteq> []"
      using strip_cr_command[OF _ so] hd_dropWhile_eol[of LF "unread d"] u so by auto
    have nf: "next_frame d =
        (if \<not> utf8_valid (strip_cr ?raw) then Returns (s, Inl Utf8)
         else case header_loop (dec_buf s) ?c [] of
           Inl e \<Rightarrow> Returns (s, Inl e)
         | Inr None \<Rightarrow> Returns (s, Inr None)
         | Inr (Some (headers, cursor)) \<Rightarrow>
             (case take_body (dec_buf s) cursor headers of
                Panics \<Rightarrow> Panics
              | Returns (Inl e) \<Rightarrow> Returns (s, Inl e)
              | Returns (Inr None) \<Rightarrow> Returns (s, Inr None)
              | Returns (Inr (Some (body, end_pos))) \<Rightarrow>
                  Returns (compact (s\<lparr>dec_pos := end_pos\<rparr>),
                    Inr (Some \<lparr>fr_command = str_trim (strip_cr ?raw), fr_headers = headers, fr_body = body\<rparr>))))"
      using Some ne by (subst next_frame.simps) (simp add: Let_def flip: s_def)
    have fin: "dec_inv (compact (s\<lparr>dec_pos := p\<rparr>)) \<and> unread (compact (s\<lparr>dec_pos := p\<rparr>)) = drop p (dec_buf s) \<and>
        length (dec_buf (compact (s\<lparr>dec_pos := p\<rparr>))) \<le> length (dec_buf d)" if "p \<le> length (dec_buf s)" for p
      using that dec_inv_compact[of "s\<lparr>dec_pos := p\<rparr>"] buf_compact[of "s\<lparr>dec_pos := p\<rparr>"] sf(3)
      by (simp add: unread_compact) (simp add: unread_def)
    show ?thesis
    proof (cases "header_loop (dec_buf s) ?c []")
      case (Inl e)
      then show ?thesis
        using nf header_loop_parse[OF c, of "[]"] by (simp add: parse_frame_def u so flip: s_def)
    next
      case h: (Inr o')
      show ?thesis
      proof (cases o')
        case None
        then show ?thesis
          using nf h header_loop_parse[OF c, of "[]"] by (simp add: parse_frame_def u so flip: s_def)
      next
        case o: (Some x)
        obtain headers cursor where x: "x = (headers, cursor)" by (cases x)
        have hp: "parse_headers (drop ?c (dec_buf s)) [] = Inr (Some (headers, drop cursor (dec_buf s)))" "cursor \<le> length (dec_buf s)"
          using header_loop_parse[OF c, of "[]"] h o x by simp_all
        note tb = take_body_parse[OF hp(2) len(2), of headers]
        show ?thesis
        proof (cases "utf8_valid (strip_cr ?raw)")
          case True
          with tb hp(1) nf h o x show ?thesis
            by (cases "parse_body headers (drop cursor (dec_buf s))")
              (use fin in \<open>auto simp: parse_frame_def u so simp flip: s_def\<close>)
        qed (use nf in \<open>simp add: parse_frame_def u so flip: s_def\<close>)
      qed
    qed
  qed
qed

section \<open>More bytes do not change what was parsed\<close>

lemma split_once_app: "split_once c a = Some (x, y) \<Longrightarrow> split_once c (a @ b) = Some (x, y @ b)"
  using split_once_Some[of c a x y] split_once_append[of c x "y @ b"] by auto

lemma parse_headers_app:
  "case parse_headers bs hs of
     Inl e \<Rightarrow> parse_headers (bs @ x) hs = Inl e
   | Inr None \<Rightarrow> True
   | Inr (Some (h, r)) \<Rightarrow> parse_headers (bs @ x) hs = Inr (Some (h, r @ x))"
proof (induction bs hs rule: parse_headers.induct)
  case (1 bs hs)
  show ?case
  proof (cases "split_once LF bs")
    case None
    then show ?thesis by (simp add: parse_headers.simps[of bs])
  next
    case (Some p)
    obtain raw rest where p: "p = (raw, rest)" by (cases p)
    note so = Some[unfolded p] split_once_app[OF Some[unfolded p], of x]
    show ?thesis
    proof (cases "\<exists>n v name val. strip_cr raw \<noteq> [] \<and> split_once (CHR '':'') (strip_cr raw) = Some (n, v) \<and>
        decode_header n = Inr name \<and> decode_header v = Inr val")
      case True
      then obtain n v name val where l: "strip_cr raw \<noteq> []" "split_once (CHR '':'') (strip_cr raw) = Some (n, v)"
        "decode_header n = Inr name" "decode_header v = Inr val" by blast
      have "parse_headers bs hs = parse_headers rest (hs @ [(name, val)])"
        "parse_headers (bs @ x) hs = parse_headers (rest @ x) (hs @ [(name, val)])"
        using so l by (simp_all add: parse_headers.simps[of bs] parse_headers.simps[of "bs @ x"] Let_def)
      then show ?thesis using 1[OF Some p[symmetric] refl l(1,2) refl l(3,4)] by (simp only:)
    next
      case False
      then show ?thesis using so
        by (auto simp: parse_headers.simps[of bs] parse_headers.simps[of "bs @ x"] Let_def split: option.splits sum.splits)
    qed
  qed
qed

lemma parse_body_app:
  "case parse_body hs bs of
     Incomplete \<Rightarrow> True
   | Malformed e \<Rightarrow> parse_body hs (bs @ x) = Malformed e
   | Oversized \<Rightarrow> parse_body hs (bs @ x) = Oversized
   | Parsed b r \<Rightarrow> parse_body hs (bs @ x) = Parsed b (r @ x)"
  using split_once_app[of NUL bs _ _ x]
  by (auto simp: parse_body_def nth_append split: option.splits)

lemma dropWhile_eol_app: "dropWhile is_eol (dropWhile is_eol bs @ x) = dropWhile is_eol (bs @ x)"
  by (induction bs) auto

lemma parse_frame_eol: "parse_frame (dropWhile is_eol bs @ x) = parse_frame (bs @ x)"
  by (simp add: parse_frame_def dropWhile_eol_app)

lemma parse_frame_app:
  "case parse_frame bs of
     Incomplete \<Rightarrow> True
   | Malformed e \<Rightarrow> parse_frame (bs @ x) = Malformed e
   | Oversized \<Rightarrow> parse_frame (bs @ x) = Oversized
   | Parsed f r \<Rightarrow> parse_frame (bs @ x) = Parsed f (r @ x)"
proof (cases "split_once LF (dropWhile is_eol bs)")
  case None
  then show ?thesis by (simp add: parse_frame_def)
next
  case (Some p)
  obtain raw rest where p: "p = (raw, rest)" by (cases p)
  have "dropWhile is_eol bs \<noteq> []" using Some split_once.simps(1)[of LF] by (metis option.distinct(1))
  then have d: "dropWhile is_eol (bs @ x) = dropWhile is_eol bs @ x"
    by (metis dropWhile_append1 dropWhile_eq_Nil_conv)
  note so = Some[unfolded p] split_once_app[OF Some[unfolded p], of x, folded d]
  note ph = parse_headers_app[where bs = rest and hs = "[]" and x = x]
  show ?thesis
  proof (cases "\<exists>h r. parse_headers rest [] = Inr (Some (h, r))")
    case True
    then obtain h r where h: "parse_headers rest [] = Inr (Some (h, r))" by blast
    with ph have h': "parse_headers (rest @ x) [] = Inr (Some (h, r @ x))" by simp
    show ?thesis
      using so h h' parse_body_app[where hs = h and bs = r and x = x]
      by (cases "parse_body h r") (simp_all add: parse_frame_def)
  next
    case False
    then show ?thesis using so ph by (auto simp: parse_frame_def split: sum.splits option.splits)
  qed
qed

lemma parse_body_shorter: "parse_body hs bs = Parsed b r \<Longrightarrow> length r < length bs"
  by (auto simp: parse_body_def split: option.splits if_splits dest!: split_once_Some)

section \<open>Encoded frames\<close>

definition escaped :: "bytes \<Rightarrow> bytes" where
  "escaped bs = concat (map escape_byte bs)"

definition header_line :: "string \<times> string \<Rightarrow> bytes" where
  "header_line h = escaped (fst h) @ [CHR '':''] @ escaped (snd h) @ [LF]"

lemma encode_header_escaped [simp]: "encode_header bs out = out @ escaped bs"
  by (induction bs arbitrary: out) (simp_all add: escaped_def)

lemma encode_headers_lines [simp]: "encode_headers hs out = out @ concat (map header_line hs)"
  by (induction hs out rule: encode_headers.induct) (simp_all add: header_line_def)

lemma unescape_escaped: "unescape (escaped bs) out = Inr (out @ bs)"
  by (induction bs arbitrary: out) (auto simp: escaped_def escape_byte_def)

lemma escaped_clean: "LF \<notin> set (escaped bs)" "CR \<notin> set (escaped bs)" "CHR '':'' \<notin> set (escaped bs)"
  by (auto simp: escaped_def escape_byte_def split: if_splits)

lemma utf8_escaped: "utf8_valid bs \<Longrightarrow> utf8_valid (escaped bs)"
proof (induction bs rule: utf8_valid_induct)
  case (ascii a s)
  then show ?case by (simp add: escaped_def escape_byte_def utf8_valid_ascii)
next
  case (wide c s)
  have "escape_byte x = [x]" if "x \<in> set c" for x using wide(2) that by (auto simp: escape_byte_def)
  then have "escaped (c @ s) = c @ escaped s" by (simp add: escaped_def concat_map_singleton cong: map_cong)
  then show ?case using wide(3,5) by simp
qed (simp add: escaped_def)

lemma decode_escaped: "utf8_valid bs \<Longrightarrow> decode_header (escaped bs) = Inr bs"
  by (simp add: decode_header_def utf8_escaped unescape_escaped)

definition utf8_headers :: "(string \<times> string) list \<Rightarrow> bool" where
  "utf8_headers hs \<longleftrightarrow> list_all (\<lambda>(k, v). utf8_valid k \<and> utf8_valid v) hs"

lemma parse_header_lines:
  "utf8_headers hs \<Longrightarrow> parse_headers (concat (map header_line hs) @ LF # r) acc = Inr (Some (acc @ hs, r))"
proof (induction hs arbitrary: acc)
  case Nil
  then show ?case by (subst parse_headers.simps) (simp add: strip_cr_def)
next
  case (Cons h hs)
  obtain k v where h: "h = (k, v)" by (cases h)
  let ?l = "escaped k @ CHR '':'' # escaped v" and ?rest = "concat (map header_line hs) @ LF # r"
  have l: "concat (map header_line (h # hs)) @ LF # r = ?l @ LF # ?rest" by (simp add: h header_line_def)
  have s: "split_once LF (?l @ LF # ?rest) = Some (?l, ?rest)" by (rule split_once_append) (simp add: escaped_clean)
  have "CR \<notin> set ?l" by (simp add: escaped_clean)
  then have c: "strip_cr ?l = ?l" unfolding strip_cr_def using last_in_set[of ?l] by metis
  have k: "split_once (CHR '':'') ?l = Some (escaped k, escaped v)" by (rule split_once_append) (simp add: escaped_clean)
  show ?case
    unfolding l parse_headers.simps[of "?l @ LF # ?rest"] s option.case prod.case c Let_def k
    using Cons h by (simp add: decode_escaped utf8_headers_def)
qed

section \<open>Round trip\<close>

definition ascii_graphic :: "char \<Rightarrow> bool" where
  "ascii_graphic c \<longleftrightarrow> 33 \<le> byte c \<and> byte c \<le> 126"

lemma utf8_chars_plain: "list_all (\<lambda>c. \<not> utf8_cont c) s \<Longrightarrow> utf8_chars s = map (\<lambda>c. [c]) s"
proof (induction s)
  case (Cons c s)
  then have "takeWhile utf8_cont s = []" "dropWhile utf8_cont s = s" by (cases s; simp)+
  with Cons show ?case by simp
qed simp

lemma str_trim_graphic: "list_all ascii_graphic s \<Longrightarrow> str_trim s = s"
proof -
  assume g: "list_all ascii_graphic s"
  have c: "utf8_chars s = map (\<lambda>c. [c]) s"
    by (rule utf8_chars_plain) (use g in \<open>auto simp: list_all_iff ascii_graphic_def utf8_cont_def\<close>)
  have w: "\<not> is_white_space x" if "x \<in> set (map (\<lambda>c. [c]) s)" for x
    using that g by (auto simp: list_all_iff is_white_space_def utf8_white_space_def ascii_graphic_def)
  have d: "dropWhile is_white_space xs = xs" if "\<forall>x\<in>set xs. \<not> is_white_space x" for xs
    using that by (cases xs) auto
  show ?thesis using w by (simp add: str_trim_def c d concat_map_singleton del: set_map map_map)
qed

text \<open>
  The frames the encoder can transmit: a command of printable characters, header names and
  values that are strings, and a body that \<open>content-length\<close> announces or that holds no NULL
  and does not end in a line feed.
\<close>

definition wf_frame :: "frame \<Rightarrow> bool" where
  "wf_frame f \<longleftrightarrow> fr_command f \<noteq> [] \<and> list_all ascii_graphic (fr_command f) \<and> utf8_headers (fr_headers f) \<and>
     (case content_length f of
        Some n \<Rightarrow> n = length (fr_body f) \<and> n < 2 ^ 63
      | None \<Rightarrow> NUL \<notin> set (fr_body f) \<and> (fr_body f = [] \<or> last (fr_body f) \<noteq> LF))"

lemma content_length_header: "content_length f = header_length (fr_headers f)"
  by (simp add: content_length_def header_def header_length_def)

lemma parse_frame_encode: "wf_frame f \<Longrightarrow> parse_frame (encode f @ r) = Parsed f r"
proof -
  assume w: "wf_frame f"
  let ?c = "fr_command f"
  have g: "list_all ascii_graphic ?c" "?c \<noteq> []" using w by (simp_all add: wf_frame_def)
  have e: "encode f @ r = ?c @ LF # (concat (map header_line (fr_headers f)) @ LF # (fr_body f @ NUL # r))"
    by (simp add: encode_def)
  have eol: "\<not> is_eol x" "x \<noteq> LF" "x \<noteq> CR" "byte x < 128" if "x \<in> set ?c" for x
    using that g(1) by (auto simp: list_all_iff ascii_graphic_def is_eol_def)
  have d: "dropWhile is_eol (?c @ t) = ?c @ t" for t using g(2) eol(1) by (cases ?c) auto
  have s: "split_once LF (?c @ LF # t) = Some (?c, t)" for t by (rule split_once_append) (use eol(2) in auto)
  have cr: "strip_cr ?c = ?c" using eol(3)[of "last ?c"] g(2) by (auto simp: strip_cr_def)
  have u: "utf8_valid ?c" by (rule utf8_valid_all_ascii) (use eol(4) in \<open>simp add: list_all_iff\<close>)
  have h: "parse_headers (concat (map header_line (fr_headers f)) @ LF # t) [] = Inr (Some (fr_headers f, t))" for t
    using parse_header_lines[of "fr_headers f" t "[]"] w by (simp add: wf_frame_def)
  have b: "parse_body (fr_headers f) (fr_body f @ NUL # r) = Parsed (fr_body f) r"
  proof (cases "content_length f")
    case None
    then have nb: "NUL \<notin> set (fr_body f)" "trim_eol (fr_body f) = fr_body f"
      using w by (auto simp: wf_frame_def trim_eol_def)
    then show ?thesis
      using None split_once_append[OF nb(1), of r] by (simp add: parse_body_def content_length_header)
  next
    case (Some n)
    then show ?thesis using w by (simp add: wf_frame_def parse_body_def content_length_header nth_append)
  qed
  show ?thesis unfolding e parse_frame_def d s by (simp add: cr u h b str_trim_graphic[OF g(1)])
qed

definition decode_first :: "bytes \<Rightarrow> (frame \<times> bytes) option" where
  "decode_first bs = (case parse_frame bs of Parsed f r \<Rightarrow> Some (f, r) | _ \<Rightarrow> None)"

interpretation stomp: stream_codec encode decode_first wf_frame
  by unfold_locales (simp add: decode_first_def parse_frame_encode)

section \<open>Any use of the decoder\<close>

datatype dec_op = Push bytes | Pull

fun dec_run :: "decoder \<Rightarrow> dec_op list \<Rightarrow> (decoder \<times> (codec_error + frame option) list) outcome" where
  "dec_run d [] = Returns (d, [])"
| "dec_run d (Push data # ops) = dec_run (push data d) ops"
| "dec_run d (Pull # ops) =
     (case next_frame d of
        Panics \<Rightarrow> Panics
      | Returns (d', out) \<Rightarrow>
          (case dec_run d' ops of Panics \<Rightarrow> Panics | Returns (d'', outs) \<Rightarrow> Returns (d'', out # outs)))"

text \<open>The same on plain bytes; \<open>None\<close> once a frame announces a body of \<open>2 ^ 63\<close> bytes or more.\<close>

fun ref_run :: "bytes \<Rightarrow> dec_op list \<Rightarrow> (bytes \<times> (codec_error + frame option) list) option" where
  "ref_run bs [] = Some (bs, [])"
| "ref_run bs (Push data # ops) = ref_run (bs @ data) ops"
| "ref_run bs (Pull # ops) =
     (case parse_frame bs of
        Oversized \<Rightarrow> None
      | Incomplete \<Rightarrow> map_option (\<lambda>(r, outs). (r, Inr None # outs)) (ref_run (dropWhile is_eol bs) ops)
      | Malformed e \<Rightarrow> map_option (\<lambda>(r, outs). (r, Inl e # outs)) (ref_run (dropWhile is_eol bs) ops)
      | Parsed f rest \<Rightarrow> map_option (\<lambda>(r, outs). (r, Inr (Some f) # outs)) (ref_run rest ops))"

definition pushed :: "dec_op list \<Rightarrow> bytes" where
  "pushed ops = concat (map (\<lambda>op. case op of Push data \<Rightarrow> data | Pull \<Rightarrow> []) ops)"

lemma pushed_simps [simp]: "pushed [] = []" "pushed (Push data # ops) = data @ pushed ops" "pushed (Pull # ops) = pushed ops"
  by (simp_all add: pushed_def)

lemma dec_run_ref:
  assumes "ref_run (unread d) ops = Some (r, outs)" and "dec_inv d" and "length (dec_buf d @ pushed ops) < 2 ^ 63"
  shows "\<exists>d'. dec_run d ops = Returns (d', outs) \<and> dec_inv d' \<and> unread d' = r"
  using assms
proof (induction d ops arbitrary: outs rule: dec_run.induct)
  case (2 d data ops)
  then show ?case by (simp add: push_def flip: append_assoc) (simp add: push_def[symmetric] add.assoc)
next
  case (3 d ops)
  have l: "length (dec_buf d) < 2 ^ 63" using 3(4) by simp
  note n = next_frame_parse[OF 3(3) l]
  note sk = skip_heartbeats_facts[OF 3(3)]
  show ?case
  proof (cases "parse_frame (unread d)")
    case (Parsed f rest)
    then obtain d' where d': "next_frame d = Returns (d', Inr (Some f))" "dec_inv d'" "unread d' = rest"
      "length (dec_buf d') \<le> length (dec_buf d)" using n by auto
    obtain outs' where o: "ref_run rest ops = Some (r, outs')" "outs = Inr (Some f) # outs'"
      using 3(2) Parsed by auto
    have "\<exists>d''. dec_run d' ops = Returns (d'', outs') \<and> dec_inv d'' \<and> unread d'' = r"
      by (rule 3(1)[OF d'(1) refl]) (use o d' 3(4) in simp_all)
    then show ?thesis using d'(1) o(2) by auto
  next
    case Incomplete
    then have n: "next_frame d = Returns (skip_heartbeats d, Inr None)" using n by simp
    obtain outs' where o: "ref_run (dropWhile is_eol (unread d)) ops = Some (r, outs')" "outs = Inr None # outs'"
      using 3(2) Incomplete by auto
    have "\<exists>d''. dec_run (skip_heartbeats d) ops = Returns (d'', outs') \<and> dec_inv d'' \<and> unread d'' = r"
      by (rule 3(1)[OF n refl]) (use o sk 3(4) in simp_all)
    then show ?thesis using n o(2) by auto
  next
    case (Malformed e)
    then have n: "next_frame d = Returns (skip_heartbeats d, Inl e)" using n by simp
    obtain outs' where o: "ref_run (dropWhile is_eol (unread d)) ops = Some (r, outs')" "outs = Inl e # outs'"
      using 3(2) Malformed by auto
    have "\<exists>d''. dec_run (skip_heartbeats d) ops = Returns (d'', outs') \<and> dec_inv d'' \<and> unread d'' = r"
      by (rule 3(1)[OF n refl]) (use o sk 3(4) in simp_all)
    then show ?thesis using n o(2) by auto
  qed (use 3(2) in simp)
qed simp

text \<open>C16: The incremental decoder implements the reference parser.  However a fresh decoder is used,
  with bytes pushed in pieces of any size and frames pulled at any moments, and whatever the
  bytes are: as long as less than \<open>2 ^ 63\<close> bytes arrive and no frame announces a longer body, no
  call panics, every pull returns what the reference parser finds at the front of the bytes
  received and not yet consumed, errors included, exactly the unconsumed bytes stay pending,
  and less than 4096 consumed bytes are held back.\<close>

theorem decoder_refines:
  assumes "ref_run [] ops = Some (r, outs)" and "length (pushed ops) < 2 ^ 63"
  shows "\<exists>d. dec_run decoder_new ops = Returns (d, outs) \<and> unread d = r \<and> pending d = length r \<and>
             (dec_pos d = 0 \<or> dec_pos d < length (dec_buf d) \<and> dec_pos d < 4096)"
  using dec_run_ref[of decoder_new ops r outs] assms
  by (auto simp: decoder_new_def unread_def dec_inv_def pending_def)

definition sample_frame :: frame where
  "sample_frame = \<lparr>fr_command = ''SEND'', fr_headers = [(''destination'', ''/queue/a:b'')], fr_body = ''hello''\<rparr>"

theorem decoder_refines_witness:
  "\<exists>d. dec_run decoder_new [Push (take 7 (encode sample_frame)), Pull, Push (drop 7 (encode sample_frame) @ [LF]), Pull] =
         Returns (d, [Inr None, Inr (Some sample_frame)]) \<and> pending d = 1"
proof -
  have l: "length (encode sample_frame) = 36" by code_simp
  have h: "header_length (fr_headers sample_frame) = None" by code_simp
  have w: "wf_frame sample_frame"
    unfolding wf_frame_def content_length_header h option.case by code_simp
  have i: "parse_frame (take 7 (encode sample_frame)) = Incomplete" by code_simp
  have t: "dropWhile is_eol (take 7 (encode sample_frame)) @ drop 7 (encode sample_frame) @ [LF] = encode sample_frame @ [LF]"
    by code_simp
  have r: "ref_run [] [Push (take 7 (encode sample_frame)), Pull, Push (drop 7 (encode sample_frame) @ [LF]), Pull] =
      Some ([LF], [Inr None, Inr (Some sample_frame)])"
    by (simp add: i t parse_frame_encode[OF w])
  have p: "length (pushed [Push (take 7 (encode sample_frame)), Pull, Push (drop 7 (encode sample_frame) @ [LF]), Pull]) < 2 ^ 63"
    using l by simp
  have "length [LF] = 1" by simp
  then show ?thesis using decoder_refines[OF r p] by metis
qed

lemma take_body_overflow:
  assumes "header_length headers = Some len" and "2 ^ 64 \<le> cursor + len" and "cursor + len < 2 * 2 ^ 64"
    and "cursor + len - 2 ^ 64 < length buf" and "buf ! (cursor + len - 2 ^ 64) = NUL" and "len < 2 ^ 64"
  shows "take_body buf cursor headers = Panics"
proof -
  have m: "(cursor + len) mod 2 ^ 64 = cursor + len - 2 ^ 64" using assms(2,3) by (subst mod_if, subst mod_less) auto
  show ?thesis
    unfolding take_body_def assms(1) option.case m Let_def using assms by (auto simp: byte_slice_def)
qed

end
