(* ===== verification/Test_Config.thy ===== *)
theory Test_Config
  imports Chaos
begin

text \<open>
  The configuration of a local run (\<open>config.rs\<close>): the protocol enumerations, \<open>TestConfig\<close> with its
  builder and the validation at the Python boundary.  JSON parsing belongs to another crate; the validation
  takes it as an argument that says whether a text is an object, another value or invalid.
\<close>

section \<open>Enumerations\<close>

definition max_concurrency_limit :: usize where
  "max_concurrency_limit = 10000"

datatype ws_mode = Handshake | PingPong | Stream

datatype soap_version = Soap11 | Soap12

fun soap_version_as_str :: "soap_version \<Rightarrow> string" where
  "soap_version_as_str Soap11 = ''1.1''"
| "soap_version_as_str Soap12 = ''1.2''"

datatype stomp_mode = Produce | Consume

fun stomp_mode_as_str :: "stomp_mode \<Rightarrow> string" where
  "stomp_mode_as_str Produce = ''produce''"
| "stomp_mode_as_str Consume = ''consume''"

datatype stomp_ack = Auto | Client | ClientIndividual

fun stomp_ack_as_str :: "stomp_ack \<Rightarrow> string" where
  "stomp_ack_as_str Auto = ''auto''"
| "stomp_ack_as_str Client = ''client''"
| "stomp_ack_as_str ClientIndividual = ''client-individual''"

definition default_chaos_rate :: f32 where
  "default_chaos_rate = round32 (1 / 10)"

section \<open>The configuration\<close>

record test_config =
  tg_url :: string
  tg_concurrency :: usize
  tg_duration_secs :: u64
  tg_timeout_secs :: u64
  tg_chaos :: bool
  tg_chaos_rate :: f32
  tg_test_seed :: u64
  tg_no_progress :: bool
  tg_method :: string
  tg_body :: "string option"
  tg_form :: "((string \<times> string) list) option"
  tg_headers :: "((string \<times> string) list) option"
  tg_ws_mode :: ws_mode
  tg_ws_payload :: "string option"
  tg_grpc_service :: "string option"
  tg_grpc_method :: "string option"
  tg_grpc_payload :: "string option"
  tg_grpc_deadline_ms :: "u64 option"
  tg_proto_path :: "string option"
  tg_grpc_use_reflection :: bool
  tg_ws_persistent :: bool
  tg_ws_keepalive_secs :: "u64 option"
  tg_ws_max_messages :: "u64 option"
  tg_ws_role :: "string option"
  tg_ws_publish_interval_ms :: "u64 option"
  tg_ws_subscribers :: "usize option"
  tg_http3_enabled :: bool
  tg_quic_zero_rtt :: bool
  tg_quic_max_idle_timeout_ms :: "u64 option"
  tg_sse_enabled :: bool
  tg_sse_max_events :: "u64 option"
  tg_graphql_query :: "string option"
  tg_graphql_variables :: "string option"
  tg_graphql_operation_name :: "string option"
  tg_output_dir :: "string option"
  tg_no_save :: bool
  tg_sys_sample_interval :: u64
  tg_ws_max_buffer_bytes :: u64
  tg_ws_backpressure_warn_ratio :: f32
  tg_grpc_h2_multiplex :: bool
  tg_http3_migrate :: bool
  tg_http3_migrate_every :: u64
  tg_slo_p95_ms :: "f64 option"
  tg_slo_p99_ms :: "f64 option"
  tg_slo_error_rate :: "f64 option"
  tg_slo_min_rps :: "f64 option"
  tg_timeline_interval_ms :: u64
  tg_soap_enabled :: bool
  tg_soap_action :: "string option"
  tg_soap_version :: soap_version
  tg_stomp_destination :: "string option"
  tg_stomp_message :: "string option"
  tg_stomp_mode :: stomp_mode
  tg_stomp_ack :: stomp_ack
  tg_stomp_receipt :: bool
  tg_stomp_headers :: "((string \<times> string) list) option"
  tg_db_query :: "string option"
  tg_db_pool_size :: "usize option"
  tg_db_fetch :: bool
  tg_db_max_rows :: "u64 option"
  tg_db_params :: "(string list) option"

type_synonym py_result = "string + unit"

text \<open>The answer of the JSON parser: an error text, or whether the value is an object.\<close>

type_synonym json_parser = "string \<Rightarrow> string + bool"

definition blank :: "string \<Rightarrow> bool" where
  "blank s \<longleftrightarrow> str_trim s = []"

definition missing :: "string option \<Rightarrow> bool" where
  "missing x = (case x of Some s \<Rightarrow> blank s | None \<Rightarrow> True)"

definition check_concurrency :: "test_config \<Rightarrow> py_result" where
  "check_concurrency c =
     (if \<not> (1 \<le> tg_concurrency c \<and> tg_concurrency c \<le> max_concurrency_limit)
      then Inl ''concurrency must be between 1 and 10000'' else Inr ())"

definition check_chaos_rate :: "test_config \<Rightarrow> py_result" where
  "check_chaos_rate c =
     (if \<not> (f_le (Fin 0) (tg_chaos_rate c) \<and> f_le (tg_chaos_rate c) (Fin 1))
      then Inl ''chaos_rate must be between 0.0 and 1.0'' else Inr ())"

definition check_graphql :: "test_config \<Rightarrow> py_result" where
  "check_graphql c =
     (case tg_graphql_query c of
        Some query \<Rightarrow>
          (if blank query then Inl ''graphql_query must not be empty''
           else if tg_body c \<noteq> None \<or> tg_form c \<noteq> None then Inl ''graphql_query cannot be combined with body or form''
           else Inr ())
      | None \<Rightarrow>
          (if tg_graphql_variables c \<noteq> None \<or> tg_graphql_operation_name c \<noteq> None
           then Inl ''graphql_variables/graphql_operation_name require graphql_query'' else Inr ()))"

definition check_variables :: "json_parser \<Rightarrow> test_config \<Rightarrow> py_result" where
  "check_variables json c =
     (case tg_graphql_variables c of
        None \<Rightarrow> Inr ()
      | Some vars \<Rightarrow>
          (case json vars of
             Inr True \<Rightarrow> Inr ()
           | Inr False \<Rightarrow> Inl ''graphql_variables must be a JSON object''
           | Inl e \<Rightarrow> Inl (''graphql_variables is not valid JSON: '' @ e)))"

definition check_soap :: "test_config \<Rightarrow> py_result" where
  "check_soap c =
     (if tg_soap_enabled c
      then if tg_graphql_query c \<noteq> None then Inl ''soap_enabled cannot be combined with graphql_query''
           else if tg_form c \<noteq> None then Inl ''soap_enabled cannot be combined with form''
           else if missing (tg_body c) then Inl ''soap_enabled requires an XML envelope in body''
           else Inr ()
      else Inr ())"

definition is_stomp_url :: "string \<Rightarrow> bool" where
  "is_stomp_url url \<longleftrightarrow> starts_with url ''stomp://'' \<or> starts_with url ''stomps://''"

definition check_stomp :: "test_config \<Rightarrow> py_result" where
  "check_stomp c =
     (if is_stomp_url (tg_url c)
      then if missing (tg_stomp_destination c) then Inl ''stomp:// URLs require stomp_destination''
           else if tg_stomp_receipt c \<and> tg_stomp_mode c = Consume then Inl ''stomp_receipt applies to stomp_mode=produce only''
           else Inr ()
      else Inr ())"

definition is_database_url :: "string \<Rightarrow> bool" where
  "is_database_url url \<longleftrightarrow> starts_with url ''postgres://'' \<or> starts_with url ''postgresql://'' \<or>
     starts_with url ''mysql://'' \<or> starts_with url ''mariadb://'' \<or> starts_with url ''sqlite:''"

definition check_db :: "test_config \<Rightarrow> py_result" where
  "check_db c =
     (if is_database_url (tg_url c)
      then if missing (tg_db_query c) then Inl ''database URLs require a non-empty db_query''
           else if tg_db_pool_size c = Some 0 then Inl ''db_pool_size must be at least 1''
           else Inr ()
      else Inr ())"

definition check_slo :: "string \<Rightarrow> f64 option \<Rightarrow> py_result" where
  "check_slo name x =
     (case x of
        Some v \<Rightarrow> if \<not> is_finite v \<or> f_less v (Fin 0) then Inl (name @ '' must be a non-negative number'') else Inr ()
      | None \<Rightarrow> Inr ())"

definition check_error_rate :: "test_config \<Rightarrow> py_result" where
  "check_error_rate c =
     (case tg_slo_error_rate c of
        Some rate \<Rightarrow>
          (if \<not> is_finite rate \<or> \<not> (f_le (Fin 0) rate \<and> f_le rate (Fin 100))
           then Inl ''slo_error_rate must be between 0 and 100 (percent)'' else Inr ())
      | None \<Rightarrow> Inr ())"

text \<open>Checks in a row, each with an early return.\<close>

fun first_error :: "py_result list \<Rightarrow> py_result" where
  "first_error [] = Inr ()"
| "first_error (Inl e # rs) = Inl e"
| "first_error (Inr _ # rs) = first_error rs"

definition validate :: "json_parser \<Rightarrow> test_config \<Rightarrow> py_result" where
  "validate json c =
     first_error
       [check_concurrency c, check_chaos_rate c, check_graphql c, check_variables json c, check_soap c, check_stomp c,
        check_db c, check_slo ''slo_p95_ms'' (tg_slo_p95_ms c), check_slo ''slo_p99_ms'' (tg_slo_p99_ms c),
        check_slo ''slo_min_rps'' (tg_slo_min_rps c), check_error_rate c]"

text \<open>The Python constructor: the record of its arguments, if it is valid.\<close>

definition test_config_new :: "json_parser \<Rightarrow> test_config \<Rightarrow> string + test_config" where
  "test_config_new json config = (case validate json config of Inl e \<Rightarrow> Inl e | Inr _ \<Rightarrow> Inr config)"

section \<open>The builder\<close>

text \<open>The builder has the fields of the configuration.\<close>

type_synonym test_config_builder = test_config

definition test_config_builder_default :: test_config_builder where
  "test_config_builder_default =
     \<lparr>tg_url = [], tg_concurrency = 10, tg_duration_secs = 10, tg_timeout_secs = 10, tg_chaos = False, 
      tg_chaos_rate = default_chaos_rate, tg_test_seed = 0, tg_no_progress = False, tg_method = ''GET'', 
      tg_body = None, tg_form = None, tg_headers = None, tg_ws_mode = Handshake, tg_ws_payload = None, 
      tg_grpc_service = None, tg_grpc_method = None, tg_grpc_payload = None, tg_grpc_deadline_ms = None, 
      tg_proto_path = None, tg_grpc_use_reflection = False, tg_ws_persistent = False, 
      tg_ws_keepalive_secs = None, tg_ws_max_messages = None, tg_ws_role = None, 
      tg_ws_publish_interval_ms = None, tg_ws_subscribers = None, tg_http3_enabled = False, 
      tg_quic_zero_rtt = False, tg_quic_max_idle_timeout_ms = None, tg_sse_enabled = False, 
      tg_sse_max_events = None, tg_graphql_query = None, tg_graphql_variables = None, 
      tg_graphql_operation_name = None, tg_output_dir = None, tg_no_save = False, 
      tg_sys_sample_interval = 1000, tg_ws_max_buffer_bytes = 1048576, 
      tg_ws_backpressure_warn_ratio = round32 (8 / 10), tg_grpc_h2_multiplex = False, 
      tg_http3_migrate = False, tg_http3_migrate_every = 50, tg_slo_p95_ms = None, tg_slo_p99_ms = None, 
      tg_slo_error_rate = None, tg_slo_min_rps = None, tg_timeline_interval_ms = 1000, 
      tg_soap_enabled = False, tg_soap_action = None, tg_soap_version = Soap11, 
      tg_stomp_destination = None, tg_stomp_message = None, tg_stomp_mode = Produce, tg_stomp_ack = Auto, 
      tg_stomp_receipt = False, tg_stomp_headers = None, tg_db_query = None, tg_db_pool_size = None, 
      tg_db_fetch = False, tg_db_max_rows = None, tg_db_params = None\<rparr>"

definition builder_new :: "string \<Rightarrow> test_config_builder" where
  "builder_new url = test_config_builder_default\<lparr>tg_url := url\<rparr>"

definition cfg_concurrency :: "usize \<Rightarrow> test_config_builder \<Rightarrow> test_config_builder" where
  "cfg_concurrency v b = b\<lparr>tg_concurrency := v\<rparr>"

definition cfg_duration_secs :: "u64 \<Rightarrow> test_config_builder \<Rightarrow> test_config_builder" where
  "cfg_duration_secs v b = b\<lparr>tg_duration_secs := v\<rparr>"

definition cfg_timeout_secs :: "u64 \<Rightarrow> test_config_builder \<Rightarrow> test_config_builder" where
  "cfg_timeout_secs v b = b\<lparr>tg_timeout_secs := v\<rparr>"

definition cfg_chaos :: "bool \<Rightarrow> test_config_builder \<Rightarrow> test_config_builder" where
  "cfg_chaos v b = b\<lparr>tg_chaos := v\<rparr>"

definition cfg_chaos_rate :: "f32 \<Rightarrow> test_config_builder \<Rightarrow> test_config_builder" where
  "cfg_chaos_rate v b = b\<lparr>tg_chaos_rate := v\<rparr>"

definition cfg_test_seed :: "u64 \<Rightarrow> test_config_builder \<Rightarrow> test_config_builder" where
  "cfg_test_seed v b = b\<lparr>tg_test_seed := v\<rparr>"

definition cfg_no_progress :: "bool \<Rightarrow> test_config_builder \<Rightarrow> test_config_builder" where
  "cfg_no_progress v b = b\<lparr>tg_no_progress := v\<rparr>"

definition cfg_method :: "string \<Rightarrow> test_config_builder \<Rightarrow> test_config_builder" where
  "cfg_method v b = b\<lparr>tg_method := v\<rparr>"

definition cfg_body :: "string option \<Rightarrow> test_config_builder \<Rightarrow> test_config_builder" where
  "cfg_body v b = b\<lparr>tg_body := v\<rparr>"

definition cfg_form :: "((string \<times> string) list) option \<Rightarrow> test_config_builder \<Rightarrow> test_config_builder" where
  "cfg_form v b = b\<lparr>tg_form := v\<rparr>"

definition cfg_headers :: "((string \<times> string) list) option \<Rightarrow> test_config_builder \<Rightarrow> test_config_builder" where
  "cfg_headers v b = b\<lparr>tg_headers := v\<rparr>"

definition cfg_ws_mode :: "ws_mode \<Rightarrow> test_config_builder \<Rightarrow> test_config_builder" where
  "cfg_ws_mode v b = b\<lparr>tg_ws_mode := v\<rparr>"

definition cfg_ws_payload :: "string option \<Rightarrow> test_config_builder \<Rightarrow> test_config_builder" where
  "cfg_ws_payload v b = b\<lparr>tg_ws_payload := v\<rparr>"

definition cfg_ws_persistent :: "bool \<Rightarrow> test_config_builder \<Rightarrow> test_config_builder" where
  "cfg_ws_persistent v b = b\<lparr>tg_ws_persistent := v\<rparr>"

definition cfg_ws_keepalive_secs :: "u64 option \<Rightarrow> test_config_builder \<Rightarrow> test_config_builder" where
  "cfg_ws_keepalive_secs v b = b\<lparr>tg_ws_keepalive_secs := v\<rparr>"

definition cfg_ws_max_messages :: "u64 option \<Rightarrow> test_config_builder \<Rightarrow> test_config_builder" where
  "cfg_ws_max_messages v b = b\<lparr>tg_ws_max_messages := v\<rparr>"

definition cfg_ws_role :: "string option \<Rightarrow> test_config_builder \<Rightarrow> test_config_builder" where
  "cfg_ws_role v b = b\<lparr>tg_ws_role := v\<rparr>"

definition cfg_ws_publish_interval_ms :: "u64 option \<Rightarrow> test_config_builder \<Rightarrow> test_config_builder" where
  "cfg_ws_publish_interval_ms v b = b\<lparr>tg_ws_publish_interval_ms := v\<rparr>"

definition cfg_ws_subscribers :: "usize option \<Rightarrow> test_config_builder \<Rightarrow> test_config_builder" where
  "cfg_ws_subscribers v b = b\<lparr>tg_ws_subscribers := v\<rparr>"

definition cfg_grpc_service :: "string option \<Rightarrow> test_config_builder \<Rightarrow> test_config_builder" where
  "cfg_grpc_service v b = b\<lparr>tg_grpc_service := v\<rparr>"

definition cfg_grpc_method :: "string option \<Rightarrow> test_config_builder \<Rightarrow> test_config_builder" where
  "cfg_grpc_method v b = b\<lparr>tg_grpc_method := v\<rparr>"

definition cfg_grpc_payload :: "string option \<Rightarrow> test_config_builder \<Rightarrow> test_config_builder" where
  "cfg_grpc_payload v b = b\<lparr>tg_grpc_payload := v\<rparr>"

definition cfg_grpc_deadline_ms :: "u64 option \<Rightarrow> test_config_builder \<Rightarrow> test_config_builder" where
  "cfg_grpc_deadline_ms v b = b\<lparr>tg_grpc_deadline_ms := v\<rparr>"

definition cfg_proto_path :: "string option \<Rightarrow> test_config_builder \<Rightarrow> test_config_builder" where
  "cfg_proto_path v b = b\<lparr>tg_proto_path := v\<rparr>"

definition cfg_grpc_use_reflection :: "bool \<Rightarrow> test_config_builder \<Rightarrow> test_config_builder" where
  "cfg_grpc_use_reflection v b = b\<lparr>tg_grpc_use_reflection := v\<rparr>"

definition cfg_http3_enabled :: "bool \<Rightarrow> test_config_builder \<Rightarrow> test_config_builder" where
  "cfg_http3_enabled v b = b\<lparr>tg_http3_enabled := v\<rparr>"

definition cfg_quic_zero_rtt :: "bool \<Rightarrow> test_config_builder \<Rightarrow> test_config_builder" where
  "cfg_quic_zero_rtt v b = b\<lparr>tg_quic_zero_rtt := v\<rparr>"

definition cfg_quic_max_idle_timeout_ms :: "u64 option \<Rightarrow> test_config_builder \<Rightarrow> test_config_builder" where
  "cfg_quic_max_idle_timeout_ms v b = b\<lparr>tg_quic_max_idle_timeout_ms := v\<rparr>"

definition cfg_sse_enabled :: "bool \<Rightarrow> test_config_builder \<Rightarrow> test_config_builder" where
  "cfg_sse_enabled v b = b\<lparr>tg_sse_enabled := v\<rparr>"

definition cfg_sse_max_events :: "u64 option \<Rightarrow> test_config_builder \<Rightarrow> test_config_builder" where
  "cfg_sse_max_events v b = b\<lparr>tg_sse_max_events := v\<rparr>"

definition cfg_graphql_query :: "string option \<Rightarrow> test_config_builder \<Rightarrow> test_config_builder" where
  "cfg_graphql_query v b = b\<lparr>tg_graphql_query := v\<rparr>"

definition cfg_graphql_variables :: "string option \<Rightarrow> test_config_builder \<Rightarrow> test_config_builder" where
  "cfg_graphql_variables v b = b\<lparr>tg_graphql_variables := v\<rparr>"

definition cfg_graphql_operation_name :: "string option \<Rightarrow> test_config_builder \<Rightarrow> test_config_builder" where
  "cfg_graphql_operation_name v b = b\<lparr>tg_graphql_operation_name := v\<rparr>"

definition cfg_soap_enabled :: "bool \<Rightarrow> test_config_builder \<Rightarrow> test_config_builder" where
  "cfg_soap_enabled v b = b\<lparr>tg_soap_enabled := v\<rparr>"

definition cfg_soap_action :: "string option \<Rightarrow> test_config_builder \<Rightarrow> test_config_builder" where
  "cfg_soap_action v b = b\<lparr>tg_soap_action := v\<rparr>"

definition cfg_soap_version :: "soap_version \<Rightarrow> test_config_builder \<Rightarrow> test_config_builder" where
  "cfg_soap_version v b = b\<lparr>tg_soap_version := v\<rparr>"

definition cfg_stomp_destination :: "string option \<Rightarrow> test_config_builder \<Rightarrow> test_config_builder" where
  "cfg_stomp_destination v b = b\<lparr>tg_stomp_destination := v\<rparr>"

definition cfg_stomp_message :: "string option \<Rightarrow> test_config_builder \<Rightarrow> test_config_builder" where
  "cfg_stomp_message v b = b\<lparr>tg_stomp_message := v\<rparr>"

definition cfg_stomp_mode :: "stomp_mode \<Rightarrow> test_config_builder \<Rightarrow> test_config_builder" where
  "cfg_stomp_mode v b = b\<lparr>tg_stomp_mode := v\<rparr>"

definition cfg_stomp_ack :: "stomp_ack \<Rightarrow> test_config_builder \<Rightarrow> test_config_builder" where
  "cfg_stomp_ack v b = b\<lparr>tg_stomp_ack := v\<rparr>"

definition cfg_stomp_receipt :: "bool \<Rightarrow> test_config_builder \<Rightarrow> test_config_builder" where
  "cfg_stomp_receipt v b = b\<lparr>tg_stomp_receipt := v\<rparr>"

definition cfg_stomp_headers :: "((string \<times> string) list) option \<Rightarrow> test_config_builder \<Rightarrow> test_config_builder" where
  "cfg_stomp_headers v b = b\<lparr>tg_stomp_headers := v\<rparr>"

definition cfg_db_query :: "string option \<Rightarrow> test_config_builder \<Rightarrow> test_config_builder" where
  "cfg_db_query v b = b\<lparr>tg_db_query := v\<rparr>"

definition cfg_db_pool_size :: "usize option \<Rightarrow> test_config_builder \<Rightarrow> test_config_builder" where
  "cfg_db_pool_size v b = b\<lparr>tg_db_pool_size := v\<rparr>"

definition cfg_db_fetch :: "bool \<Rightarrow> test_config_builder \<Rightarrow> test_config_builder" where
  "cfg_db_fetch v b = b\<lparr>tg_db_fetch := v\<rparr>"

definition cfg_db_max_rows :: "u64 option \<Rightarrow> test_config_builder \<Rightarrow> test_config_builder" where
  "cfg_db_max_rows v b = b\<lparr>tg_db_max_rows := v\<rparr>"

definition cfg_db_params :: "(string list) option \<Rightarrow> test_config_builder \<Rightarrow> test_config_builder" where
  "cfg_db_params v b = b\<lparr>tg_db_params := v\<rparr>"

definition cfg_output_dir :: "string option \<Rightarrow> test_config_builder \<Rightarrow> test_config_builder" where
  "cfg_output_dir v b = b\<lparr>tg_output_dir := v\<rparr>"

definition cfg_no_save :: "bool \<Rightarrow> test_config_builder \<Rightarrow> test_config_builder" where
  "cfg_no_save v b = b\<lparr>tg_no_save := v\<rparr>"

definition cfg_sys_sample_interval :: "u64 \<Rightarrow> test_config_builder \<Rightarrow> test_config_builder" where
  "cfg_sys_sample_interval v b = b\<lparr>tg_sys_sample_interval := v\<rparr>"

definition cfg_ws_max_buffer_bytes :: "u64 \<Rightarrow> test_config_builder \<Rightarrow> test_config_builder" where
  "cfg_ws_max_buffer_bytes v b = b\<lparr>tg_ws_max_buffer_bytes := v\<rparr>"

definition cfg_ws_backpressure_warn_ratio :: "f32 \<Rightarrow> test_config_builder \<Rightarrow> test_config_builder" where
  "cfg_ws_backpressure_warn_ratio v b = b\<lparr>tg_ws_backpressure_warn_ratio := v\<rparr>"

definition cfg_grpc_h2_multiplex :: "bool \<Rightarrow> test_config_builder \<Rightarrow> test_config_builder" where
  "cfg_grpc_h2_multiplex v b = b\<lparr>tg_grpc_h2_multiplex := v\<rparr>"

definition cfg_http3_migrate :: "bool \<Rightarrow> test_config_builder \<Rightarrow> test_config_builder" where
  "cfg_http3_migrate v b = b\<lparr>tg_http3_migrate := v\<rparr>"

definition cfg_http3_migrate_every :: "u64 \<Rightarrow> test_config_builder \<Rightarrow> test_config_builder" where
  "cfg_http3_migrate_every v b = b\<lparr>tg_http3_migrate_every := v\<rparr>"

definition cfg_slo_p95_ms :: "f64 option \<Rightarrow> test_config_builder \<Rightarrow> test_config_builder" where
  "cfg_slo_p95_ms v b = b\<lparr>tg_slo_p95_ms := v\<rparr>"

definition cfg_slo_p99_ms :: "f64 option \<Rightarrow> test_config_builder \<Rightarrow> test_config_builder" where
  "cfg_slo_p99_ms v b = b\<lparr>tg_slo_p99_ms := v\<rparr>"

definition cfg_slo_error_rate :: "f64 option \<Rightarrow> test_config_builder \<Rightarrow> test_config_builder" where
  "cfg_slo_error_rate v b = b\<lparr>tg_slo_error_rate := v\<rparr>"

definition cfg_slo_min_rps :: "f64 option \<Rightarrow> test_config_builder \<Rightarrow> test_config_builder" where
  "cfg_slo_min_rps v b = b\<lparr>tg_slo_min_rps := v\<rparr>"

definition cfg_timeline_interval_ms :: "u64 \<Rightarrow> test_config_builder \<Rightarrow> test_config_builder" where
  "cfg_timeline_interval_ms v b = b\<lparr>tg_timeline_interval_ms := v\<rparr>"

definition build :: "test_config_builder \<Rightarrow> test_config" where
  "build b =
     \<lparr>tg_url = tg_url b, tg_concurrency = tg_concurrency b, tg_duration_secs = tg_duration_secs b, 
      tg_timeout_secs = tg_timeout_secs b, tg_chaos = tg_chaos b, tg_chaos_rate = tg_chaos_rate b, 
      tg_test_seed = tg_test_seed b, tg_no_progress = tg_no_progress b, tg_method = tg_method b, 
      tg_body = tg_body b, tg_form = tg_form b, tg_headers = tg_headers b, tg_ws_mode = tg_ws_mode b, 
      tg_ws_payload = tg_ws_payload b, tg_grpc_service = tg_grpc_service b, 
      tg_grpc_method = tg_grpc_method b, tg_grpc_payload = tg_grpc_payload b, 
      tg_grpc_deadline_ms = tg_grpc_deadline_ms b, tg_proto_path = tg_proto_path b, 
      tg_grpc_use_reflection = tg_grpc_use_reflection b, tg_ws_persistent = tg_ws_persistent b, 
      tg_ws_keepalive_secs = tg_ws_keepalive_secs b, tg_ws_max_messages = tg_ws_max_messages b, 
      tg_ws_role = tg_ws_role b, tg_ws_publish_interval_ms = tg_ws_publish_interval_ms b, 
      tg_ws_subscribers = tg_ws_subscribers b, tg_http3_enabled = tg_http3_enabled b, 
      tg_quic_zero_rtt = tg_quic_zero_rtt b, tg_quic_max_idle_timeout_ms = tg_quic_max_idle_timeout_ms b, 
      tg_sse_enabled = tg_sse_enabled b, tg_sse_max_events = tg_sse_max_events b, 
      tg_graphql_query = tg_graphql_query b, tg_graphql_variables = tg_graphql_variables b, 
      tg_graphql_operation_name = tg_graphql_operation_name b, tg_output_dir = tg_output_dir b, 
      tg_no_save = tg_no_save b, tg_sys_sample_interval = tg_sys_sample_interval b, 
      tg_ws_max_buffer_bytes = tg_ws_max_buffer_bytes b, 
      tg_ws_backpressure_warn_ratio = tg_ws_backpressure_warn_ratio b, 
      tg_grpc_h2_multiplex = tg_grpc_h2_multiplex b, tg_http3_migrate = tg_http3_migrate b, 
      tg_http3_migrate_every = tg_http3_migrate_every b, tg_slo_p95_ms = tg_slo_p95_ms b, 
      tg_slo_p99_ms = tg_slo_p99_ms b, tg_slo_error_rate = tg_slo_error_rate b, 
      tg_slo_min_rps = tg_slo_min_rps b, tg_timeline_interval_ms = tg_timeline_interval_ms b, 
      tg_soap_enabled = tg_soap_enabled b, tg_soap_action = tg_soap_action b, 
      tg_soap_version = tg_soap_version b, tg_stomp_destination = tg_stomp_destination b, 
      tg_stomp_message = tg_stomp_message b, tg_stomp_mode = tg_stomp_mode b, 
      tg_stomp_ack = tg_stomp_ack b, tg_stomp_receipt = tg_stomp_receipt b, 
      tg_stomp_headers = tg_stomp_headers b, tg_db_query = tg_db_query b, 
      tg_db_pool_size = tg_db_pool_size b, tg_db_fetch = tg_db_fetch b, tg_db_max_rows = tg_db_max_rows b, 
      tg_db_params = tg_db_params b\<rparr>"

definition for_protocol_detection :: "string \<Rightarrow> usize \<Rightarrow> u64 \<Rightarrow> u64 \<Rightarrow> test_config" where
  "for_protocol_detection url concurrency duration_secs timeout_secs =
     build (cfg_timeout_secs timeout_secs (cfg_duration_secs duration_secs (cfg_concurrency concurrency (builder_new url))))"

end
