(* ===== verification/Stomp_Engine.thy ===== *)
theory Stomp_Engine
  imports Stomp_Codec Metric_Types Test_Config
begin

text \<open>
  The STOMP client engine (\<open>protocols/stomp.rs\<close>): the address parser, the session with its
  connection, subscription and receipt state, and one produce or consume iteration.

  The network is an argument.  A connection attempt yields a socket or fails; a socket is the
  list of results its writes and its reads will give, and the bytes written so far.  Every
  write and read runs under a timeout in the code, so a list that is used up means that the
  next call times out.  The clock readings of an iteration are a record.
\<close>

section \<open>Settings\<close>

definition default_stomp_port :: nat where
  "default_stomp_port = 61613"

definition max_frame_bytes :: usize where
  "max_frame_bytes = 16 * 1024 * 1024"

definition parse_authority :: "string \<Rightarrow> string + string" where
  "parse_authority url =
     (case strip_prefix url ''stomp://'' of
        Some rest \<Rightarrow>
          (let authority = takeWhile (\<lambda>c. c \<noteq> CHR ''/'' \<and> c \<noteq> CHR ''?'') rest;
               authority = rev (takeWhile (\<lambda>c. c \<noteq> CHR ''@'') (rev authority))
           in if authority = [] then Inl ''STOMP URL is missing a host''
              else if CHR '':'' \<in> set authority then Inr authority
              else Inr (authority @ '':'' @ show_nat default_stomp_port))
      | None \<Rightarrow>
          (if starts_with url ''stomps://'' then Inl ''STOMP TLS (stomps://) is not yet supported; use stomp://''
           else Inl (''unsupported STOMP URL scheme: '' @ url)))"

record stomp_engine =
  sg_authority :: string
  sg_destination :: string
  sg_mode :: stomp_mode
  sg_ack :: stomp_ack
  sg_receipt :: bool
  sg_payload :: bytes
  sg_headers :: "(string \<times> string) list"
  sg_timeout :: duration
  sg_chaos :: chaos_engine

definition stomp_engine_new ::
    "string \<Rightarrow> string \<Rightarrow> stomp_mode \<Rightarrow> stomp_ack \<Rightarrow> bool \<Rightarrow> bytes \<Rightarrow> (string \<times> string) list \<Rightarrow> chaos_engine \<Rightarrow> u64 \<Rightarrow>
     string + stomp_engine" where
  "stomp_engine_new url destination mode ack receipt payload headers chaos timeout_secs =
     (if str_trim destination = [] then Inl ''STOMP destination must not be empty''
      else case parse_authority url of
        Inl e \<Rightarrow> Inl e
      | Inr authority \<Rightarrow>
          Inr \<lparr>sg_authority = authority, sg_destination = destination, sg_mode = mode, sg_ack = ack,
               sg_receipt = receipt, sg_payload = payload, sg_headers = headers,
               sg_timeout = from_secs (max (unat timeout_secs) 1), sg_chaos = chaos\<rparr>)"

section \<open>Sockets and sessions\<close>

datatype 'a io_result = IoOk 'a | IoTimeout | IoFailed string

record sock =
  sk_writes :: "unit io_result list"
  sk_reads :: "bytes io_result list"
  sk_sent :: bytes

record stomp_session =
  se_authority :: string
  se_destination :: string
  se_ack :: stomp_ack
  se_receipt :: bool
  se_payload :: bytes
  se_headers :: "(string \<times> string) list"
  se_timeout :: duration
  se_stream :: "sock option"
  se_decoder :: decoder
  se_connected :: bool
  se_subscribed :: bool
  se_ever_connected :: bool
  se_reconnected_this_iteration :: bool
  se_subscribed_at :: "nat option"
  se_last_message_at :: "nat option"
  se_saw_first_message :: bool
  se_receipt_seq :: u64

definition new_session :: "stomp_engine \<Rightarrow> stomp_session" where
  "new_session g =
     \<lparr>se_authority = sg_authority g, se_destination = sg_destination g, se_ack = sg_ack g, se_receipt = sg_receipt g,
      se_payload = sg_payload g, se_headers = sg_headers g, se_timeout = sg_timeout g, se_stream = None,
      se_decoder = decoder_new, se_connected = False, se_subscribed = False, se_ever_connected = False,
      se_reconnected_this_iteration = False, se_subscribed_at = None, se_last_message_at = None,
      se_saw_first_message = False, se_receipt_seq = 0\<rparr>"

definition ack_frame :: "string \<Rightarrow> frame" where
  "ack_frame ident = with_header ''id'' ident (frame_new ''ACK'')"

definition session_reset :: "stomp_session \<Rightarrow> stomp_session" where
  "session_reset s =
     s\<lparr>se_stream := None, se_decoder := decoder_new, se_connected := False, se_subscribed := False,
       se_subscribed_at := None, se_last_message_at := None, se_saw_first_message := False\<rparr>"

definition write_frame :: "bytes \<Rightarrow> stomp_session \<Rightarrow> stomp_session \<times> (string + unit)" where
  "write_frame data s =
     (case se_stream s of
        None \<Rightarrow> (s, Inl ''STOMP session not connected'')
      | Some k \<Rightarrow>
          (case sk_writes k of
             IoOk _ # ws \<Rightarrow> (s\<lparr>se_stream := Some (k\<lparr>sk_writes := ws, sk_sent := sk_sent k @ data\<rparr>)\<rparr>, Inr ())
           | IoFailed e # ws \<Rightarrow> (s\<lparr>se_stream := Some (k\<lparr>sk_writes := ws\<rparr>)\<rparr>, Inl (''STOMP write failed: '' @ e))
           | IoTimeout # ws \<Rightarrow> (s\<lparr>se_stream := Some (k\<lparr>sk_writes := ws\<rparr>)\<rparr>, Inl ''STOMP write timed out'')
           | [] \<Rightarrow> (s, Inl ''STOMP write timed out'')))"

section \<open>Reading frames\<close>

text \<open>The loop of \<open>read_frame\<close> on the decoder and the stream.\<close>

definition reads_left :: "sock option \<Rightarrow> nat" where
  "reads_left k = (case k of None \<Rightarrow> 0 | Some k \<Rightarrow> length (sk_reads k))"

function read_loop :: "sock option \<Rightarrow> decoder \<Rightarrow> (sock option \<times> decoder \<times> (string + frame)) outcome" where
  "read_loop stream d =
     (case next_frame d of
        Panics \<Rightarrow> Panics
      | Returns (d, Inr (Some f)) \<Rightarrow> Returns (stream, d, Inr f)
      | Returns (d, Inl e) \<Rightarrow> Returns (stream, d, Inl (''STOMP protocol error: '' @ codec_error_text e))
      | Returns (d, Inr None) \<Rightarrow>
          (if max_frame_bytes < pending d then Returns (stream, d, Inl ''STOMP frame exceeds maximum size'')
           else case stream of
             None \<Rightarrow> Returns (stream, d, Inl ''STOMP session not connected'')
           | Some k \<Rightarrow>
               (case sk_reads k of
                  [] \<Rightarrow> Returns (stream, d, Inl ''STOMP read timed out'')
                | r # rs \<Rightarrow>
                    (case r of
                       IoTimeout \<Rightarrow> Returns (Some (k\<lparr>sk_reads := rs\<rparr>), d, Inl ''STOMP read timed out'')
                     | IoFailed e \<Rightarrow> Returns (Some (k\<lparr>sk_reads := rs\<rparr>), d, Inl (''STOMP read failed: '' @ e))
                     | IoOk data \<Rightarrow>
                         (if data = [] then Returns (Some (k\<lparr>sk_reads := rs\<rparr>), d, Inl ''STOMP connection closed by broker'')
                          else read_loop (Some (k\<lparr>sk_reads := rs\<rparr>)) (push data d))))))"
  by pat_completeness auto
termination
  by (relation "measure (\<lambda>(k, d). reads_left k)") (auto simp: reads_left_def)

declare read_loop.simps [simp del]

text \<open>Bytes that are buffered or can still be read: every frame read takes some of them.\<close>

definition budget :: "sock option \<Rightarrow> decoder \<Rightarrow> nat" where
  "budget k d = pending d +
     (case k of None \<Rightarrow> 0 | Some k \<Rightarrow> sum_list (map (\<lambda>r. case r of IoOk data \<Rightarrow> length data | _ \<Rightarrow> 0) (sk_reads k)))"

lemma header_loop_cursor: "header_loop buf cursor hs = Inr (Some (h, c)) \<Longrightarrow> cursor < c"
proof (induction buf cursor hs rule: header_loop.induct)
  case (1 buf cursor hs)
  obtain nl where nl: "find_byte (drop cursor buf) LF = Some nl"
    using 1(2) by (subst (asm) header_loop.simps) (auto split: option.splits)
  let ?line = "strip_cr (take nl (drop cursor buf))"
  show ?case
  proof (cases "?line = []")
    case True
    then show ?thesis using 1(2) nl by (subst (asm) header_loop.simps) simp
  next
    case False
    then obtain k name val where l: "find_byte ?line (CHR '':'') = Some k" "decode_header (take k ?line) = Inr name"
      "decode_header (drop (k + 1) ?line) = Inr val" and r: "header_loop buf (cursor + nl + 1) (hs @ [(name, val)]) = Inr (Some (h, c))"
      using 1(2) nl by (subst (asm) header_loop.simps) (auto simp: Let_def split: option.splits sum.splits)
    show ?thesis using 1(1)[OF nl refl refl False l r] by simp
  qed
qed

lemma take_body_end: "take_body buf cursor hs = Returns (Inr (Some (b, c))) \<Longrightarrow> cursor < c \<and> c \<le> length buf"
  by (auto simp: take_body_def Let_def byte_slice_def split: option.splits if_splits outcome.splits dest: find_byte_less)

lemma next_frame_cases:
  assumes "next_frame d = Returns (d', out)"
  obtains (skipped) "d' = skip_heartbeats d" "\<forall>f. out \<noteq> Inr (Some f)"
  | (blank) nl s where "s = skip_heartbeats d" "find_byte (drop (dec_pos s) (dec_buf s)) LF = Some nl"
      "strip_cr (take nl (drop (dec_pos s) (dec_buf s))) = []"
      "next_frame (s\<lparr>dec_pos := dec_pos s + nl + 1\<rparr>) = Returns (d', out)"
  | (framed) p s where "s = skip_heartbeats d" "dec_pos s < p" "p \<le> length (dec_buf s)" "d' = compact (s\<lparr>dec_pos := p\<rparr>)"
proof -
  define s where "s = skip_heartbeats d"
  show ?thesis
  proof (cases "find_byte (drop (dec_pos s) (dec_buf s)) LF")
    case None
    then have "next_frame d = Returns (s, Inr None)" by (subst next_frame.simps) (simp flip: s_def)
    then show ?thesis using assms skipped by (simp add: s_def)
  next
    case (Some nl)
    let ?cmd = "strip_cr (take nl (drop (dec_pos s) (dec_buf s)))" and ?c = "dec_pos s + nl + 1"
    show ?thesis
    proof (cases "?cmd = []")
      case True
      then have "next_frame d = next_frame (s\<lparr>dec_pos := ?c\<rparr>)"
        using Some by (subst next_frame.simps) (simp add: Let_def flip: s_def)
      then show ?thesis using blank[OF s_def Some True] assms by simp
    next
      case ne: False
      show ?thesis
      proof (cases "utf8_valid ?cmd")
      case False
      then have "next_frame d = Returns (s, Inl Utf8)"
        using Some ne by (subst next_frame.simps) (simp add: Let_def flip: s_def)
      then show ?thesis using assms skipped by (simp add: s_def)
    next
      case True
      then have n: "Returns (d', out) = (case header_loop (dec_buf s) ?c [] of
           Inl e \<Rightarrow> Returns (s, Inl e)
         | Inr None \<Rightarrow> Returns (s, Inr None)
         | Inr (Some (headers, cursor)) \<Rightarrow>
             (case take_body (dec_buf s) cursor headers of
                Panics \<Rightarrow> Panics
              | Returns (Inl e) \<Rightarrow> Returns (s, Inl e)
              | Returns (Inr None) \<Rightarrow> Returns (s, Inr None)
              | Returns (Inr (Some (body, end_pos))) \<Rightarrow>
                  Returns (compact (s\<lparr>dec_pos := end_pos\<rparr>),
                    Inr (Some \<lparr>fr_command = str_trim ?cmd, fr_headers = headers, fr_body = body\<rparr>))))"
        using Some ne by (subst assms[symmetric], subst next_frame.simps) (simp add: Let_def flip: s_def)
      show ?thesis
      proof (cases "\<exists>headers cursor body p. header_loop (dec_buf s) ?c [] = Inr (Some (headers, cursor)) \<and>
          take_body (dec_buf s) cursor headers = Returns (Inr (Some (body, p)))")
        case True
        then obtain headers cursor body p where h: "header_loop (dec_buf s) ?c [] = Inr (Some (headers, cursor))"
          "take_body (dec_buf s) cursor headers = Returns (Inr (Some (body, p)))" by blast
        have "dec_pos s < p" "p \<le> length (dec_buf s)" using header_loop_cursor[OF h(1)] take_body_end[OF h(2)] by simp_all
        then show ?thesis using n h framed[OF s_def, of p] by simp
      next
        case False
        have "d' = s \<and> (\<forall>f. out \<noteq> Inr (Some f))"
        proof (cases "header_loop (dec_buf s) ?c []")
          case h: (Inr r)
          show ?thesis
          proof (cases r)
            case r: (Some x)
            obtain headers cursor where x: "x = (headers, cursor)" by (cases x)
            show ?thesis
            proof (cases "take_body (dec_buf s) cursor headers")
              case t: (Returns q)
              then have "q \<noteq> Inr (Some y)" for y using False h r x by (cases y) auto
              then have "q = Inr None \<or> (\<exists>e. q = Inl e)" by (metis not_None_eq sum.exhaust)
              then show ?thesis using n h r x t by auto
            qed (use n h r x in simp)
          qed (use n h in simp)
        qed (use n in simp)
        then show ?thesis using skipped by (simp add: s_def)
      qed
    qed
    qed
  qed
qed

lemma next_frame_pending:
  "next_frame d = Returns (d', out) \<Longrightarrow> pending d' \<le> pending d \<and> (\<forall>f. out = Inr (Some f) \<longrightarrow> pending d' < pending d)"
proof (induction d rule: next_frame.induct)
  case (1 d)
  from 1(2) show ?case
  proof (cases rule: next_frame_cases)
    case skipped
    then show ?thesis using pending_skip[of d] by simp
  next
    case (blank nl s)
    have "pending (s\<lparr>dec_pos := dec_pos s + nl + 1\<rparr>) \<le> pending s" by (simp add: pending_def)
    moreover have "pending s \<le> pending d" using pending_skip[of d] blank(1) by simp
    moreover have "a \<le> x \<and> (\<forall>f. out = Inr (Some f) \<longrightarrow> a < x) \<Longrightarrow> x \<le> y \<Longrightarrow> y \<le> z \<Longrightarrow>
        a \<le> z \<and> (\<forall>f. out = Inr (Some f) \<longrightarrow> a < z)" for a x y z :: nat
      by auto
    ultimately show ?thesis using 1(1)[OF blank(1,2) refl blank(3,4)] by blast
  next
    case (framed p s)
    have "pending (s\<lparr>dec_pos := p\<rparr>) < pending s" using framed(2,3) by (simp add: pending_def)
    then have "pending d' < pending s" using framed(4) by simp
    moreover have "pending s \<le> pending d" using pending_skip[of d] framed(1) by simp
    ultimately show ?thesis by simp
  qed
qed

lemma next_frame_inv: "next_frame d = Returns (d', out) \<Longrightarrow> dec_pos d \<le> length (dec_buf d) \<Longrightarrow> dec_inv d'"
proof (induction d rule: next_frame.induct)
  case (1 d)
  have sk: "dec_inv (skip_heartbeats d)"
    unfolding skip_heartbeats_def by (rule dec_inv_compact) (use skip_loop_drop[OF 1(3)] in simp)
  from 1(2) show ?case
  proof (cases rule: next_frame_cases)
    case (blank nl s)
    have "dec_pos s + nl + 1 \<le> length (dec_buf s)" using find_byte_less[OF blank(2)] by simp
    then show ?thesis using 1(1)[OF blank(1,2) refl blank(3,4)] by simp
  next
    case (framed p s)
    then show ?thesis using dec_inv_compact[of "s\<lparr>dec_pos := p\<rparr>"] by simp
  qed (use sk in simp)
qed

lemma pending_push: "pending (push data d) \<le> pending d + length data"
  by (simp add: pending_def push_def)

lemma read_loop_budget: "read_loop k d = Returns (k', d', Inr f) \<Longrightarrow> budget k' d' < budget k d"
proof (induction k d rule: read_loop.induct)
  case (1 k d)
  show ?case
  proof (cases "next_frame d")
    case (Returns x)
    obtain d1 out where x: "x = (d1, out)" by (cases x)
    note n = next_frame_pending[OF Returns[unfolded x]]
    show ?thesis
    proof (cases "out = Inr None")
      case False
      then show ?thesis
        using 1(2) Returns x n by (subst (asm) read_loop.simps) (auto simp: budget_def split: sum.splits option.splits)
    next
      case True
      then obtain kk data rs where k: "k = Some kk" "sk_reads kk = IoOk data # rs" "data \<noteq> []" "\<not> max_frame_bytes < pending d1"
        and r: "read_loop (Some (kk\<lparr>sk_reads := rs\<rparr>)) (push data d1) = Returns (k', d', Inr f)"
        using 1(2) Returns x
        by (subst (asm) read_loop.simps) (auto split: if_splits option.splits list.splits io_result.splits)
      have "budget k' d' < budget (Some (kk\<lparr>sk_reads := rs\<rparr>)) (push data d1)"
        using 1(1)[OF Returns x[symmetric] _ _ _ k(1,2) _ _ r] True k(3,4) by simp
      also have "\<dots> \<le> budget k d"
        using pending_push[of data d1] n by (simp add: budget_def k(1,2))
      finally show ?thesis .
    qed
  qed (use 1(2) in \<open>subst (asm) read_loop.simps, simp\<close>)
qed

text \<open>
  The loops that wait for a frame: read frames until one decides.  \<open>connect\<close>, \<open>await_receipt\<close>
  and \<open>await_message\<close> are this loop with their \<open>match\<close> on the frame.
\<close>

function read_until ::
    "(frame \<Rightarrow> 'a option) \<Rightarrow> sock option \<Rightarrow> decoder \<Rightarrow> (sock option \<times> decoder \<times> (string + 'a)) outcome" where
  "read_until decide stream d =
     (case read_loop stream d of
        Panics \<Rightarrow> Panics
      | Returns (stream, d, Inl e) \<Rightarrow> Returns (stream, d, Inl e)
      | Returns (stream, d, Inr f) \<Rightarrow>
          (case decide f of Some a \<Rightarrow> Returns (stream, d, Inr a) | None \<Rightarrow> read_until decide stream d))"
  by pat_completeness auto
termination
  by (relation "measure (\<lambda>(decide, k, d). budget k d)") (auto dest: read_loop_budget)

declare read_until.simps [simp del]

definition error_message :: "string \<Rightarrow> frame \<Rightarrow> string" where
  "error_message fallback f = (case header ''message'' f of Some m \<Rightarrow> m | None \<Rightarrow> fallback)"

datatype connect_reply = Connected | Refused string

definition connect_decide :: "frame \<Rightarrow> connect_reply option" where
  "connect_decide f =
     (if fr_command f = ''CONNECTED'' then Some Connected
      else if fr_command f = ''ERROR'' then Some (Refused (error_message ''broker rejected CONNECT'' f))
      else None)"

definition receipt_decide :: "string \<Rightarrow> frame \<Rightarrow> (string + unit) option" where
  "receipt_decide receipt_id f =
     (if fr_command f = ''RECEIPT'' then (if header ''receipt-id'' f = Some receipt_id then Some (Inr ()) else None)
      else if fr_command f = ''ERROR'' then Some (Inl (error_message ''broker returned ERROR'' f))
      else None)"

definition message_decide :: "frame \<Rightarrow> (string + u64 \<times> string option) option" where
  "message_decide f =
     (if fr_command f = ''MESSAGE''
      then Some (Inr (of_nat (length (fr_body f)),
             case header ''ack'' f of Some a \<Rightarrow> Some a | None \<Rightarrow> header ''message-id'' f))
      else if fr_command f = ''ERROR'' then Some (Inl (error_message ''broker returned ERROR'' f))
      else None)"

text \<open>Run a waiting loop on the session; an error decided by a frame is an error of the call.\<close>

definition session_read ::
    "(frame \<Rightarrow> 'a option) \<Rightarrow> stomp_session \<Rightarrow> (stomp_session \<times> (string + 'a)) outcome" where
  "session_read decide s =
     (case read_until decide (se_stream s) (se_decoder s) of
        Panics \<Rightarrow> Panics
      | Returns (k, d, r) \<Rightarrow> Returns (s\<lparr>se_stream := k, se_decoder := d\<rparr>, r))"

definition flatten :: "string + (string + 'a) \<Rightarrow> string + 'a" where
  "flatten r = (case r of Inl e \<Rightarrow> Inl e | Inr r' \<Rightarrow> r')"

definition await_receipt :: "string \<Rightarrow> stomp_session \<Rightarrow> (stomp_session \<times> (string + unit)) outcome" where
  "await_receipt receipt_id s =
     (case session_read (receipt_decide receipt_id) s of
        Panics \<Rightarrow> Panics | Returns (s', r) \<Rightarrow> Returns (s', flatten r))"

definition await_message :: "stomp_session \<Rightarrow> (stomp_session \<times> (string + u64 \<times> string option)) outcome" where
  "await_message s =
     (case session_read message_decide s of Panics \<Rightarrow> Panics | Returns (s', r) \<Rightarrow> Returns (s', flatten r))"

section \<open>Connecting and subscribing\<close>

definition connect_frame :: frame where
  "connect_frame =
     with_header ''heart-beat'' ''0,0'' (with_header ''host'' ''/'' (with_header ''accept-version'' ''1.2'' (frame_new ''CONNECT'')))"

definition stomp_connect :: "sock io_result \<Rightarrow> stomp_session \<Rightarrow> (stomp_session \<times> (string + unit)) outcome" where
  "stomp_connect offer s =
     (case offer of
        IoTimeout \<Rightarrow> Returns (s, Inl ''STOMP connect timed out'')
      | IoFailed e \<Rightarrow> Returns (s, Inl (''STOMP connect failed: '' @ e))
      | IoOk k \<Rightarrow>
          (case write_frame (encode connect_frame) (s\<lparr>se_stream := Some k, se_decoder := decoder_new\<rparr>) of
             (s, Inl e) \<Rightarrow> Returns (s, Inl e)
           | (s, Inr _) \<Rightarrow>
               (case session_read connect_decide s of
                  Panics \<Rightarrow> Panics
                | Returns (s, Inl e) \<Rightarrow> Returns (s, Inl e)
                | Returns (s, Inr Connected) \<Rightarrow>
                    Returns (s\<lparr>se_reconnected_this_iteration := se_reconnected_this_iteration s \<or> se_ever_connected s,
                               se_ever_connected := True, se_connected := True\<rparr>, Inr ())
                | Returns (s, Inr (Refused msg)) \<Rightarrow> Returns (session_reset s, Inl msg))))"

definition ensure_connected :: "sock io_result \<Rightarrow> stomp_session \<Rightarrow> (stomp_session \<times> (string + unit)) outcome" where
  "ensure_connected offer s = (if se_connected s then Returns (s, Inr ()) else stomp_connect offer s)"

definition subscribe_frame :: "stomp_session \<Rightarrow> frame" where
  "subscribe_frame s =
     with_header ''ack'' (stomp_ack_as_str (se_ack s))
       (with_header ''destination'' (se_destination s) (with_header ''id'' ''sub-0'' (frame_new ''SUBSCRIBE'')))"

definition ensure_subscribed :: "nat \<Rightarrow> stomp_session \<Rightarrow> stomp_session \<times> (string + unit)" where
  "ensure_subscribed now s =
     (if se_subscribed s then (s, Inr ())
      else case write_frame (encode (subscribe_frame s)) s of
        (s, Inl e) \<Rightarrow> (s, Inl e)
      | (s, Inr _) \<Rightarrow>
          (s\<lparr>se_subscribed := True, se_subscribed_at := Some now, se_last_message_at := None, se_saw_first_message := False\<rparr>, Inr ()))"

section \<open>Iterations\<close>

text \<open>The instants an iteration reads, in nanoseconds.\<close>

record iteration_clock =
  ic_start :: nat
  ic_subscribed :: nat
  ic_mark :: nat
  ic_latency :: nat
  ic_end :: nat

definition micros :: "nat \<Rightarrow> nat \<Rightarrow> nat" where
  "micros t t\<^sub>0 = (t - t\<^sub>0) div 1000"

definition stomp_sample_default :: stomp_sample where
  "stomp_sample_default =
     \<lparr>sts_messages_sent = 0, sts_messages_received = 0, sts_bytes_sent = 0, sts_bytes_received = 0, sts_errors = 0,
      sts_reconnects = 0, sts_send_latency_us = None, sts_receive_interval_us = None, sts_ttfm_us = None\<rparr>"

definition error_metric :: "iteration_clock \<Rightarrow> chaos_fault option \<Rightarrow> stomp_session \<Rightarrow> request_metric" where
  "error_metric t fault s =
     with_stomp (Some (stomp_sample_default\<lparr>sts_errors := 1, sts_reconnects := of_bool (se_reconnected_this_iteration s)\<rparr>))
       (with_status 0 (rm_builder (of_nat (micros (ic_end t) (ic_start t))) fault))"

definition failed :: "iteration_clock \<Rightarrow> chaos_fault option \<Rightarrow> stomp_session \<Rightarrow> (stomp_session \<times> request_metric) outcome" where
  "failed t fault s = Returns (session_reset s, error_metric t fault (session_reset s))"

definition input_payload :: "chaos_fault option \<Rightarrow> bytes \<Rightarrow> bytes" where
  "input_payload fault payload =
     (if fault = Some CorruptedPayload
      then case payload of [] \<Rightarrow> [] | b # bs \<Rightarrow> char_of ((byte b + 1) mod 256) # bs
      else payload)"

definition send_frame :: "chaos_fault option \<Rightarrow> string option \<Rightarrow> stomp_session \<Rightarrow> frame" where
  "send_frame fault receipt_id s =
     (let body = input_payload fault (se_payload s);
          f = with_header ''destination'' (se_destination s) (frame_new ''SEND'');
          f = foldl (\<lambda>f (name, val). set_header name val f) f (se_headers s);
          f = (if fault = Some MetadataCorruption then set_header ''x-chaos'' ''metadata-corruption'' f else f);
          f = (set_header ''content-length'' (show_nat (length body)) f)\<lparr>fr_body := body\<rparr>
      in case receipt_id of Some ident \<Rightarrow> set_header ''receipt'' ident f | None \<Rightarrow> f)"

definition produce ::
    "sock io_result \<Rightarrow> iteration_clock \<Rightarrow> chaos_fault option \<Rightarrow> stomp_session \<Rightarrow> (stomp_session \<times> request_metric) outcome" where
  "produce offer t fault s =
     (case ensure_connected offer s of
        Panics \<Rightarrow> Panics
      | Returns (s, Inl e) \<Rightarrow> failed t fault s
      | Returns (s, Inr _) \<Rightarrow>
          (let s = (if se_receipt s then s\<lparr>se_receipt_seq := se_receipt_seq s + 1\<rparr> else s);
               receipt_id = (if se_receipt s then Some (''r-'' @ show_nat (unat (se_receipt_seq s))) else None);
               data = encode (send_frame fault receipt_id s)
           in case write_frame data s of
                (s, Inl e) \<Rightarrow> failed t fault s
              | (s, Inr _) \<Rightarrow>
                  (let finish = (\<lambda>latency s. (s,
                         with_stomp (Some (stomp_sample_default\<lparr>sts_messages_sent := 1, sts_bytes_sent := of_nat (length data),
                             sts_send_latency_us := Some (of_nat latency), sts_reconnects := of_bool (se_reconnected_this_iteration s)\<rparr>))
                           (with_status 200 (rm_builder (of_nat (micros (ic_end t) (ic_start t))) fault))))
                   in case receipt_id of
                        None \<Rightarrow> Returns (finish (micros (ic_latency t) (ic_mark t)) s)
                      | Some ident \<Rightarrow>
                          (case await_receipt ident s of
                             Panics \<Rightarrow> Panics
                           | Returns (s, Inl e) \<Rightarrow> failed t fault s
                           | Returns (s, Inr _) \<Rightarrow> Returns (finish (micros (ic_latency t) (ic_start t)) s)))))"

text \<open>The time fields of a received message.\<close>

definition note_message :: "nat \<Rightarrow> stomp_session \<Rightarrow> stomp_session \<times> u64 option \<times> u64 option" where
  "note_message now s =
     (let ttfm = (if se_saw_first_message s then None
                  else map_option (\<lambda>since. of_nat (micros now since)) (se_subscribed_at s));
          interval = map_option (\<lambda>since. of_nat (micros now since)) (se_last_message_at s)
      in (s\<lparr>se_saw_first_message := True, se_last_message_at := Some now\<rparr>, ttfm, interval))"

definition consume ::
    "sock io_result \<Rightarrow> iteration_clock \<Rightarrow> chaos_fault option \<Rightarrow> stomp_session \<Rightarrow> (stomp_session \<times> request_metric) outcome" where
  "consume offer t fault s =
     (case ensure_connected offer s of
        Panics \<Rightarrow> Panics
      | Returns (s, Inl e) \<Rightarrow> failed t fault s
      | Returns (s, Inr _) \<Rightarrow>
          (case ensure_subscribed (ic_subscribed t) s of
             (s, Inl e) \<Rightarrow> failed t fault s
           | (s, Inr _) \<Rightarrow>
               (case await_message s of
                  Panics \<Rightarrow> Panics
                | Returns (s, Inl e) \<Rightarrow> failed t fault s
                | Returns (s, Inr (body_len, ack_id)) \<Rightarrow>
                    (case note_message (ic_mark t) s of
                       (s, ttfm, interval) \<Rightarrow>
                         (case (case ack_id of
                                  Some ident \<Rightarrow> if se_ack s \<noteq> Auto then write_frame (encode (ack_frame ident)) s else (s, Inr ())
                                | None \<Rightarrow> (s, Inr ())) of
                            (s, Inl e) \<Rightarrow> failed t fault s
                          | (s, Inr _) \<Rightarrow>
                              Returns (s,
                                with_stomp (Some (stomp_sample_default\<lparr>sts_messages_received := 1, sts_bytes_received := body_len,
                                    sts_receive_interval_us := interval, sts_ttfm_us := ttfm,
                                    sts_reconnects := of_bool (se_reconnected_this_iteration s)\<rparr>))
                                  (with_bytes body_len
                                    (with_status 200 (rm_builder (of_nat (micros (ic_end t) (ic_start t))) fault)))))))))"

text \<open>\<open>r\<close> and \<open>n\<close> are the random numbers of the fault selection.\<close>

definition run_iteration ::
    "stomp_engine \<Rightarrow> f32 \<Rightarrow> nat \<Rightarrow> sock io_result \<Rightarrow> iteration_clock \<Rightarrow> stomp_session \<Rightarrow> (stomp_session \<times> request_metric) outcome" where
  "run_iteration g r n offer t s =
     (let fault = select_fault (sg_chaos g) r n
      in if fault = Some ConnectionDrop then Returns (session_reset s, rm_error 0 fault)
         else let s = s\<lparr>se_reconnected_this_iteration := False\<rparr>
              in case sg_mode g of Produce \<Rightarrow> produce offer t fault s | Consume \<Rightarrow> consume offer t fault s)"

text \<open>Leaving: DISCONNECT is written if there is a connection; the outcome of the write is ignored.\<close>

definition session_shutdown :: "stomp_session \<Rightarrow> stomp_session" where
  "session_shutdown s = s\<lparr>se_stream := None, se_connected := False\<rparr>"

section \<open>Frames survive any chunking\<close>

fun read_frames :: "nat \<Rightarrow> sock option \<Rightarrow> decoder \<Rightarrow> (sock option \<times> decoder \<times> (string + frame list)) outcome" where
  "read_frames 0 k d = Returns (k, d, Inr [])"
| "read_frames (Suc n) k d =
     (case read_loop k d of
        Panics \<Rightarrow> Panics
      | Returns (k, d, Inl e) \<Rightarrow> Returns (k, d, Inl e)
      | Returns (k, d, Inr f) \<Rightarrow>
          (case read_frames n k d of
             Panics \<Rightarrow> Panics
           | Returns (k, d, Inl e) \<Rightarrow> Returns (k, d, Inl e)
           | Returns (k, d, Inr fs) \<Rightarrow> Returns (k, d, Inr (f # fs))))"

definition data_of :: "sock \<Rightarrow> bytes" where
  "data_of k = concat (map (\<lambda>r. case r of IoOk data \<Rightarrow> data | _ \<Rightarrow> []) (sk_reads k))"

definition healthy :: "sock \<Rightarrow> bool" where
  "healthy k \<longleftrightarrow> list_all (\<lambda>r. case r of IoOk data \<Rightarrow> data \<noteq> [] | _ \<Rightarrow> False) (sk_reads k)"

lemma parse_frame_heartbeats: "list_all is_eol hb \<Longrightarrow> parse_frame (hb @ bs) = parse_frame bs"
proof -
  assume "list_all is_eol hb"
  then have "dropWhile is_eol (hb @ bs) = dropWhile is_eol bs" by (induction hb) auto
  then show ?thesis by (simp add: parse_frame_def)
qed

lemma wf_frame_hd: "wf_frame f \<Longrightarrow> \<exists>c cs. encode f = c # cs \<and> \<not> is_eol c"
proof -
  assume "wf_frame f"
  then obtain c cs where c: "fr_command f = c # cs" "ascii_graphic c" by (cases "fr_command f") (auto simp: wf_frame_def)
  then have "\<not> is_eol c" by (auto simp: ascii_graphic_def is_eol_def)
  then show ?thesis using c by (simp add: encode_def)
qed

text \<open>Part of the bytes of an encoded frame, after heartbeats: what the decoder keeps of it.\<close>

lemma partial_frame:
  assumes "wf_frame f" and "list_all is_eol hb" and "u @ x = hb @ encode f @ r" and "parse_frame u = Incomplete"
  shows "length (dropWhile is_eol u) \<le> length (encode f) \<and>
    (\<exists>hb'. list_all is_eol hb' \<and> dropWhile is_eol u @ x = hb' @ encode f @ r)"
proof (cases "length u \<le> length hb")
  case True
  then obtain hb' where h: "hb = u @ hb'" "x = hb' @ encode f @ r" using assms(3) by (auto simp: append_eq_append_conv2)
  then have dw: "dropWhile is_eol u = []" using assms(2) by (simp add: dropWhile_eq_Nil_conv list_all_iff)
  show ?thesis unfolding dw using h assms(2) by (auto intro!: exI[of _ hb'])
next
  case False
  moreover obtain us where "u = hb @ us \<and> us @ x = encode f @ r \<or> u @ us = hb \<and> x = us @ encode f @ r"
    using assms(3) append_eq_append_conv2[of u x hb "encode f @ r"] by blast
  ultimately obtain u' where u: "u = hb @ u'" "u' @ x = encode f @ r" "u' \<noteq> []" by auto
  have "\<not> length (encode f) \<le> length u'"
  proof
    assume "length (encode f) \<le> length u'"
    moreover have "take (length (encode f)) (u' @ x) = encode f" using u(2) by simp
    ultimately have "u' = encode f @ drop (length (encode f)) u'" using append_take_drop_id[of "length (encode f)" u'] by simp
    then obtain y where "u' = encode f @ y" by blast
    then have "parse_frame u = Parsed f y" using u(1) parse_frame_heartbeats[OF assms(2)] parse_frame_encode[OF assms(1)] by simp
    then show False using assms(4) by simp
  qed
  moreover have "dropWhile is_eol u = u'"
  proof -
    obtain c cs where c: "encode f = c # cs" "\<not> is_eol c" using wf_frame_hd[OF assms(1)] by blast
    then have "dropWhile is_eol u' = u'" using u(2,3) by (cases u') auto
    moreover have "dropWhile is_eol (hb @ u') = dropWhile is_eol u'" using assms(2) by (induction hb) auto
    ultimately show ?thesis using u(1) by simp
  qed
  ultimately show ?thesis using u(2) by (auto intro!: exI[of _ "[]"])
qed

lemma read_loop_encoded:
  assumes "dec_inv d" and "healthy k" and "length (dec_buf d) + length (data_of k) < 2 ^ 63"
    and "wf_frame f" and "length (encode f) \<le> max_frame_bytes" and "list_all is_eol hb" and "unread d @ data_of k = hb @ encode f @ r"
  shows "\<exists>k' d'. read_loop (Some k) d = Returns (Some k', d', Inr f) \<and> dec_inv d' \<and> healthy k' \<and> unread d' @ data_of k' = r \<and>
     length (dec_buf d') + length (data_of k') \<le> length (dec_buf d) + length (data_of k)"
  using assms
proof (induction "sk_reads k" arbitrary: k d hb)
  case Nil
  have l: "length (dec_buf d) < 2 ^ 63" using Nil(4) by simp
  have e: "data_of k = []" using Nil(1) by (simp add: data_of_def flip: Nil(1))
  have "parse_frame (unread d) = Parsed f r"
    using Nil(8) parse_frame_heartbeats[OF Nil(7)] parse_frame_encode[OF Nil(5)] e by simp
  then show ?case
    using next_frame_parse[OF Nil(2) l] Nil(3) e by (subst read_loop.simps) fastforce
next
  case (Cons x rs)
  obtain data where x: "x = IoOk data" "data \<noteq> []"
    using Cons(2,4) by (cases x) (auto simp: healthy_def simp flip: Cons(2))
  let ?k = "k\<lparr>sk_reads := rs\<rparr>"
  have dk: "data_of k = data @ data_of ?k" by (simp add: data_of_def x flip: Cons(2))
  have h: "healthy ?k" using Cons(4) by (auto simp: healthy_def simp flip: Cons(2))
  have l: "length (dec_buf d) < 2 ^ 63" using Cons(5) by simp
  note n = next_frame_parse[OF Cons(3) l]
  have pf: "parse_frame (unread d @ data_of k) = Parsed f r"
    using Cons(9) parse_frame_heartbeats[OF Cons(8)] parse_frame_encode[OF Cons(6)] by simp
  note app = parse_frame_app[where bs = "unread d" and x = "data_of k", unfolded pf]
  show ?case
  proof (cases "parse_frame (unread d)")
    case (Parsed f' r')
    then obtain d' where d': "next_frame d = Returns (d', Inr (Some f'))" "dec_inv d'" "unread d' = r'"
      "length (dec_buf d') \<le> length (dec_buf d)" using n by auto
    have "f' = f" "r' @ data_of k = r" using app Parsed by simp_all
    then show ?thesis using d' Cons(4) by (subst read_loop.simps) fastforce
  next
    case Incomplete
    then have nf: "next_frame d = Returns (skip_heartbeats d, Inr None)" using n by simp
    note sk = skip_heartbeats_facts[OF Cons(3)]
    define d1 where "d1 = push data (skip_heartbeats d)"
    obtain hb' where p: "length (dropWhile is_eol (unread d)) \<le> length (encode f)" "list_all is_eol hb'"
      "dropWhile is_eol (unread d) @ data_of k = hb' @ encode f @ r"
      using partial_frame[OF Cons(6,8,9) Incomplete] by blast
    have inv: "dec_inv d1" using sk(1) by (simp add: d1_def)
    have un: "unread d1 @ data_of ?k = hb' @ encode f @ r" using sk(1,2) dk p(3) by (simp add: d1_def)
    have len: "length (dec_buf d1) + length (data_of ?k) \<le> length (dec_buf d) + length (data_of k)"
      using sk(3) dk by (simp add: d1_def push_def)
    have small: "\<not> max_frame_bytes < pending (skip_heartbeats d)"
      using p(1) Cons(7) by (simp add: pending_unread sk(2))
    have e: "read_loop (Some k) d = read_loop (Some ?k) d1"
      using nf small x by (subst read_loop.simps) (simp add: d1_def flip: Cons(2))
    have "\<exists>k' d'. read_loop (Some ?k) d1 = Returns (Some k', d', Inr f) \<and> dec_inv d' \<and> healthy k' \<and>
        unread d' @ data_of k' = r \<and> length (dec_buf d') + length (data_of k') \<le> length (dec_buf d1) + length (data_of ?k)"
      by (rule Cons(1)[OF _ inv h _ Cons(6,7) p(2) un]) (use len Cons(5) in simp_all)
    then show ?thesis unfolding e using len by (blast intro: le_trans[OF _ len])
  qed (use app in simp_all)
qed

definition wire :: "(bytes \<times> frame) list \<Rightarrow> bytes" where
  "wire xs = concat (map (\<lambda>(hb, f). hb @ encode f) xs)"

lemma read_frames_encoded:
  assumes "list_all (\<lambda>(hb, f). list_all is_eol hb \<and> wf_frame f \<and> length (encode f) \<le> max_frame_bytes) xs"
    and "dec_inv d" and "healthy k" and "length (dec_buf d) + length (data_of k) < 2 ^ 63"
    and "unread d @ data_of k = wire xs @ r"
  shows "\<exists>k' d'. read_frames (length xs) (Some k) d = Returns (Some k', d', Inr (map snd xs)) \<and> unread d' @ data_of k' = r"
  using assms
proof (induction xs arbitrary: k d)
  case (Cons x xs)
  obtain hb f where x: "x = (hb, f)" by (cases x)
  have w: "list_all is_eol hb" "wf_frame f" "length (encode f) \<le> max_frame_bytes" using Cons(2) x by simp_all
  have u: "unread d @ data_of k = hb @ encode f @ (wire xs @ r)" using Cons(6) x by (simp add: wire_def)
  obtain k' d' where r: "read_loop (Some k) d = Returns (Some k', d', Inr f)" "dec_inv d'" "healthy k'"
    "unread d' @ data_of k' = wire xs @ r" "length (dec_buf d') + length (data_of k') \<le> length (dec_buf d) + length (data_of k)"
    using read_loop_encoded[OF Cons(3,4,5) w(2,3,1) u] by blast
  have "length (dec_buf d') + length (data_of k') < 2 ^ 63" using r(5) Cons(5) by linarith
  then obtain k'' d'' where "read_frames (length xs) (Some k') d' = Returns (Some k'', d'', Inr (map snd xs))" "unread d'' @ data_of k'' = r"
    using Cons(1)[OF _ r(2,3) _ r(4)] Cons(2) by auto
  then show ?case using r(1) x by simp
qed (simp add: wire_def)

text \<open>C17: Frames survive the wire.  Take any list of frames the encoder can transmit, each at most 16
  MiB long when encoded, with any number of heartbeats before each of them, and cut the
  resulting bytes into reads of any positive sizes; then a session that starts with a fresh
  decoder reads back exactly these frames, in order, and what follows them on the wire is
  neither lost nor touched.\<close>

theorem frames_survive_chunking:
  assumes "list_all (\<lambda>(hb, f). list_all is_eol hb \<and> wf_frame f \<and> length (encode f) \<le> max_frame_bytes) xs"
    and "list_all (\<lambda>c. c \<noteq> []) chunks" and "concat chunks = wire xs @ r" and "length (concat chunks) < 2 ^ 63"
  shows "\<exists>k d. read_frames (length xs) (Some \<lparr>sk_writes = [], sk_reads = map IoOk chunks, sk_sent = []\<rparr>) decoder_new =
             Returns (Some k, d, Inr (map snd xs)) \<and> unread d @ data_of k = r"
proof -
  let ?k = "\<lparr>sk_writes = [], sk_reads = map IoOk chunks, sk_sent = []\<rparr>"
  have d: "data_of ?k = concat chunks" "healthy ?k"
    using assms(2) by (simp_all add: data_of_def healthy_def comp_def list_all_iff)
  show ?thesis
    by (rule read_frames_encoded[OF assms(1) _ d(2)]) (use d(1) assms(3,4) in \<open>simp_all add: decoder_new_def dec_inv_def unread_def\<close>)
qed

lemma sample_frame_wf: "wf_frame sample_frame"
proof -
  have h: "header_length (fr_headers sample_frame) = None" by code_simp
  show ?thesis unfolding wf_frame_def content_length_header h option.case by code_simp
qed

theorem frames_survive_chunking_witness:
  "\<exists>k d. read_frames 2 (Some \<lparr>sk_writes = [], sk_reads = map IoOk (map (\<lambda>c. [c]) (wire [([LF], sample_frame), ([], sample_frame)])),
      sk_sent = []\<rparr>) decoder_new = Returns (Some k, d, Inr [sample_frame, sample_frame])"
proof -
  let ?xs = "[([LF], sample_frame), ([], sample_frame)]"
  have e: "length (encode sample_frame) = 36" by code_simp
  have a: "list_all (\<lambda>(hb, f). list_all is_eol hb \<and> wf_frame f \<and> length (encode f) \<le> max_frame_bytes) ?xs"
    using sample_frame_wf e by (simp add: is_eol_def max_frame_bytes_def)
  have b: "list_all (\<lambda>c. c \<noteq> []) (map (\<lambda>c. [c]) (wire ?xs))" by (simp add: list_all_iff)
  have c: "concat (map (\<lambda>c. [c]) (wire ?xs)) = wire ?xs @ []" by simp
  have l: "length (concat (map (\<lambda>c. [c]) (wire ?xs))) < 2 ^ 63" using e by (simp add: wire_def)
  have n: "length ?xs = 2" "map snd ?xs = [sample_frame, sample_frame]" by simp_all
  from frames_survive_chunking[OF a b c l] show ?thesis unfolding n by blast
qed

end
