(* ===== verification/Stomp_Session.thy ===== *)
theory Stomp_Session
  imports Stomp_Engine
begin

text \<open>
  Properties of STOMP sessions (\<open>protocols/stomp.rs\<close>): the invariant that every iteration keeps
  whatever the network and the fault injection do, what a failed iteration leaves behind, what a
  successful SEND has put on the wire, and which frame completes a receipted SEND.
\<close>

section \<open>The session invariant\<close>

definition session_inv :: "stomp_session \<Rightarrow> bool" where
  "session_inv s \<longleftrightarrow> dec_inv (se_decoder s) \<and>
     (se_connected s \<longrightarrow> se_stream s \<noteq> None \<and> se_ever_connected s) \<and>
     (se_subscribed s \<longrightarrow> se_connected s) \<and>
     (se_subscribed_at s = None \<longleftrightarrow> \<not> se_subscribed s) \<and>
     (se_last_message_at s = None \<longleftrightarrow> \<not> se_saw_first_message s) \<and>
     (se_saw_first_message s \<longrightarrow> se_subscribed s)"

text \<open>The fields a reset clears.\<close>

definition disconnected :: "stomp_session \<Rightarrow> bool" where
  "disconnected s \<longleftrightarrow> se_stream s = None \<and> se_decoder s = decoder_new \<and> \<not> se_connected s \<and> \<not> se_subscribed s \<and>
     se_subscribed_at s = None \<and> se_last_message_at s = None \<and> \<not> se_saw_first_message s"

lemma disconnected_reset [simp]: "disconnected (session_reset s)"
  by (simp add: disconnected_def session_reset_def)

lemma disconnected_inv: "disconnected s \<Longrightarrow> session_inv s"
  by (simp add: disconnected_def session_inv_def)

lemma disconnected_new [simp]: "disconnected (new_session g)"
  by (simp add: disconnected_def new_session_def)

lemma read_loop_inv: "read_loop k d = Returns (k', d', r) \<Longrightarrow> dec_inv d \<Longrightarrow> dec_inv d' \<and> (k' = None \<longleftrightarrow> k = None)"
proof (induction k d rule: read_loop.induct)
  case (1 k d)
  have p: "dec_pos d \<le> length (dec_buf d)" using 1(3) by (auto simp: dec_inv_def)
  show ?case
  proof (cases "next_frame d")
    case (Returns x)
    obtain d1 out where x: "x = (d1, out)" by (cases x)
    have i: "dec_inv d1" by (rule next_frame_inv[OF Returns[unfolded x] p])
    show ?thesis
    proof (cases "\<exists>kk data rs. out = Inr None \<and> \<not> max_frame_bytes < pending d1 \<and> k = Some kk \<and> sk_reads kk = IoOk data # rs \<and> data \<noteq> []")
      case True
      then obtain kk data rs where t: "out = Inr None" "\<not> max_frame_bytes < pending d1" "k = Some kk" "sk_reads kk = IoOk data # rs" "data \<noteq> []"
        by blast
      have r: "read_loop (Some (kk\<lparr>sk_reads := rs\<rparr>)) (push data d1) = Returns (k', d', r)"
        using 1(2) Returns x t by (subst (asm) read_loop.simps) simp
      show ?thesis
        using 1(1)[OF Returns x[symmetric] t(1) refl t(2,3,4) refl t(5) r] i t(3) by simp
    next
      case False
      then show ?thesis
        using 1(2) Returns x i
        by (subst (asm) read_loop.simps) (auto split: sum.splits option.splits if_splits list.splits io_result.splits)
    qed
  qed (use 1(2) in \<open>subst (asm) read_loop.simps, simp\<close>)
qed

lemma read_until_inv: "read_until decide k d = Returns (k', d', r) \<Longrightarrow> dec_inv d \<Longrightarrow> dec_inv d' \<and> (k' = None \<longleftrightarrow> k = None)"
proof (induction decide k d rule: read_until.induct)
  case (1 decide k d)
  show ?case
  proof (cases "read_loop k d")
    case (Returns x)
    obtain k1 d1 r1 where x: "x = (k1, d1, r1)" by (cases x)
    note i = read_loop_inv[OF Returns[unfolded x] 1(3)]
    show ?thesis
    proof (cases "\<exists>f. r1 = Inr f \<and> decide f = None")
      case True
      then obtain f where f: "r1 = Inr f" "decide f = None" by blast
      have r: "read_until decide k1 d1 = Returns (k', d', r)"
        using 1(2) Returns x f by (subst (asm) read_until.simps) simp
      show ?thesis using 1(1)[OF Returns x[symmetric] refl f(1,2) r] i by simp
    next
      case False
      then show ?thesis
        using 1(2) Returns x i by (subst (asm) read_until.simps) (auto split: sum.splits option.splits)
    qed
  qed (use 1(2) in \<open>subst (asm) read_until.simps, simp\<close>)
qed

lemma session_read_update:
  assumes "session_read decide s = Returns (s', r)" and "dec_inv (se_decoder s)"
  obtains k d where "s' = s\<lparr>se_stream := k, se_decoder := d\<rparr>" "dec_inv d" "k = None \<longleftrightarrow> se_stream s = None"
    "read_until decide (se_stream s) (se_decoder s) = Returns (k, d, r)"
proof (cases "read_until decide (se_stream s) (se_decoder s)")
  case (Returns x)
  obtain k d r1 where x: "x = (k, d, r1)" by (cases x)
  show ?thesis
    using assms(1) read_until_inv[OF Returns[unfolded x] assms(2)] Returns x that by (auto simp: session_read_def)
qed (use assms(1) in \<open>simp add: session_read_def\<close>)

lemma write_frame_update:
  assumes "write_frame data s = (s', r)"
  obtains k where "s' = s\<lparr>se_stream := k\<rparr>" "k = None \<longleftrightarrow> se_stream s = None"
    "\<And>u. r = Inr u \<Longrightarrow> \<exists>k\<^sub>0 k\<^sub>1. se_stream s = Some k\<^sub>0 \<and> k = Some k\<^sub>1 \<and> sk_sent k\<^sub>1 = sk_sent k\<^sub>0 @ data \<and> sk_reads k\<^sub>1 = sk_reads k\<^sub>0"
proof (cases "se_stream s")
  case None
  then show ?thesis using assms that[of None] by (auto simp: write_frame_def)
next
  case (Some k)
  then have "\<exists>k'. s' = s\<lparr>se_stream := Some k'\<rparr> \<and>
      (\<forall>u. r = Inr u \<longrightarrow> sk_sent k' = sk_sent k @ data \<and> sk_reads k' = sk_reads k)"
    using assms by (auto simp: write_frame_def split: list.splits io_result.splits intro: exI[of _ k])
  then show ?thesis using Some that by auto
qed

lemma session_inv_stream:
  "session_inv s \<Longrightarrow> k = None \<longleftrightarrow> se_stream s = None \<Longrightarrow> dec_inv d \<Longrightarrow> session_inv (s\<lparr>se_stream := k, se_decoder := d\<rparr>)"
  by (auto simp: session_inv_def)

lemma session_inv_seq [simp]: "session_inv (s\<lparr>se_receipt_seq := n\<rparr>) = session_inv s"
  "session_inv (s\<lparr>se_reconnected_this_iteration := b\<rparr>) = session_inv s"
  by (simp_all add: session_inv_def)

lemma write_frame_inv: "write_frame data s = (s', r) \<Longrightarrow> session_inv s \<Longrightarrow>
    session_inv s' \<and> se_connected s' = se_connected s \<and> se_subscribed s' = se_subscribed s"
  by (erule write_frame_update) (auto simp: session_inv_def)

lemma session_read_inv: "session_read decide s = Returns (s', r) \<Longrightarrow> session_inv s \<Longrightarrow>
    session_inv s' \<and> se_connected s' = se_connected s \<and> se_subscribed s' = se_subscribed s"
proof -
  assume r: "session_read decide s = Returns (s', r)" and i: "session_inv s"
  then have "dec_inv (se_decoder s)" by (simp add: session_inv_def)
  with r show ?thesis
    by (elim session_read_update) (use session_inv_stream[OF i] in auto)
qed

text \<open>A connection starts from a session that is not connected.\<close>

lemma stomp_connect_inv:
  assumes "stomp_connect offer s = Returns (s', Inr u)" and "session_inv s" and "\<not> se_connected s"
  shows "session_inv s' \<and> se_connected s' \<and> \<not> se_subscribed s'"
proof -
  obtain k where k: "offer = IoOk k" using assms(1) by (cases offer) (simp_all add: stomp_connect_def)
  define s1 where "s1 = s\<lparr>se_stream := Some k, se_decoder := decoder_new\<rparr>"
  have i1: "session_inv s1" "\<not> se_subscribed s1" "\<not> se_connected s1" "se_stream s1 \<noteq> None"
    using assms(2,3) by (auto simp: session_inv_def s1_def)
  obtain s2 r2 where w: "write_frame (encode connect_frame) s1 = (s2, r2)" by fastforce
  have i2: "session_inv s2" "\<not> se_subscribed s2" using write_frame_inv[OF w i1(1)] i1 by simp_all
  have st2: "se_stream s2 \<noteq> None" by (rule write_frame_update[OF w]) (use i1(4) in simp)
  obtain u2 where r2: "r2 = Inr u2" using assms(1) k w by (cases r2) (simp_all add: stomp_connect_def s1_def)
  show ?thesis
  proof (cases "session_read connect_decide s2")
    case (Returns x)
    obtain s3 r3 where x: "x = (s3, r3)" by (cases x)
    note i3 = session_read_inv[OF Returns[unfolded x] i2(1)]
    have st: "se_stream s3 \<noteq> None"
      by (rule session_read_update[OF Returns[unfolded x]]) (use i2 st2 in \<open>simp_all add: session_inv_def\<close>)
    have "r3 = Inr Connected" "s' = s3\<lparr>se_reconnected_this_iteration := se_reconnected_this_iteration s3 \<or> se_ever_connected s3,
        se_ever_connected := True, se_connected := True\<rparr>"
      using assms(1) k w r2 Returns x
      by (auto simp: stomp_connect_def s1_def split: sum.splits connect_reply.splits)
    then show ?thesis using i3 i2(2) st by (auto simp: session_inv_def)
  qed (use assms(1) k w r2 in \<open>simp add: stomp_connect_def s1_def\<close>)
qed

lemma ensure_connected_inv:
  assumes "ensure_connected offer s = Returns (s', Inr u)" and "session_inv s"
  shows "session_inv s' \<and> se_connected s'"
  using assms stomp_connect_inv[of offer s s' u] by (auto simp: ensure_connected_def split: if_splits)

lemma ensure_subscribed_inv:
  assumes "ensure_subscribed now s = (s', Inr u)" and "session_inv s" and "se_connected s"
  shows "session_inv s' \<and> se_connected s' \<and> se_subscribed s'"
proof (cases "se_subscribed s")
  case False
  obtain s1 r1 where w: "write_frame (encode (subscribe_frame s)) s = (s1, r1)" by fastforce
  note i = write_frame_inv[OF w assms(2)]
  then show ?thesis using assms(1,3) False w by (cases r1) (auto simp: ensure_subscribed_def session_inv_def)
qed (use assms in \<open>simp add: ensure_subscribed_def\<close>)

lemma await_inv:
  "await_message s = Returns (s', r) \<Longrightarrow> session_inv s \<Longrightarrow>
     session_inv s' \<and> se_connected s' = se_connected s \<and> se_subscribed s' = se_subscribed s"
  "await_receipt ident s = Returns (s', q) \<Longrightarrow> session_inv s \<Longrightarrow>
     session_inv s' \<and> se_connected s' = se_connected s \<and> se_subscribed s' = se_subscribed s"
  by (auto simp: await_message_def await_receipt_def split: outcome.splits dest!: session_read_inv)

lemma note_message_inv: "note_message now s = (s', x) \<Longrightarrow> session_inv s \<Longrightarrow> se_subscribed s \<Longrightarrow>
    session_inv s' \<and> se_connected s' = se_connected s \<and> se_subscribed s' = se_subscribed s"
  by (auto simp: note_message_def session_inv_def Let_def)

lemma status_error [simp]: "rm_status_code (error_metric t fault s) = 0"
  by (simp add: error_metric_def with_stomp_def with_status_def split: option.split)

lemma status_stomp [simp]: "rm_status_code (with_stomp x m) = rm_status_code m" "rm_status_code (with_bytes b m) = rm_status_code m"
  "rm_status_code (with_status c m) = c"
  by (simp_all add: with_stomp_def with_status_def with_bytes_def split: option.split)

definition iteration_ok :: "stomp_mode \<Rightarrow> stomp_session \<Rightarrow> request_metric \<Rightarrow> bool" where
  "iteration_ok mode s m \<longleftrightarrow>
     (if rm_status_code m = 200 then se_connected s \<and> (mode = Consume \<longrightarrow> se_subscribed s)
      else rm_status_code m = 0 \<and> disconnected s)"

lemma failed_ok: "failed t fault s = Returns (s', m) \<Longrightarrow> session_inv s' \<and> iteration_ok mode s' m"
  by (auto simp: failed_def iteration_ok_def disconnected_inv)

lemma produce_inv:
  assumes "produce offer t fault s = Returns (s', m)" and "session_inv s"
  shows "session_inv s' \<and> iteration_ok Produce s' m"
proof (cases "ensure_connected offer s")
  case (Returns x)
  obtain s1 r1 where x: "x = (s1, r1)" by (cases x)
  show ?thesis
  proof (cases r1)
    case (Inl e)
    then show ?thesis using assms(1) Returns x failed_ok by (simp add: produce_def)
  next
    case (Inr u)
    define s2 where "s2 = (if se_receipt s1 then s1\<lparr>se_receipt_seq := se_receipt_seq s1 + 1\<rparr> else s1)"
    define rid where "rid = (if se_receipt s2 then Some (''r-'' @ show_nat (unat (se_receipt_seq s2))) else None)"
    define data where "data = encode (send_frame fault rid s2)"
    have i2: "session_inv s2" "se_connected s2"
      using ensure_connected_inv[of offer s s1 u] Returns x Inr assms(2) by (auto simp: s2_def)
    obtain s3 r3 where w: "write_frame data s2 = (s3, r3)" by fastforce
    note i3 = write_frame_inv[OF w i2(1)]
    note p = assms(1)[unfolded produce_def Returns x Inr prod.case sum.case outcome.case, folded s2_def,
        unfolded Let_def, folded rid_def, folded data_def, unfolded w]
    show ?thesis
    proof (cases r3)
      case (Inl e)
      then show ?thesis using p failed_ok by simp
    next
      case r3: (Inr u3)
      show ?thesis
      proof (cases rid)
        case None
        then show ?thesis using p r3 i3 i2 by (auto simp: iteration_ok_def)
      next
        case (Some ident)
        show ?thesis
        proof (cases "await_receipt ident s3")
          case a: (Returns y)
          obtain s4 r4 where y: "y = (s4, r4)" by (cases y)
          note i4 = await_inv(2)[OF a[unfolded y], OF conjunct1[OF i3]]
          show ?thesis using p r3 Some a y i4 i3 i2(2) failed_ok[of t fault s4] by (cases r4) (auto simp: iteration_ok_def)
        qed (use p r3 Some in simp)
      qed
    qed
  qed
qed (use assms(1) in \<open>simp add: produce_def\<close>)

lemma consume_inv:
  assumes "consume offer t fault s = Returns (s', m)" and "session_inv s"
  shows "session_inv s' \<and> iteration_ok Consume s' m"
proof (cases "ensure_connected offer s")
  case (Returns x)
  obtain s1 r1 where x: "x = (s1, r1)" by (cases x)
  show ?thesis
  proof (cases r1)
    case (Inl e)
    then show ?thesis using assms(1) Returns x failed_ok by (simp add: consume_def)
  next
    case (Inr u)
    have i1: "session_inv s1" "se_connected s1"
      using ensure_connected_inv[of offer s s1 u] Returns x Inr assms(2) by simp_all
    obtain s2 r2 where b: "ensure_subscribed (ic_subscribed t) s1 = (s2, r2)" by fastforce
    show ?thesis
    proof (cases r2)
      case (Inl e)
      then show ?thesis using assms(1) Returns x Inr b failed_ok by (simp add: consume_def)
    next
      case r2: (Inr u2)
      have i2: "session_inv s2" "se_connected s2" "se_subscribed s2"
        using ensure_subscribed_inv[OF b[unfolded r2] i1] by simp_all
      show ?thesis
      proof (cases "await_message s2")
        case a: (Returns y)
        obtain s3 r3 where y: "y = (s3, r3)" by (cases y)
        have i3: "session_inv s3" "se_connected s3" "se_subscribed s3" using await_inv(1)[OF a[unfolded y] i2(1)] i2 by simp_all
        show ?thesis
        proof (cases r3)
          case (Inl e)
          then show ?thesis using assms(1) Returns x Inr b r2 a y failed_ok by (simp add: consume_def)
        next
          case r3: (Inr z)
          obtain len aid where z: "z = (len, aid)" by (cases z)
          obtain s4 ttfm interval where n: "note_message (ic_mark t) s3 = (s4, ttfm, interval)" by (metis prod_cases3)
          have i4: "session_inv s4" "se_connected s4" "se_subscribed s4" using note_message_inv[OF n i3(1,3)] i3 by simp_all
          define ack where "ack = (case aid of Some ident \<Rightarrow> if se_ack s4 \<noteq> Auto then write_frame (encode (ack_frame ident)) s4 else (s4, Inr ())
            | None \<Rightarrow> (s4, Inr ()))"
          obtain s5 r5 where k: "ack = (s5, r5)" by fastforce
          have i5: "session_inv s5" "se_connected s5" "se_subscribed s5"
            using k i4 write_frame_inv[of _ s4 s5 r5] by (auto simp: ack_def split: option.splits if_splits)
          note p = assms(1)[unfolded consume_def Returns x Inr b r2 a y r3 z n prod.case sum.case outcome.case, folded ack_def, unfolded k]
          show ?thesis using p i5 failed_ok[of t fault s5] by (cases r5) (auto simp: iteration_ok_def)
        qed
      qed (use assms(1) Returns x Inr b r2 in \<open>simp add: consume_def\<close>)
    qed
  qed
qed (use assms(1) in \<open>simp add: consume_def\<close>)

lemma run_iteration_inv:
  assumes "run_iteration g r n offer t s = Returns (s', m)" and "session_inv s"
  shows "session_inv s' \<and> iteration_ok (sg_mode g) s' m"
proof (cases "select_fault (sg_chaos g) r n = Some ConnectionDrop")
  case True
  then show ?thesis
    using assms(1) by (auto simp: run_iteration_def iteration_ok_def disconnected_inv rm_error_def rm_builder_def)
next
  case False
  have i: "session_inv (s\<lparr>se_reconnected_this_iteration := False\<rparr>)" using assms(2) by simp
  show ?thesis
    using assms(1) False produce_inv[OF _ i] consume_inv[OF _ i]
    by (cases "sg_mode g") (auto simp: run_iteration_def Let_def)
qed

section \<open>Any number of iterations\<close>

type_synonym stomp_turn = "f32 \<times> nat \<times> sock io_result \<times> iteration_clock"

fun run_iterations :: "stomp_engine \<Rightarrow> stomp_turn list \<Rightarrow> stomp_session \<Rightarrow> (stomp_session \<times> request_metric list) outcome" where
  "run_iterations g [] s = Returns (s, [])"
| "run_iterations g ((r, n, offer, t) # xs) s =
     (case run_iteration g r n offer t s of
        Panics \<Rightarrow> Panics
      | Returns (s, m) \<Rightarrow>
          (case run_iterations g xs s of Panics \<Rightarrow> Panics | Returns (s, ms) \<Rightarrow> Returns (s, m # ms)))"

lemma run_iterations_inv:
  assumes "run_iterations g xs s = Returns (s', ms)" and "session_inv s"
  shows "length ms = length xs \<and> session_inv s' \<and> (ms \<noteq> [] \<longrightarrow> iteration_ok (sg_mode g) s' (last ms)) \<and>
    list_all (\<lambda>m. rm_status_code m = 0 \<or> rm_status_code m = 200) ms"
  using assms
proof (induction g xs s arbitrary: ms rule: run_iterations.induct)
  case (2 g r n offer t xs s)
  obtain s1 m where i: "run_iteration g r n offer t s = Returns (s1, m)"
    using 2(2) by (auto split: outcome.splits)
  obtain ms' where r: "run_iterations g xs s1 = Returns (s', ms')" "ms = m # ms'"
    using 2(2) i by (auto split: outcome.splits)
  note ok = run_iteration_inv[OF i 2(3)]
  note ih = 2(1)[OF i refl r(1) conjunct1[OF ok]]
  have "rm_status_code m = 0 \<or> rm_status_code m = 200" using ok by (auto simp: iteration_ok_def split: if_splits)
  moreover have "ms' = [] \<Longrightarrow> s1 = s'" using ih r(1) by (cases xs) auto
  ultimately show ?case using ih ok r(2) by auto
qed simp

text \<open>C19: A STOMP session stays coherent.  Run any number of iterations from a new session, with any
  connection offers, any results of reads and writes, any broker frames and any injected
  faults.  If no frame makes the decoder panic, every iteration gives one metric with status
  200 or 0, the session invariant holds (a connected session has a stream, a subscribed one is
  connected, the time stamps match the flags), after a success the session is connected, and
  subscribed when consuming, and after a failure nothing of the old connection is left: no
  stream, an empty decoder, no subscription.\<close>

theorem stomp_session_coherent:
  assumes "run_iterations g xs (new_session g) = Returns (s, ms)"
  shows "length ms = length xs \<and> session_inv s \<and> list_all (\<lambda>m. rm_status_code m = 0 \<or> rm_status_code m = 200) ms \<and>
     (ms \<noteq> [] \<longrightarrow>
        (if rm_status_code (last ms) = 200 then se_connected s \<and> (sg_mode g = Consume \<longrightarrow> se_subscribed s)
         else disconnected s))"
  using run_iterations_inv[OF assms disconnected_inv[OF disconnected_new]] unfolding iteration_ok_def by auto

definition sample_stomp :: stomp_engine where
  "sample_stomp =
     \<lparr>sg_authority = ''h:1'', sg_destination = ''/q'', sg_mode = Produce, sg_ack = Auto, sg_receipt = False, sg_payload = ''x'',
      sg_headers = [], sg_timeout = 0, sg_chaos = \<lparr>ce_enabled = False, ce_rate = Fin 0\<rparr>\<rparr>"

definition sample_clock :: iteration_clock where
  "sample_clock = \<lparr>ic_start = 0, ic_subscribed = 0, ic_mark = 0, ic_latency = 0, ic_end = 0\<rparr>"

theorem stomp_session_coherent_witness:
  "\<exists>s ms. run_iterations sample_stomp [(Fin 0, 0, IoTimeout, sample_clock)] (new_session sample_stomp) = Returns (s, ms) \<and>
     length ms = 1 \<and> session_inv s"
proof -
  obtain s ms where r: "run_iterations sample_stomp [(Fin 0, 0, IoTimeout, sample_clock)] (new_session sample_stomp) = Returns (s, ms)"
    by (simp add: run_iteration_def sample_stomp_def select_fault_def produce_def ensure_connected_def new_session_def
        stomp_connect_def failed_def Let_def)
  from stomp_session_coherent[OF r] r show ?thesis by auto
qed

section \<open>Headers\<close>

lemma header_in_Cons: "header_in name ((k, v) # hs) = (if eq_ignore_ascii_case k name then Some v else header_in name hs)"
  by (simp add: header_in_def)

lemma header_in_set: "header_in name (set_header_in name val hs) = Some val"
  by (induction name val hs rule: set_header_in.induct) (simp_all add: header_in_Cons header_in_def[of _ "[]"] eq_ignore_ascii_case_def)

lemma header_in_set_other:
  "\<not> eq_ignore_ascii_case name' name \<Longrightarrow> header_in name' (set_header_in name val hs) = header_in name' hs"
  by (induction name val hs rule: set_header_in.induct) (auto simp: header_in_Cons header_in_def[of _ "[]"] eq_ignore_ascii_case_def)

lemma set_header_fields [simp]: "fr_command (set_header n v f) = fr_command f" "fr_body (set_header n v f) = fr_body f"
  by (simp_all add: set_header_def)

lemma utf8_headers_set: "utf8_valid name \<Longrightarrow> utf8_valid val \<Longrightarrow> utf8_headers hs \<Longrightarrow> utf8_headers (set_header_in name val hs)"
  by (induction name val hs rule: set_header_in.induct) (auto simp: utf8_headers_def)

lemma show_nat_ascii: "utf8_valid (show_nat n)" "list_all ascii_graphic (show_nat n)"
proof -
  have "48 \<le> byte c \<and> byte c \<le> 57" if "c \<in> set (show_nat n)" for c
    using show_nat_char[OF that] by (auto simp: is_digit_def)
  then show "list_all ascii_graphic (show_nat n)" "utf8_valid (show_nat n)"
    by (fastforce simp: list_all_iff ascii_graphic_def intro!: utf8_valid_all_ascii)+
qed

section \<open>What a SEND puts on the wire\<close>

definition utf8_session :: "stomp_session \<Rightarrow> bool" where
  "utf8_session s \<longleftrightarrow> utf8_valid (se_destination s) \<and> utf8_headers (se_headers s)"

lemma utf8_set_headers:
  "utf8_headers xs \<Longrightarrow> utf8_headers (fr_headers f) \<Longrightarrow>
     utf8_headers (fr_headers (foldl (\<lambda>f (name, val). set_header name val f) f xs))"
  by (induction xs arbitrary: f) (auto simp: set_header_def utf8_headers_set utf8_headers_def[of "_ # _"] simp flip: utf8_headers_def)

lemma fr_set_headers: "fr_command (foldl (\<lambda>f (name, val). set_header name val f) f xs) = fr_command f"
  by (induction xs arbitrary: f) auto

lemma send_frame_facts:
  assumes "utf8_session s" and "\<And>i. rid = Some i \<Longrightarrow> utf8_valid i" and "length (se_payload s) < 2 ^ 63"
  shows "wf_frame (send_frame fault rid s)" "fr_command (send_frame fault rid s) = ''SEND''"
    "fr_body (send_frame fault rid s) = input_payload fault (se_payload s)"
    "\<And>i. rid = Some i \<Longrightarrow> header ''receipt'' (send_frame fault rid s) = Some i"
proof -
  let ?b = "input_payload fault (se_payload s)" and ?cl = "''content-length''"
  define f0 where "f0 = foldl (\<lambda>f (name, val). set_header name val f)
    (with_header ''destination'' (se_destination s) (frame_new ''SEND'')) (se_headers s)"
  define f1 where "f1 = (if fault = Some MetadataCorruption then set_header ''x-chaos'' ''metadata-corruption'' f0 else f0)"
  define f2 where "f2 = (set_header ?cl (show_nat (length ?b)) f1)\<lparr>fr_body := ?b\<rparr>"
  have sf: "send_frame fault rid s = (case rid of Some i \<Rightarrow> set_header ''receipt'' i f2 | None \<Rightarrow> f2)"
    by (simp only: send_frame_def f2_def f1_def f0_def Let_def)
  have lit: "utf8_valid ''destination''" "utf8_valid ''x-chaos''" "utf8_valid ''metadata-corruption''" "utf8_valid ?cl"
    "utf8_valid ''receipt''" by (simp_all add: utf8_valid_ascii)
  have u0: "utf8_headers (fr_headers f0)"
    unfolding f0_def using assms(1) lit(1)
    by (intro utf8_set_headers) (simp_all add: utf8_session_def with_header_def set_header_def frame_new_def utf8_headers_def)
  have u1: "utf8_headers (fr_headers f1)" using u0 lit by (simp add: f1_def set_header_def utf8_headers_set)
  have u2: "utf8_headers (fr_headers f2)" using u1 lit show_nat_ascii by (simp add: f2_def set_header_def utf8_headers_set)
  have c2: "fr_command f2 = ''SEND''" "fr_body f2 = ?b"
    by (simp_all add: f2_def f1_def f0_def fr_set_headers with_header_def frame_new_def)
  show cmd: "fr_command (send_frame fault rid s) = ''SEND''" and bod: "fr_body (send_frame fault rid s) = ?b"
    using c2 by (simp_all add: sf split: option.split)
  show "header ''receipt'' (send_frame fault rid s) = Some i" if "rid = Some i" for i
    unfolding sf using that by (simp add: header_def set_header_def header_in_set)
  have lb: "length ?b = length (se_payload s)" by (simp add: input_payload_def split: list.split)
  have ne: "\<not> eq_ignore_ascii_case ?cl ''receipt''" by code_simp
  have "header_in ?cl (fr_headers (send_frame fault rid s)) = Some (show_nat (length ?b))"
    by (simp add: sf set_header_def header_in_set_other[OF ne] split: option.split) (simp add: f2_def set_header_def header_in_set)
  moreover have "parse_usize (show_nat (length ?b)) = Some (length ?b)"
    by (rule parse_usize_show_nat) (use assms(3) lb in simp)
  ultimately have "content_length (send_frame fault rid s) = Some (length ?b)"
    by (simp add: content_length_def header_def str_trim_graphic show_nat_ascii)
  moreover have "utf8_headers (fr_headers (send_frame fault rid s))"
    using u2 assms(2) lit by (simp add: sf set_header_def utf8_headers_set split: option.split)
  moreover have "list_all ascii_graphic ''SEND''" by code_simp
  ultimately show "wf_frame (send_frame fault rid s)"
    using cmd bod assms(3) lb by (simp add: wf_frame_def)
qed

text \<open>Settings and receipt counter are not touched by connecting.\<close>

definition settings :: "stomp_session \<Rightarrow> _" where
  "settings s = (se_destination s, se_headers s, se_payload s, se_receipt s, se_ack s, se_receipt_seq s)"

lemma stomp_connect_settings: "stomp_connect offer s = Returns (s', Inr u) \<Longrightarrow> settings s' = settings s"
proof -
  assume c: "stomp_connect offer s = Returns (s', Inr u)"
  then obtain k where k: "offer = IoOk k" by (cases offer) (simp_all add: stomp_connect_def)
  define s1 where "s1 = s\<lparr>se_stream := Some k, se_decoder := decoder_new\<rparr>"
  have r: "settings b = settings a" if "session_read connect_decide a = Returns (b, q)" for a b q
    using that by (auto simp: session_read_def settings_def split: outcome.splits)
  have w: "settings b = settings a" if "write_frame d a = (b, q)" for a b d q
    by (rule write_frame_update[OF that]) (simp add: settings_def)
  obtain s2 r2 where s2: "write_frame (encode connect_frame) s1 = (s2, r2)" by fastforce
  obtain s3 where "session_read connect_decide s2 = Returns (s3, Inr Connected)" "settings s' = settings s3"
    using c k s2 by (auto simp: stomp_connect_def s1_def settings_def split: sum.splits outcome.splits connect_reply.splits)
  then show ?thesis using r[of s2 s3] w[OF s2] by (simp add: s1_def settings_def)
qed

lemma ensure_connected_settings: "ensure_connected offer s = Returns (s', Inr u) \<Longrightarrow> settings s' = settings s"
  by (auto simp: ensure_connected_def stomp_connect_settings split: if_splits)

lemma read_loop_sent: "read_loop k d = Returns (k', d', r) \<Longrightarrow> map_option sk_sent k' = map_option sk_sent k"
proof (induction k d rule: read_loop.induct)
  case (1 k d)
  show ?case
  proof (cases "next_frame d")
    case (Returns x)
    obtain d1 out where x: "x = (d1, out)" by (cases x)
    show ?thesis
    proof (cases "\<exists>kk data rs. out = Inr None \<and> \<not> max_frame_bytes < pending d1 \<and> k = Some kk \<and> sk_reads kk = IoOk data # rs \<and> data \<noteq> []")
      case True
      then obtain kk data rs where t: "out = Inr None" "\<not> max_frame_bytes < pending d1" "k = Some kk" "sk_reads kk = IoOk data # rs" "data \<noteq> []"
        by blast
      have "read_loop (Some (kk\<lparr>sk_reads := rs\<rparr>)) (push data d1) = Returns (k', d', r)"
        using 1(2) Returns x t by (subst (asm) read_loop.simps) simp
      from 1(1)[OF Returns x[symmetric] t(1) refl t(2,3,4) refl t(5) this] show ?thesis using t(3) by simp
    next
      case False
      then show ?thesis
        using 1(2) Returns x
        by (subst (asm) read_loop.simps) (auto split: sum.splits option.splits if_splits list.splits io_result.splits)
    qed
  qed (use 1(2) in \<open>subst (asm) read_loop.simps, simp\<close>)
qed

text \<open>The frames a waiting loop went through: none decided but the last.\<close>

lemma read_until_frames:
  assumes "read_until decide k d = Returns (k', d', Inr a)"
  shows "map_option sk_sent k' = map_option sk_sent k \<and>
    (\<exists>fs f. read_frames (Suc (length fs)) k d = Returns (k', d', Inr (fs @ [f])) \<and>
      list_all (\<lambda>g. decide g = None) fs \<and> decide f = Some a)"
  using assms
proof (induction decide k d rule: read_until.induct)
  case (1 decide k d)
  obtain k1 d1 f where l: "read_loop k d = Returns (k1, d1, Inr f)"
    using 1(2) by (subst (asm) read_until.simps) (auto split: outcome.splits sum.splits)
  note s = read_loop_sent[OF l]
  show ?case
  proof (cases "decide f")
    case None
    have r: "read_until decide k1 d1 = Returns (k', d', Inr a)"
      using 1(2) l None by (subst (asm) read_until.simps) simp
    obtain fs g where "read_frames (Suc (length fs)) k1 d1 = Returns (k', d', Inr (fs @ [g]))"
      "list_all (\<lambda>g. decide g = None) fs" "decide g = Some a" "map_option sk_sent k' = map_option sk_sent k1"
      using 1(1)[OF l refl refl refl None r] by blast
    then have "read_frames (Suc (length (f # fs))) k d = Returns (k', d', Inr ((f # fs) @ [g])) \<and>
        list_all (\<lambda>g. decide g = None) (f # fs) \<and> decide g = Some a \<and> map_option sk_sent k' = map_option sk_sent k"
      using l None s by simp
    then show ?thesis by blast
  next
    case (Some b)
    then have "read_frames (Suc (length [])) k d = Returns (k', d', Inr ([] @ [f])) \<and> k' = k1 \<and> b = a"
      using 1(2) l by (subst (asm) read_until.simps) simp
    then show ?thesis using Some s by (intro conjI exI[of _ "[]"] exI[of _ f]) auto
  qed
qed

text \<open>C18: A successful SEND is on the wire, unharmed and, with receipts, confirmed.  If a produce
  iteration reports status 200, then after connecting exactly the encoding of one SEND frame was
  written; that frame is transmissible, whatever headers the user configured (a
  \<open>content-length\<close> header among them does no damage), and its body is the payload, changed only
  in the first byte if that fault was injected.  With receipts on, the frame carries a fresh
  receipt id, and the iteration ended at a RECEIPT frame with that very id, before which no
  ERROR frame came.\<close>

theorem send_confirmed:
  assumes "produce offer t fault s = Returns (s', m)" and "rm_status_code m = 200" and "session_inv s"
    and "utf8_session s" and "length (se_payload s) < 2 ^ 63"
  shows "\<exists>s1 k0 k1 f. ensure_connected offer s = Returns (s1, Inr ()) \<and> se_stream s1 = Some k0 \<and> se_stream s' = Some k1 \<and>
     sk_sent k1 = sk_sent k0 @ encode f \<and> wf_frame f \<and> fr_command f = ''SEND'' \<and> fr_body f = input_payload fault (se_payload s) \<and>
     (se_receipt s \<longrightarrow> (\<exists>ident k d fs g. ident = ''r-'' @ show_nat (unat (se_receipt_seq s + 1)) \<and> header ''receipt'' f = Some ident \<and>
        sk_reads k = sk_reads k0 \<and> read_frames (Suc (length fs)) (Some k) (se_decoder s1) = Returns (Some k1, d, Inr (fs @ [g])) \<and>
        fr_command g = ''RECEIPT'' \<and> header ''receipt-id'' g = Some ident \<and> list_all (\<lambda>h. fr_command h \<noteq> ''ERROR'') fs))"
proof -
  obtain s1 where c: "ensure_connected offer s = Returns (s1, Inr ())"
    using assms(1,2) by (auto simp: produce_def failed_def split: outcome.splits sum.splits)
  have i1: "session_inv s1" "se_connected s1" using ensure_connected_inv[OF c assms(3)] by simp_all
  have st: "settings s1 = settings s" by (rule ensure_connected_settings[OF c])
  define s2 where "s2 = (if se_receipt s1 then s1\<lparr>se_receipt_seq := se_receipt_seq s1 + 1\<rparr> else s1)"
  define rid where "rid = (if se_receipt s2 then Some (''r-'' @ show_nat (unat (se_receipt_seq s2))) else None)"
  define f where "f = send_frame fault rid s2"
  have set2: "se_destination s2 = se_destination s" "se_headers s2 = se_headers s" "se_payload s2 = se_payload s" "se_receipt s2 = se_receipt s"
    "se_receipt s \<Longrightarrow> se_receipt_seq s2 = se_receipt_seq s + 1" "se_stream s2 = se_stream s1" "se_decoder s2 = se_decoder s1"
    using st by (auto simp: s2_def settings_def)
  have ur: "utf8_valid i" if "rid = Some i" for i
    using that show_nat_ascii(1) by (auto simp: rid_def utf8_valid_ascii split: if_splits)
  have ff: "wf_frame f" "fr_command f = ''SEND''" "fr_body f = input_payload fault (se_payload s)"
    "\<And>i. rid = Some i \<Longrightarrow> header ''receipt'' f = Some i"
    using send_frame_facts[where s = s2 and rid = rid and fault = fault] ur assms(4,5) set2 by (simp_all add: f_def utf8_session_def)
  obtain s3 r3 where w: "write_frame (encode f) s2 = (s3, r3)" by fastforce
  note p = assms(1)[unfolded produce_def c prod.case sum.case outcome.case, folded s2_def, unfolded Let_def,
      folded rid_def, folded f_def, unfolded w]
  obtain u where r3: "r3 = Inr u" using p assms(2) by (cases r3) (auto simp: failed_def)
  obtain k0 k where k: "se_stream s2 = Some k0" "s3 = s2\<lparr>se_stream := Some k\<rparr>" "sk_sent k = sk_sent k0 @ encode f" "sk_reads k = sk_reads k0"
    by (rule write_frame_update[OF w]) (use r3 in blast)
  show ?thesis
  proof (cases rid)
    case None
    then have "s' = s3" "\<not> se_receipt s" using p r3 set2(4) by (simp_all add: rid_def split: if_splits)
    then show ?thesis using c k ff set2(6) by auto
  next
    case (Some ident)
    then have id: "ident = ''r-'' @ show_nat (unat (se_receipt_seq s + 1))" using set2 by (simp add: rid_def split: if_splits)
    obtain s4 v where a: "await_receipt ident s3 = Returns (s4, Inr v)" "s' = s4"
      using p r3 Some assms(2) by (auto simp: failed_def split: outcome.splits sum.splits)
    obtain k1 d where ru: "read_until (receipt_decide ident) (Some k) (se_decoder s1) = Returns (k1, d, Inr (Inr v))" "se_stream s4 = k1"
      using a(1) k(2) set2(7) by (auto simp: await_receipt_def session_read_def flatten_def split: outcome.splits sum.splits)
    obtain fs g where fg: "read_frames (Suc (length fs)) (Some k) (se_decoder s1) = Returns (k1, d, Inr (fs @ [g]))"
      "list_all (\<lambda>g. receipt_decide ident g = None) fs" "receipt_decide ident g = Some (Inr v)" "map_option sk_sent k1 = Some (sk_sent k)"
      using read_until_frames[OF ru(1)] by auto
    obtain k1' where k1: "k1 = Some k1'" "sk_sent k1' = sk_sent k" using fg(4) by auto
    have g: "fr_command g = ''RECEIPT''" "header ''receipt-id'' g = Some ident"
      using fg(3) by (simp_all add: receipt_decide_def split: if_splits)
    have fs: "list_all (\<lambda>h. fr_command h \<noteq> ''ERROR'') fs"
      using fg(2) by (auto simp: list_all_iff receipt_decide_def split: if_splits)
    have "ident = ''r-'' @ show_nat (unat (se_receipt_seq s + 1)) \<and> header ''receipt'' f = Some ident \<and> sk_reads k = sk_reads k0 \<and>
        read_frames (Suc (length fs)) (Some k) (se_decoder s1) = Returns (Some k1', d, Inr (fs @ [g])) \<and>
        fr_command g = ''RECEIPT'' \<and> header ''receipt-id'' g = Some ident \<and> list_all (\<lambda>h. fr_command h \<noteq> ''ERROR'') fs"
      using id ff(4)[OF Some] k(4) fg(1) k1(1) g fs by simp
    then show ?thesis using c k(1,3) ff(1-3) set2(6) ru(2) a(2) k1 by metis
  qed
qed

definition sample_connected :: stomp_session where
  "sample_connected = (new_session sample_stomp)
     \<lparr>se_stream := Some \<lparr>sk_writes = [IoOk ()], sk_reads = [], sk_sent = []\<rparr>, se_connected := True, se_ever_connected := True\<rparr>"

theorem send_confirmed_witness:
  "\<exists>s' m k f. produce IoTimeout sample_clock None sample_connected = Returns (s', m) \<and> rm_status_code m = 200 \<and>
     se_stream s' = Some k \<and> sk_sent k = encode f \<and> fr_body f = ''x''"
proof -
  have i: "session_inv sample_connected" by (simp add: session_inv_def sample_connected_def new_session_def)
  have u: "utf8_session sample_connected"
    by (simp add: utf8_session_def sample_connected_def new_session_def sample_stomp_def utf8_headers_def utf8_valid_ascii)
  have l: "length (se_payload sample_connected) < 2 ^ 63" by (simp add: sample_connected_def new_session_def sample_stomp_def)
  have c: "ensure_connected IoTimeout sample_connected = Returns (sample_connected, Inr ())"
    by (simp add: ensure_connected_def sample_connected_def)
  have f: "\<not> se_receipt sample_connected" "se_payload sample_connected = ''x''"
    "se_stream sample_connected = Some \<lparr>sk_writes = [IoOk ()], sk_reads = [], sk_sent = []\<rparr>"
    by (simp_all add: sample_connected_def new_session_def sample_stomp_def)
  obtain s' m where p: "produce IoTimeout sample_clock None sample_connected = Returns (s', m)" "rm_status_code m = 200"
    using f by (simp add: produce_def c write_frame_def Let_def)
  from send_confirmed[OF p i u l] show ?thesis using p c f by (auto simp: input_payload_def)
qed

end
