(* ===== verification/Load_Profile.thy ===== *)
theory Load_Profile
  imports Rust_Std
begin

text \<open>
  Load profiles (\<open>config.rs\<close>): constant load, a ramp, a spike, and the number of workers each
  asks for at each moment.  The ramp is computed in double precision; the lemmas show that
  rounding never makes it leave the range between its two ends or go back.
\<close>

section \<open>Load profiles\<close>

datatype load_profile =
    LConstant (lp_concurrency: usize) (lp_duration_secs: u64)
  | LRamp (lp_start_concurrency: usize) (lp_target_concurrency: usize) (lp_ramp_secs: u64) (lp_hold_secs: u64)
  | LSpike (lp_baseline_concurrency: usize) (lp_peak_concurrency: usize) (lp_pre_spike_secs: u64) (lp_spike_secs: u64)
      (lp_post_spike_secs: u64)

fun total_duration :: "load_profile \<Rightarrow> u64" where
  "total_duration (LConstant c duration) = duration"
| "total_duration (LRamp a b ramp hold) = ramp + hold"
| "total_duration (LSpike a b pre spike post) = pre + spike + post"

fun max_concurrency :: "load_profile \<Rightarrow> usize" where
  "max_concurrency (LConstant c duration) = c"
| "max_concurrency (LRamp a b ramp hold) = b"
| "max_concurrency (LSpike a b pre spike post) = b"

definition as_secs :: "duration \<Rightarrow> u64" where
  "as_secs d = of_nat (d div 10 ^ 9)"

definition ramp_value :: "usize \<Rightarrow> usize \<Rightarrow> u64 \<Rightarrow> u64 \<Rightarrow> usize" where
  "ramp_value start target ramp t =
     (let progress = f64_div (f64_of_u64 t) (f64_of_u64 ramp);
          range = f64_sub (f64_of_nat target) (f64_of_nat start)
      in f_to_usize (f_round (f64_add (f64_of_nat start) (f64_mul range progress))))"

fun target_concurrency :: "load_profile \<Rightarrow> duration \<Rightarrow> usize" where
  "target_concurrency (LConstant c duration) elapsed = c"
| "target_concurrency (LRamp start target ramp hold) elapsed =
     (let t = as_secs elapsed
      in if t < ramp then (if ramp = 0 then target else ramp_value start target ramp t) else target)"
| "target_concurrency (LSpike baseline peak pre spike post) elapsed =
     (let t = as_secs elapsed
      in if t < pre then baseline else if t < pre + spike then peak else baseline)"

fun concurrency_upper_bound :: "load_profile \<Rightarrow> usize" where
  "concurrency_upper_bound (LConstant c duration) = c"
| "concurrency_upper_bound (LRamp start target ramp hold) = max start target"
| "concurrency_upper_bound (LSpike baseline peak pre spike post) = max baseline peak"

section \<open>The shape of a ramp\<close>

lemma to_usize_round:
  assumes "0 \<le> x"
  shows "f_to_usize (f_round (Fin x)) = min (nat \<lfloor>x + 1 / 2\<rfloor>) (2 ^ 64 - 1)"
proof -
  have "sgn x * of_int \<lfloor>\<bar>x\<bar> + 1 / 2\<rfloor> = (of_int \<lfloor>x + 1 / 2\<rfloor> :: rat)"
    using assms by (cases "x = 0") (simp_all add: floor_eq_iff)
  moreover have "0 \<le> \<lfloor>x + 1 / 2\<rfloor>" using assms by simp
  ultimately show ?thesis by (simp only: f_round.simps f_to_usize.simps floor_of_int of_int_less_0_iff not_less[symmetric] if_False simp_thms)
qed

lemma to_usize_round_between:
  assumes "of_nat a \<le> x" and "x \<le> of_nat b" and "b < 2 ^ 64"
  shows "a \<le> f_to_usize (f_round (Fin x)) \<and> f_to_usize (f_round (Fin x)) \<le> b"
proof -
  have x: "0 \<le> x" using assms(1) by (meson of_nat_0_le_iff order_trans)
  have a: "of_int (int a) \<le> x" "x \<le> of_int (int b)" using assms(1,2) by simp_all
  then have "int a \<le> \<lfloor>x + 1 / 2\<rfloor>" unfolding le_floor_iff by linarith
  moreover have "\<lfloor>x + 1 / 2\<rfloor> \<le> int b" unfolding floor_le_iff using a by linarith
  ultimately have "a \<le> nat \<lfloor>x + 1 / 2\<rfloor>" "nat \<lfloor>x + 1 / 2\<rfloor> \<le> b" by linarith+
  then show ?thesis using assms(3) unfolding to_usize_round[OF x] by simp
qed

lemma to_usize_round_mono:
  assumes "0 \<le> x" and "x \<le> y"
  shows "f_to_usize (f_round (Fin x)) \<le> f_to_usize (f_round (Fin y))"
proof -
  have "\<lfloor>x + 1 / 2\<rfloor> \<le> \<lfloor>y + 1 / 2\<rfloor>" using assms by (intro floor_mono) simp
  then show ?thesis
    using assms unfolding to_usize_round[OF assms(1)] to_usize_round[OF order_trans[OF assms]]
    by (intro min.mono nat_mono) simp_all
qed

text \<open>The value before rounding to an integer, as a rational.\<close>

definition ramp_point :: "usize \<Rightarrow> usize \<Rightarrow> u64 \<Rightarrow> u64 \<Rightarrow> rat \<Rightarrow> bool" where
  "ramp_point start target ramp t x \<longleftrightarrow>
     f64_add (f64_of_nat start)
       (f64_mul (f64_sub (f64_of_nat target) (f64_of_nat start)) (f64_div (f64_of_u64 t) (f64_of_u64 ramp))) = Fin x"

lemma ramp_value_point: "ramp_point start target ramp t x \<Longrightarrow> ramp_value start target ramp t = f_to_usize (f_round (Fin x))"
  by (simp add: ramp_point_def ramp_value_def Let_def)

lemma two_pow_64: "(2 :: nat) ^ 64 = 18446744073709551616"
  by simp

lemma ramp_steps:
  assumes "start \<le> 2 ^ 52" and "target \<le> 2 ^ 52" and "t \<le> ramp" and "0 < ramp"
  obtains q p x where "f64_div (f64_of_u64 t) (f64_of_u64 ramp) = Fin q" "0 \<le> q" "q \<le> 1"
    "round64 ((of_nat target - of_nat start) * q) = Fin p" "round64 (of_nat start + p) = Fin x"
    "ramp_point start target ramp t x"
    "of_nat (min start target) \<le> x" "x \<le> of_nat (max start target)"
proof -
  have r: "0 < unat ramp" using assms(4) by (simp add: word_less_nat_alt)
  obtain q where q: "f64_div (f64_of_u64 t) (f64_of_u64 ramp) = Fin q" "0 \<le> q" "q \<le> 1"
    using f64_ratio_unit[OF assms(3)[unfolded word_le_nat_alt] r unat_u64_less[of ramp, folded two_pow_64]] by blast
  let ?d = "int target - int start"
  have d: "(of_nat target - of_nat start :: rat) = of_int ?d" by simp
  have db: "\<bar>?d\<bar> \<le> 2 ^ 53" using assms(1,2) by simp
  have mm: "\<bar>min 0 ?d\<bar> \<le> 2 ^ 53" "\<bar>max 0 ?d\<bar> \<le> 2 ^ 53" using db by (auto simp: min_def max_def)
  have ss: "\<bar>int (min start target)\<bar> \<le> 2 ^ 53" "\<bar>int (max start target)\<bar> \<le> 2 ^ 53" using assms(1,2) by (simp_all add: min_def max_def)
  have sub: "f64_sub (f64_of_nat target) (f64_of_nat start) = Fin (of_int ?d)"
  proof -
    have "f64_of_nat target = Fin (of_nat target)" "f64_of_nat start = Fin (of_nat start)"
      using assms(1,2) by (simp_all add: f64_of_nat_exact)
    then show ?thesis unfolding f_sub_Fin d using round64_int[OF db] by (simp only: f_sub_Fin d)
  qed
  have "of_int (min 0 ?d) \<le> (of_int ?d :: rat) * q \<and> (of_int ?d :: rat) * q \<le> of_int (max 0 ?d)"
  proof (cases "0 \<le> ?d")
    case True
    then have "0 \<le> (of_int ?d :: rat)" by (simp only: of_int_0_le_iff)
    then have "0 \<le> (of_int ?d :: rat) * q" "(of_int ?d :: rat) * q \<le> of_int ?d"
      using mult_nonneg_nonneg[OF _ q(2)] mult_left_le[OF q(3)] by blast+
    then show ?thesis using True by (simp only: min_absorb1 max_absorb2 of_int_0 simp_thms)
  next
    case False
    then have n: "(of_int ?d :: rat) \<le> 0" by (simp only: of_int_le_0_iff)
    then have "(of_int ?d :: rat) * q \<le> 0" using q(2) by (rule mult_nonpos_nonneg)
    moreover have "(of_int ?d :: rat) * 1 \<le> of_int ?d * q" using q(3) n by (rule mult_left_mono_neg)
    ultimately show ?thesis using False by (simp only: min_absorb2 max_absorb1 of_int_0 mult_1_right simp_thms linear)
  qed
  then obtain p where p: "round64 (of_int ?d * q) = Fin p" "of_int (min 0 ?d) \<le> p" "p \<le> of_int (max 0 ?d)"
    using round64_between[of "min 0 ?d" "of_int ?d * q" "max 0 ?d"] mm by blast
  have "int (min start target) = int start + min 0 ?d" "int (max start target) = int start + max 0 ?d" by linarith+
  then have e: "of_int (int (min start target)) = (of_nat start + of_int (min 0 ?d) :: rat)"
    "of_int (int (max start target)) = (of_nat start + of_int (max 0 ?d) :: rat)"
    by (simp_all only: of_int_add of_int_of_nat_eq)
  have "of_int (int (min start target)) \<le> of_nat start + p" "of_nat start + p \<le> of_int (int (max start target))"
    unfolding e using p(2,3) by (simp_all only: add_left_mono)
  then obtain x where x: "round64 (of_nat start + p) = Fin x" "of_int (int (min start target)) \<le> x" "x \<le> of_int (int (max start target))"
    using round64_between[of "int (min start target)" "of_nat start + p" "int (max start target)"] ss by blast
  have "ramp_point start target ramp t x"
    unfolding ramp_point_def sub q(1) using assms(1) p(1) x(1) by (simp add: f64_of_nat_exact)
  then show ?thesis using that[OF q p(1)[folded d] x(1)] x(2,3) by (simp only: of_int_of_nat_eq)
qed

lemma ramp_value_between:
  assumes "start \<le> 2 ^ 52" and "target \<le> 2 ^ 52" and "t \<le> ramp" and "0 < ramp"
  shows "min start target \<le> ramp_value start target ramp t \<and> ramp_value start target ramp t \<le> max start target"
  using assms
proof (rule ramp_steps)
  fix q p x
  assume x: "ramp_point start target ramp t x" "of_nat (min start target) \<le> x" "x \<le> of_nat (max start target)"
  have "max start target < 2 ^ 64" using assms(1,2) by simp
  from to_usize_round_between[OF x(2,3) this] show ?thesis by (simp add: ramp_value_point[OF x(1)])
qed

lemma ramp_value_mono:
  assumes "start \<le> 2 ^ 52" and "target \<le> 2 ^ 52" and "t \<le> t'" and "t' \<le> ramp" and "0 < ramp"
  shows "if start \<le> target then ramp_value start target ramp t \<le> ramp_value start target ramp t'
         else ramp_value start target ramp t' \<le> ramp_value start target ramp t"
proof -
  obtain q p x where a: "f64_div (f64_of_u64 t) (f64_of_u64 ramp) = Fin q" "round64 ((of_nat target - of_nat start) * q) = Fin p"
    "round64 (of_nat start + p) = Fin x" "ramp_point start target ramp t x" "of_nat (min start target) \<le> x"
    using ramp_steps[OF assms(1,2) order_trans[OF assms(3,4)] assms(5)] by metis
  obtain q' p' x' where b: "f64_div (f64_of_u64 t') (f64_of_u64 ramp) = Fin q'" "round64 ((of_nat target - of_nat start) * q') = Fin p'"
    "round64 (of_nat start + p') = Fin x'" "ramp_point start target ramp t' x'" "of_nat (min start target) \<le> x'"
    using ramp_steps[OF assms(1,2,4,5)] by metis
  obtain r where r: "f64_of_u64 ramp = Fin r" "0 < r"
    using f64_of_nat_finite[of "unat ramp"] assms(5) by (force simp: word_less_nat_alt)
  have "f_le (f64_of_u64 t) (f64_of_u64 t')" using assms(3) by (intro f64_of_nat_mono) (simp add: word_le_nat_alt)
  then have q: "q \<le> q'" using f64_div_mono[OF _ r(2)] a(1) b(1) r(1) by force
  have nn: "0 \<le> x" "0 \<le> x'" using a(5) b(5) by (meson of_nat_0_le_iff order_trans)+
  show ?thesis
  proof (cases "start \<le> target")
    case True
    then have "(of_nat target - of_nat start) * q \<le> (of_nat target - of_nat start) * q'" using q by (simp add: mult_left_mono)
    from round64_mono_Fin[OF this a(2) b(2)] have "p \<le> p'" .
    then have "x \<le> x'" using round64_mono_Fin[OF _ a(3) b(3)] by simp
    then show ?thesis using True to_usize_round_mono[OF nn(1)] by (simp add: ramp_value_point[OF a(4)] ramp_value_point[OF b(4)])
  next
    case False
    then have "(of_nat target - of_nat start) * q' \<le> (of_nat target - of_nat start) * q" using q by (simp add: mult_left_mono_neg)
    from round64_mono_Fin[OF this b(2) a(2)] have "p' \<le> p" .
    then have "x' \<le> x" using round64_mono_Fin[OF _ b(3) a(3)] by simp
    then show ?thesis using False to_usize_round_mono[OF nn(2)] by (simp add: ramp_value_point[OF a(4)] ramp_value_point[OF b(4)])
  qed
qed

lemma ramp_value_start: "start \<le> 2 ^ 52 \<Longrightarrow> target \<le> 2 ^ 52 \<Longrightarrow> 0 < ramp \<Longrightarrow> ramp_value start target ramp 0 = start"
proof -
  assume a: "start \<le> 2 ^ 52" "target \<le> 2 ^ 52" "0 < (ramp :: u64)"
  obtain q p x where s: "f64_div (f64_of_u64 0) (f64_of_u64 ramp) = Fin q" "round64 ((of_nat target - of_nat start) * q) = Fin p"
    "round64 (of_nat start + p) = Fin x" "ramp_point start target ramp 0 x"
    by (rule ramp_steps[OF a(1,2) _ a(3), of 0]) (simp, blast)
  obtain r where r: "f64_of_u64 ramp = Fin r" "0 < r"
    using f64_of_nat_finite[of "unat ramp"] a(3) by (force simp: word_less_nat_alt)
  have "q = 0" using s(1) r by (simp add: f64_of_nat_def)
  then have "p = 0" using s(2) by simp
  then have "x = of_nat start" using s(3) a(1) f64_of_nat_exact[of start] by (simp add: f64_of_nat_def)
  then show ?thesis using to_usize_round_between[of start x start] a(1) by (simp add: ramp_value_point[OF s(4)])
qed

text \<open>Whatever the profile and the moment: never more workers than the bound the caller checks.\<close>

lemma target_within_bound:
  assumes "concurrency_upper_bound p \<le> 2 ^ 52"
  shows "target_concurrency p elapsed \<le> concurrency_upper_bound p"
proof (cases p)
  case (LRamp start target ramp hold)
  have "ramp_value start target ramp (as_secs elapsed) \<le> max start target" if "as_secs elapsed < ramp"
  proof -
    have "0 < ramp" using that by (metis word_gt_0 word_not_simps(1))
    then show ?thesis using ramp_value_between[of start target "as_secs elapsed" ramp] assms LRamp that by simp
  qed
  then show ?thesis by (auto simp: LRamp Let_def)
qed (auto simp: Let_def)

lemma as_secs_mono: "e \<le> e' \<Longrightarrow> e' < 2 ^ 64 * 10 ^ 9 \<Longrightarrow> as_secs e \<le> as_secs e'"
proof -
  assume a: "e \<le> e'" "e' < 2 ^ 64 * 10 ^ 9"
  have "e' div 10 ^ 9 < 2 ^ 64" using a(2) by (simp add: div_less_iff_less_mult)
  moreover have "e div 10 ^ 9 \<le> e' div 10 ^ 9" using a(1) by (rule div_le_mono)
  ultimately show ?thesis unfolding as_secs_def word_le_nat_alt by (simp add: unat_of_nat)
qed

text \<open>C30: a ramp between two worker counts up to the limit asks for the start count at the beginning, never for
  fewer workers than its smaller end or more than its larger end, never goes back on its way from start to target
  although it is computed in double precision, and asks for exactly the target once the ramp time has passed.\<close>

theorem ramp_shape:
  assumes "start \<le> 10000" and "target \<le> 10000" and "e \<le> e'" and "e' < 2 ^ 64 * 10 ^ 9"
  shows "target_concurrency (LRamp start target ramp hold) 0 = (if ramp = 0 then target else start) \<and>
    min start target \<le> target_concurrency (LRamp start target ramp hold) e \<and>
    target_concurrency (LRamp start target ramp hold) e \<le> max start target \<and>
    (start \<le> target \<longrightarrow> target_concurrency (LRamp start target ramp hold) e \<le> target_concurrency (LRamp start target ramp hold) e') \<and>
    (target \<le> start \<longrightarrow> target_concurrency (LRamp start target ramp hold) e' \<le> target_concurrency (LRamp start target ramp hold) e) \<and>
    (ramp \<le> as_secs e \<longrightarrow> target_concurrency (LRamp start target ramp hold) e = target)"
proof -
  let ?c = "target_concurrency (LRamp start target ramp hold)"
  have b: "start \<le> 2 ^ 52" "target \<le> 2 ^ 52" using assms(1,2) by simp_all
  have pos: "0 < ramp" if "t < ramp" for t using that by (metis word_gt_0 word_not_simps(1))
  have bt: "min start target \<le> ?c x \<and> ?c x \<le> max start target" for x
    using ramp_value_between[OF b _ pos, of "as_secs x"] by (auto simp: Let_def)
  have le: "as_secs e \<le> as_secs e'" using as_secs_mono[OF assms(3,4)] .
  have mono: "if start \<le> target then ?c e \<le> ?c e' else ?c e' \<le> ?c e"
  proof (cases "as_secs e' < ramp")
    case True
    then have "as_secs e < ramp" using le by simp
    then show ?thesis using ramp_value_mono[OF b le _ pos[OF True]] True by (auto simp: Let_def)
  next
    case False
    then show ?thesis using bt[of e] by (auto simp: Let_def)
  qed
  have st: "?c 0 = (if ramp = 0 then target else start)"
    using ramp_value_start[OF b, of ramp] by (auto simp: Let_def as_secs_def word_gt_0)
  have tg: "?c e = target" if "ramp \<le> as_secs e" using that by (auto simp: Let_def dest: leD)
  have eq: "?c e = ?c e'" if "start = target" using bt[of e] bt[of e'] that by simp
  show ?thesis using bt[of e] mono st tg eq by (metis linorder_not_le order_antisym order_refl)
qed

theorem ramp_shape_witness:
  "target_concurrency (LRamp 10 3 4 5) 1000000000 \<le> target_concurrency (LRamp 10 3 4 5) 0 \<and>
   3 \<le> target_concurrency (LRamp 10 3 4 5) 1000000000"
  using ramp_shape[of 10 3 0 1000000000 4 5] ramp_shape[of 10 3 1000000000 1000000000 4 5] by simp

end
