(* ===== verification/Rust_Text.thy ===== *)
theory Rust_Text
  imports Rust_Utf8
begin

text \<open>
  Text functions of the standard library that the protocol engines use: \<open>str::find\<close> on a byte pattern,
  \<open>str::lines\<close>, \<open>str::trim_start\<close>, \<open>[T]::join\<close>, \<open>String::from_utf8_lossy\<close> and ASCII letters.
\<close>

section \<open>Searching for a pattern\<close>

fun str_find :: "'a list \<Rightarrow> 'a list \<Rightarrow> nat option" where
  "str_find s p =
     (if starts_with s p then Some 0
      else case s of [] \<Rightarrow> None | _ # cs \<Rightarrow> map_option Suc (str_find cs p))"

declare str_find.simps [simp del]

lemma starts_with_length: "starts_with s p \<Longrightarrow> length p \<le> length s"
  by (auto simp: starts_with_iff)

lemma starts_with_longer: "starts_with s p \<Longrightarrow> starts_with (s @ t) p"
  by (auto simp: starts_with_iff)

lemma starts_with_shorter: "starts_with (s @ t) p \<Longrightarrow> length p \<le> length s \<Longrightarrow> starts_with s p"
  by (auto simp: starts_with_iff append_eq_append_conv2)

lemma starts_with_nth: "starts_with s p \<Longrightarrow> i < length p \<Longrightarrow> s ! i = p ! i"
  by (auto simp: starts_with_iff nth_append)

lemma str_find_rec:
  "str_find [] p = (if starts_with [] p then Some 0 else None)"
  "str_find (c # cs) p = (if starts_with (c # cs) p then Some 0 else map_option Suc (str_find cs p))"
  by (subst str_find.simps, simp)+

lemma str_find_found: "str_find s p = Some i \<Longrightarrow> i \<le> length s \<and> starts_with (drop i s) p"
  by (induction s arbitrary: i) (auto simp: str_find_rec split: if_splits)

lemma str_find_length: "str_find s p = Some i \<Longrightarrow> i + length p \<le> length s"
  using str_find_found[of s p i] starts_with_length[of "drop i s" p] by (simp add: le_diff_conv2 add.commute)

lemma str_find_append: "str_find s p = Some i \<Longrightarrow> str_find (s @ t) p = Some i"
proof (induction s arbitrary: i)
  case Nil
  then show ?case using starts_with_longer[of "[]" p t] by (cases t) (auto simp: str_find_rec split: if_splits)
next
  case (Cons c cs)
  show ?case
  proof (cases "starts_with (c # cs) p")
    case True
    then show ?thesis using Cons.prems starts_with_longer[OF True, of t] by (simp add: str_find_rec)
  next
    case False
    then obtain j where j: "str_find cs p = Some j" "i = Suc j" using Cons.prems by (auto simp: str_find_rec)
    have "length p \<le> length (c # cs)" using str_find_length[OF j(1)] by simp
    then have "\<not> starts_with ((c # cs) @ t) p" using False starts_with_shorter by blast
    then show ?thesis using Cons.IH[OF j(1)] j(2) by (simp add: str_find_rec)
  qed
qed

lemma str_find_none: "str_find s p = None \<Longrightarrow> j \<le> length s \<Longrightarrow> \<not> starts_with (drop j s) p"
proof (induction s arbitrary: j)
  case (Cons c cs)
  then show ?case by (cases j) (auto simp: str_find_rec split: if_splits)
qed (auto simp: str_find_rec split: if_splits)

text \<open>An occurrence found only after more text arrived ends in that text.\<close>

lemma str_find_late:
  assumes "str_find s p = None" and "str_find (s @ t) p = Some i"
  shows "length s < i + length p"
proof (rule ccontr)
  assume n: "\<not> length s < i + length p"
  have "drop i (s @ t) = drop i s @ t" using n by simp
  then have "starts_with (drop i s @ t) p" using str_find_found[OF assms(2)] by metis
  moreover have "length p \<le> length (drop i s)" using n by simp
  ultimately have "starts_with (drop i s) p" by (rule starts_with_shorter)
  moreover have "i \<le> length s" using n by simp
  ultimately show False using str_find_none[OF assms(1)] by blast
qed

section \<open>Lines, trimming and joining\<close>

text \<open>\<open>str::lines\<close>: a line ends with a line feed, and a carriage return before it belongs to the ending.\<close>

definition strip_line_cr :: "string \<Rightarrow> string" where
  "strip_line_cr l = (if l \<noteq> [] \<and> last l = CHR 0x0D then butlast l else l)"

lemma split_once_shorter: "split_once c s = Some (a, b) \<Longrightarrow> length b < length s"
  by (drule split_once_Some) simp

function str_lines :: "string \<Rightarrow> string list" where
  "str_lines s =
     (if s = [] then []
      else case split_once (CHR 0x0A) s of
             None \<Rightarrow> [s]
           | Some (l, r) \<Rightarrow> strip_line_cr l # str_lines r)"
  by pat_completeness auto
termination
  by (relation "measure length") (auto simp: split_once_shorter)

declare str_lines.simps [simp del]

definition str_trim_start :: "string \<Rightarrow> string" where
  "str_trim_start s = concat (dropWhile is_white_space (utf8_chars s))"

lemma str_trim_start_length: "length (str_trim_start s) \<le> length s"
proof -
  have "length (concat (dropWhile P xs)) \<le> length (concat xs)" for P :: "string \<Rightarrow> bool" and xs
    by (induction xs) auto
  then show ?thesis unfolding str_trim_start_def by (metis concat_utf8_chars)
qed

fun str_join :: "'a list \<Rightarrow> 'a list list \<Rightarrow> 'a list" where
  "str_join sep [] = []"
| "str_join sep [x] = x"
| "str_join sep (x # xs) = x @ sep @ str_join sep xs"

definition is_ascii_alphabetic :: "char \<Rightarrow> bool" where
  "is_ascii_alphabetic c \<longleftrightarrow> 65 \<le> byte c \<and> byte c \<le> 90 \<or> 97 \<le> byte c \<and> byte c \<le> 122"

section \<open>Lossy decoding\<close>

definition replacement_char :: bytes where
  "replacement_char = [CHR 0xEF, CHR 0xBF, CHR 0xBD]"

text \<open>How many bytes of an ill-formed start one replacement character stands for: the longest prefix of a well-formed
  sequence, at least one byte.\<close>

definition invalid_prefix :: "bytes \<Rightarrow> nat" where
  "invalid_prefix s =
     (case s of
        a # b # r \<Rightarrow>
          (if byte_in 0xE0 0xEF a \<and> second_byte (byte a) b then 2
           else if byte_in 0xF0 0xF4 a \<and> second_byte (byte a) b
           then (case r of c # _ \<Rightarrow> if utf8_cont c then 3 else 2 | [] \<Rightarrow> 2)
           else 1)
      | _ \<Rightarrow> 1)"

lemma invalid_prefix_pos: "0 < invalid_prefix s"
  by (auto simp: invalid_prefix_def split: list.splits)

function from_utf8_lossy :: "bytes \<Rightarrow> string" where
  "from_utf8_lossy s =
     (if s = [] then []
      else case utf8_next s of
             Some r \<Rightarrow> take (length s - length r) s @ from_utf8_lossy r
           | None \<Rightarrow> replacement_char @ from_utf8_lossy (drop (invalid_prefix s) s))"
  by pat_completeness auto
termination
  by (relation "measure length") (simp_all add: utf8_next_shorter invalid_prefix_pos)

declare from_utf8_lossy.simps [simp del]

lemma from_utf8_lossy_Nil [simp]: "from_utf8_lossy [] = []"
  by (subst from_utf8_lossy.simps) simp

lemma from_utf8_lossy_valid: "utf8_valid s \<Longrightarrow> from_utf8_lossy s = s"
proof (induction s rule: utf8_valid.induct)
  case (1 s)
  show ?case
  proof (cases "s = []")
    case False
    then obtain r where r: "utf8_next s = Some r" "utf8_valid r"
      using 1(2) by (subst (asm) utf8_valid.simps) (auto split: option.splits)
    obtain c where c: "s = c @ r" using utf8_next_suffix[OF r(1)] by blast
    have "from_utf8_lossy r = r" using 1(1)[OF r] .
    then show ?thesis using False r(1) c by (subst from_utf8_lossy.simps) simp
  qed simp
qed

end
