(* ===== verification/Http_Engine.thy ===== *)
theory Http_Engine
  imports Rust_Text Metric_Aggregate
begin

text \<open>
  The HTTP engine (\<open>protocols/http.rs\<close>) and the client types the engines over HTTP share.

  The client belongs to another crate: sending a request is an argument, a function of the client settings and the
  request that gives an error or a response.  A response is its status with the results its body stream will give; a
  list that is used up is the end of the stream.  Parsing an address is an argument too.
\<close>

section \<open>Clients, requests and responses\<close>

type_synonym body_stream = "(string + bytes) list"

record http_response =
  hr_status :: u16
  hr_body :: body_stream

text \<open>The settings \<open>build_client\<close> of \<open>lib.rs\<close> gives the client builder.\<close>

record http_client =
  hc_pool_max_idle :: usize
  hc_timeout :: duration
  hc_connect_timeout :: duration
  hc_tcp_nodelay :: bool
  hc_h2_keep_alive_interval :: duration
  hc_h2_keep_alive_timeout :: duration
  hc_default_headers :: "(string \<times> string) list"

record 'u http_request =
  hq_method :: string
  hq_url :: 'u
  hq_headers :: "(string \<times> string) list"
  hq_body :: "bytes option"
  hq_timeout :: "duration option"

text \<open>No settings is the default client of the crate.\<close>

type_synonym 'u http_send = "http_client option \<Rightarrow> 'u http_request \<Rightarrow> string + http_response"

definition chaos_header :: string where
  "chaos_header = ''x-chaos-fault''"

definition bad_header_value :: string where
  "bad_header_value = ''invalid-header-value''"

definition add_header :: "string \<Rightarrow> string \<Rightarrow> 'u http_request \<Rightarrow> 'u http_request" where
  "add_header name v r = r\<lparr>hq_headers := hq_headers r @ [(name, v)]\<rparr>"

text \<open>The request with a fault injected; the sleep of a latency spike only passes time.\<close>

definition chaos_request :: "bytes \<Rightarrow> chaos_fault option \<Rightarrow> 'u http_request \<Rightarrow> 'u http_request" where
  "chaos_request corrupted fault base =
     (case fault of
        Some (LatencySpike _) \<Rightarrow> base
      | Some CorruptedPayload \<Rightarrow> (add_header chaos_header ''corrupted-payload'' (base\<lparr>hq_headers := []\<rparr>))\<lparr>hq_body := Some corrupted\<rparr>
      | Some MetadataCorruption \<Rightarrow> add_header chaos_header bad_header_value base
      | Some ConnectionDrop \<Rightarrow> base\<lparr>hq_timeout := Some 1\<rparr>
      | None \<Rightarrow> base)"

section \<open>The engine\<close>

text \<open>The bytes \<open>{"payload": "\xff\xfe\xbd\xef"}\<close>, the backslashes included.\<close>

definition http_corrupted_body :: bytes where
  "http_corrupted_body =
     [CHR 0x7B, CHR 0x22] @ ''payload'' @ [CHR 0x22, CHR '':'', CHR '' '', CHR 0x22] @
     [CHR 0x5C] @ ''xff'' @ [CHR 0x5C] @ ''xfe'' @ [CHR 0x5C] @ ''xbd'' @ [CHR 0x5C] @ ''xef'' @ [CHR 0x22, CHR 0x7D]"

record http_engine =
  he_client :: "http_client option"
  he_method :: string
  he_body :: "bytes option"
  he_chaos :: chaos_engine

definition chaos_engine_default :: chaos_engine where
  "chaos_engine_default = \<lparr>ce_enabled = False, ce_rate = Fin 0\<rparr>"

definition http_engine_new :: http_engine where
  "http_engine_new = \<lparr>he_client = None, he_method = ''GET'', he_body = None, he_chaos = chaos_engine_default\<rparr>"

definition http_with_client :: "http_client \<Rightarrow> http_engine \<Rightarrow> http_engine" where
  "http_with_client client e = e\<lparr>he_client := Some client\<rparr>"

definition http_with_method :: "string \<Rightarrow> http_engine \<Rightarrow> http_engine" where
  "http_with_method m e = e\<lparr>he_method := m\<rparr>"

definition http_with_body :: "bytes option \<Rightarrow> http_engine \<Rightarrow> http_engine" where
  "http_with_body body e = e\<lparr>he_body := body\<rparr>"

definition http_with_chaos :: "chaos_engine \<Rightarrow> http_engine \<Rightarrow> http_engine" where
  "http_with_chaos chaos e = e\<lparr>he_chaos := chaos\<rparr>"

definition http_base_request :: "http_engine \<Rightarrow> 'u \<Rightarrow> 'u http_request" where
  "http_base_request e url =
     \<lparr>hq_method = he_method e, hq_url = url, hq_headers = [], hq_body = he_body e, hq_timeout = None\<rparr>"

fun drain_body :: "u64 \<Rightarrow> body_stream \<Rightarrow> u64 \<times> string option" where
  "drain_body total_bytes [] = (total_bytes, None)"
| "drain_body total_bytes (Inr chunk # stream) = drain_body (total_bytes + of_nat (length chunk)) stream"
| "drain_body total_bytes (Inl e # stream) = (total_bytes, Some e)"

definition http_execute_with_url :: "'u http_send \<Rightarrow> http_engine \<Rightarrow> u128 \<Rightarrow> chaos_fault option \<Rightarrow> 'u \<Rightarrow> request_metric" where
  "http_execute_with_url send e latency fault url =
     (case send (he_client e) (chaos_request http_corrupted_body fault (http_base_request e url)) of
        Inr response \<Rightarrow>
          (case drain_body 0 (hr_body response) of
             (bytes_received, Some e) \<Rightarrow> with_bytes bytes_received (with_status 0 (rm_builder latency fault))
           | (bytes_received, None) \<Rightarrow> with_bytes bytes_received (with_status (hr_status response) (rm_builder latency fault)))
      | Inl e \<Rightarrow> rm_error latency fault)"

definition http_execute_iteration ::
    "(string \<Rightarrow> string + 'u) \<Rightarrow> 'u http_send \<Rightarrow> http_engine \<Rightarrow> u128 \<Rightarrow> chaos_fault option \<Rightarrow> string \<Rightarrow> request_metric" where
  "http_execute_iteration parse send e latency fault target_url =
     (case parse target_url of
        Inr url \<Rightarrow> http_execute_with_url send e latency fault url
      | Inl err \<Rightarrow> rm_error latency None)"

text \<open>The cache of parsed addresses of a worker.\<close>

record 'u http_session =
  hs_urls :: "(string, 'u) hash_map"

definition http_session_default :: "'u http_session" where
  "http_session_default = \<lparr>hs_urls = []\<rparr>"

definition resolve :: "(string \<Rightarrow> string + 'u) \<Rightarrow> 'u http_session \<Rightarrow> string \<Rightarrow> 'u http_session \<times> (string + 'u)" where
  "resolve parse s target =
     (case map_of (hs_urls s) target of
        Some url \<Rightarrow> (s, Inr url)
      | None \<Rightarrow>
          (case parse target of
             Inl e \<Rightarrow> (s, Inl e)
           | Inr url \<Rightarrow> (s\<lparr>hs_urls := AList.update target url (hs_urls s)\<rparr>, Inr url)))"

definition http_execute_with_context ::
    "(string \<Rightarrow> string + 'u) \<Rightarrow> 'u http_send \<Rightarrow> http_engine \<Rightarrow> u128 \<Rightarrow> chaos_fault option \<Rightarrow> string \<Rightarrow> 'u http_session \<Rightarrow>
     'u http_session \<times> request_metric" where
  "http_execute_with_context parse send e latency fault target_url s =
     (case resolve parse s target_url of
        (s, Inr url) \<Rightarrow> (s, http_execute_with_url send e latency fault url)
      | (s, Inl err) \<Rightarrow> (s, rm_error latency None))"

section \<open>The cache is transparent\<close>

definition http_session_inv :: "(string \<Rightarrow> string + 'u) \<Rightarrow> 'u http_session \<Rightarrow> bool" where
  "http_session_inv parse s \<longleftrightarrow> (\<forall>k u. map_of (hs_urls s) k = Some u \<longrightarrow> parse k = Inr u)"

lemma resolve_transparent:
  assumes "http_session_inv parse s"
  shows "snd (resolve parse s target) = parse target \<and> http_session_inv parse (fst (resolve parse s target))"
  using assms by (auto simp: resolve_def http_session_inv_def update_conv' split: option.splits sum.splits)

text \<open>The iterations of a worker, each with the answers of the network, its latency, its fault and its target.\<close>

fun http_worker ::
    "(string \<Rightarrow> string + 'u) \<Rightarrow> http_engine \<Rightarrow> ('u http_send \<times> u128 \<times> chaos_fault option \<times> string) list \<Rightarrow> 'u http_session \<Rightarrow>
     request_metric list" where
  "http_worker parse e [] s = []"
| "http_worker parse e ((send, latency, fault, target) # turns) s =
     (case http_execute_with_context parse send e latency fault target s of
        (s, m) \<Rightarrow> m # http_worker parse e turns s)"

lemma drain_body_all: "drain_body n (map Inr cs) = (n + of_nat (length (concat cs)), None)"
  by (induction cs arbitrary: n) (simp_all add: algebra_simps)

lemma drain_body_failed: "drain_body n (map Inr cs @ Inl e # r) = (n + of_nat (length (concat cs)), Some e)"
  by (induction cs arbitrary: n) (simp_all add: algebra_simps)

lemma body_cases:
  obtains cs where "b = map Inr cs" | cs e r where "b = map Inr cs @ Inl e # r"
proof -
  have "(\<exists>cs. b = map Inr cs) \<or> (\<exists>cs e r. b = map Inr cs @ Inl e # r)"
  proof (induction b)
    case (Cons x b)
    show ?case
    proof (cases x)
      case (Inl e)
      then show ?thesis by (intro disjI2 exI[of _ "[]"]) simp
    next
      case (Inr c)
      with Cons show ?thesis by (elim disjE exE) (metis list.simps(9), metis append_Cons list.simps(9))
    qed
  qed simp
  then show ?thesis using that by blast
qed

text \<open>C39: caching parsed addresses never changes what a worker measures: the metrics of a worker with its session are
  those of the stateless iterations, for every sequence of targets, faults and answers.\<close>

theorem http_session_transparent:
  "http_worker parse e turns http_session_default =
     map (\<lambda>(send, latency, fault, target). http_execute_iteration parse send e latency fault target) turns"
proof -
  have "http_worker parse e turns s =
      map (\<lambda>(send, latency, fault, target). http_execute_iteration parse send e latency fault target) turns"
    if "http_session_inv parse s" for s
    using that
  proof (induction turns arbitrary: s)
    case (Cons turn turns)
    obtain send latency fault target where t: "turn = (send, latency, fault, target)" by (cases turn)
    obtain s' r where r: "resolve parse s target = (s', r)" by fastforce
    then have "r = parse target" "http_session_inv parse s'"
      using resolve_transparent[OF Cons.prems, of target] by auto
    then show ?case
      using Cons.IH[of s'] r by (simp add: t http_execute_with_context_def http_execute_iteration_def split: sum.split)
  qed simp
  then show ?thesis by (simp add: http_session_inv_def http_session_default_def)
qed

end
