(* ===== verification/Sse_Engine.thy ===== *)
theory Sse_Engine
  imports Http_Engine
begin

text \<open>
  The server-sent events engine (\<open>protocols/sse.rs\<close>): the incremental parser, the stateless iteration
  and the iteration over a persistent session.

  Requests, responses and the sending of a request are those of the HTTP engine.  The clock readings of an iteration
  are a record.
\<close>

section \<open>The parser\<close>

record sse_event =
  sev_event_type :: string
  sev_data :: string
  sev_id :: "string option"

abbreviation crlf_crlf :: string where
  "crlf_crlf \<equiv> [CHR 0x0D, CHR 0x0A, CHR 0x0D, CHR 0x0A]"

abbreviation lf_lf :: string where
  "lf_lf \<equiv> [CHR 0x0A, CHR 0x0A]"

definition find_frame_end :: "string \<Rightarrow> usize option" where
  "find_frame_end buffer =
     (case (str_find buffer crlf_crlf, str_find buffer lf_lf) of
        (Some c, Some l) \<Rightarrow> Some (min c l)
      | (Some c, None) \<Rightarrow> Some c
      | (None, Some l) \<Rightarrow> Some l
      | (None, None) \<Rightarrow> None)"

definition field_value :: "string \<Rightarrow> string" where
  "field_value v = (case strip_prefix v '' '' of Some r \<Rightarrow> r | None \<Rightarrow> v)"

text \<open>One line of a frame: the event type, the data lines and the identifier so far.\<close>

fun frame_line :: "string \<times> string list \<times> string option \<Rightarrow> string \<Rightarrow> string \<times> string list \<times> string option" where
  "frame_line (event_type, data_lines, ident) line =
     (if starts_with line '':'' then (event_type, data_lines, ident)
      else case strip_prefix line ''data:'' of
        Some v \<Rightarrow> (event_type, data_lines @ [field_value v], ident)
      | None \<Rightarrow>
          (case strip_prefix line ''event:'' of
             Some v \<Rightarrow> (field_value v, data_lines, ident)
           | None \<Rightarrow>
               (case strip_prefix line ''id:'' of
                  Some v \<Rightarrow> (event_type, data_lines, Some (field_value v))
                | None \<Rightarrow> (event_type, data_lines, ident))))"

definition parse_frame :: "string \<Rightarrow> sse_event option" where
  "parse_frame frame =
     (case foldl frame_line ([], [], None) (str_lines frame) of
        (event_type, data_lines, ident) \<Rightarrow>
          (if data_lines = [] then None
           else Some \<lparr>sev_event_type = event_type, sev_data = str_join [CHR 0x0A] data_lines, sev_id = ident\<rparr>))"

definition delim_len :: "string \<Rightarrow> usize \<Rightarrow> usize" where
  "delim_len buffer frame_end = (if starts_with (drop frame_end buffer) crlf_crlf then 4 else 2)"

lemma frame_end_found:
  assumes "find_frame_end s = Some i"
  shows "starts_with (drop i s) crlf_crlf \<or> starts_with (drop i s) lf_lf"
  using assms str_find_found[of s crlf_crlf] str_find_found[of s lf_lf]
  by (auto simp: find_frame_end_def min_def split: option.splits if_splits)

lemma frame_end_room: "find_frame_end s = Some i \<Longrightarrow> i + delim_len s i \<le> length s \<and> 0 < delim_len s i"
  using frame_end_found[of s i] starts_with_length[of "drop i s" crlf_crlf] starts_with_length[of "drop i s" lf_lf]
  by (auto simp: delim_len_def)

text \<open>The loop of \<open>parse_sse_chunk\<close>: cut complete frames off the buffer, keep the rest.\<close>

function sse_frames :: "string \<Rightarrow> string \<times> sse_event list" where
  "sse_frames buffer =
     (case find_frame_end buffer of
        None \<Rightarrow> (buffer, [])
      | Some frame_end \<Rightarrow>
          (case sse_frames (drop (frame_end + delim_len buffer frame_end) buffer) of
             (rest, events) \<Rightarrow>
               (rest, case parse_frame (take frame_end buffer) of Some event \<Rightarrow> event # events | None \<Rightarrow> events)))"
  by pat_completeness auto
termination
proof (relation "measure length")
  fix s i
  assume "find_frame_end s = Some i"
  from frame_end_room[OF this] show "(drop (i + delim_len s i) s, s) \<in> measure length" by auto
qed simp

declare sse_frames.simps [simp del]

definition parse_sse_chunk :: "string \<Rightarrow> string \<Rightarrow> string \<times> sse_event list" where
  "parse_sse_chunk buffer chunk = sse_frames (buffer @ chunk)"

section \<open>The engine\<close>

record sse_engine =
  seg_headers :: "(string \<times> string) list"
  seg_chaos :: chaos_engine
  seg_max_events :: "u64 option"

definition sse_engine_new :: "(string \<times> string) list \<Rightarrow> chaos_engine \<Rightarrow> u64 option \<Rightarrow> sse_engine" where
  "sse_engine_new headers chaos max_events =
     \<lparr>seg_headers = headers, seg_chaos = chaos, seg_max_events = max_events\<rparr>"

definition sse_build_headers :: "sse_engine \<Rightarrow> (string \<times> string) list" where
  "sse_build_headers g =
     (let merged = seg_headers g;
          merged = (if list_ex (\<lambda>(k, _). eq_ignore_ascii_case k ''accept'') merged then merged
                    else merged @ [(''accept'', ''text/event-stream'')])
      in if list_ex (\<lambda>(k, _). eq_ignore_ascii_case k ''cache-control'') merged then merged
         else merged @ [(''cache-control'', ''no-cache'')])"

definition sse_normalize_url :: "string \<Rightarrow> string" where
  "sse_normalize_url url =
     (case strip_prefix url ''sse://'' of
        Some rest \<Rightarrow> ''http://'' @ rest
      | None \<Rightarrow> (case strip_prefix url ''sses://'' of Some rest \<Rightarrow> ''https://'' @ rest | None \<Rightarrow> url))"

definition sse_connect :: "string http_send \<Rightarrow> sse_engine \<Rightarrow> string \<Rightarrow> string + http_response" where
  "sse_connect send g url =
     send None \<lparr>hq_method = ''GET'', hq_url = sse_normalize_url url, hq_headers = sse_build_headers g, hq_body = None, hq_timeout = None\<rparr>"

text \<open>The sleep of a latency spike only passes time.\<close>

definition sse_apply_chaos :: "chaos_fault option \<Rightarrow> request_metric option" where
  "sse_apply_chaos fault = (if fault = Some ConnectionDrop then Some (rm_error 0 fault) else None)"

text \<open>The instants an iteration reads, in nanoseconds; \<open>sc_end\<close> is read where its metric is built.\<close>

record sse_clock =
  sc_start :: instant
  sc_connect :: instant
  sc_read :: instant
  sc_now :: instant
  sc_end :: instant

definition micros_since :: "instant \<Rightarrow> instant \<Rightarrow> nat" where
  "micros_since t t\<^sub>0 = elapsed t t\<^sub>0 div 1000"

definition is_error_status :: "u16 \<Rightarrow> bool" where
  "is_error_status c \<longleftrightarrow> 400 \<le> c \<and> c < 600"

fun sse_first_frame :: "u16 \<Rightarrow> chaos_fault option \<Rightarrow> nat \<Rightarrow> string \<Rightarrow> u64 \<Rightarrow> body_stream \<Rightarrow> request_metric" where
  "sse_first_frame status fault latency buffer total_bytes [] =
     with_sse_events (Some 0) None None (with_bytes total_bytes (with_status status (rm_builder (of_nat latency) fault)))"
| "sse_first_frame status fault latency buffer total_bytes (Inl e # stream) = rm_error (of_nat latency) fault"
| "sse_first_frame status fault latency buffer total_bytes (Inr chunk # stream) =
     (let total_bytes = total_bytes + of_nat (length chunk)
      in case parse_sse_chunk buffer (from_utf8_lossy chunk) of
           (buffer, events) \<Rightarrow>
             (if events \<noteq> []
              then with_sse_events (Some (of_nat (length events))) (Some (of_nat latency)) None
                     (with_bytes total_bytes (with_status status (rm_builder (of_nat latency) fault)))
              else sse_first_frame status fault latency buffer total_bytes stream))"

definition sse_execute_iteration :: "string http_send \<Rightarrow> sse_engine \<Rightarrow> sse_clock \<Rightarrow> chaos_fault option \<Rightarrow> string \<Rightarrow> request_metric" where
  "sse_execute_iteration get g t fault target_url =
     (let latency = micros_since (sc_end t) (sc_start t)
      in case sse_apply_chaos fault of
           Some metric \<Rightarrow> metric\<lparr>rm_latency_micros := of_nat latency\<rparr>
         | None \<Rightarrow>
             (case sse_connect get g target_url of
                Inl e \<Rightarrow> rm_error (of_nat latency) fault
              | Inr response \<Rightarrow>
                  (if is_error_status (hr_status response)
                   then with_sse_events (Some 0) None None (with_status (hr_status response) (rm_builder (of_nat latency) fault))
                   else sse_first_frame (hr_status response) fault latency [] 0 (hr_body response))))"

section \<open>Sessions\<close>

record sse_session =
  ssn_stream :: "body_stream option"
  ssn_status_code :: u16
  ssn_events_received :: u64
  ssn_first_event_time :: "instant option"
  ssn_last_event_time :: "instant option"
  ssn_buffer :: string
  ssn_max_events :: "u64 option"

definition sse_session_new :: "u64 option \<Rightarrow> sse_session" where
  "sse_session_new max_events =
     \<lparr>ssn_stream = None, ssn_status_code = 0, ssn_events_received = 0, ssn_first_event_time = None,
      ssn_last_event_time = None, ssn_buffer = [], ssn_max_events = max_events\<rparr>"

definition is_max_reached :: "sse_session \<Rightarrow> bool" where
  "is_max_reached s = (case ssn_max_events s of Some m \<Rightarrow> m \<le> ssn_events_received s | None \<Rightarrow> False)"

datatype sse_read_end = ReadEvents | ReadFailed | ReadEof

text \<open>Read until a chunk completes an event: the rest of the stream, the buffer and the bytes read.\<close>

fun sse_read :: "string \<Rightarrow> u64 \<Rightarrow> body_stream \<Rightarrow> body_stream \<times> string \<times> u64 \<times> sse_read_end" where
  "sse_read buffer total_bytes [] = ([], buffer, total_bytes, ReadEof)"
| "sse_read buffer total_bytes (Inl e # stream) = (stream, buffer, total_bytes, ReadFailed)"
| "sse_read buffer total_bytes (Inr chunk # stream) =
     (let total_bytes = total_bytes + of_nat (length chunk)
      in case parse_sse_chunk buffer (from_utf8_lossy chunk) of
           (buffer, events) \<Rightarrow>
             (if events \<noteq> [] then (stream, buffer, total_bytes, ReadEvents)
              else sse_read buffer total_bytes stream))"

text \<open>The session on a new connection.\<close>

definition sse_opened :: "http_response \<Rightarrow> sse_session \<Rightarrow> sse_session" where
  "sse_opened resp s =
     s\<lparr>ssn_status_code := hr_status resp, ssn_events_received := 0, ssn_first_event_time := None,
       ssn_stream := Some (hr_body resp)\<rparr>"

text \<open>The lazy connect: the fault drawn for the connection and the session, or the metric to return.\<close>

definition sse_ensure_stream ::
    "string http_send \<Rightarrow> sse_engine \<Rightarrow> sse_clock \<Rightarrow> chaos_fault option \<Rightarrow> string \<Rightarrow> sse_session \<Rightarrow>
     request_metric + (chaos_fault option \<times> sse_session)" where
  "sse_ensure_stream get g t drawn target_url s =
     (if ssn_stream s = None
      then let latency = of_nat (micros_since (sc_end t) (sc_connect t))
           in case sse_apply_chaos drawn of
                Some metric \<Rightarrow> Inl (metric\<lparr>rm_latency_micros := latency\<rparr>)
              | None \<Rightarrow>
                  (case sse_connect get g target_url of
                     Inr resp \<Rightarrow> Inr (drawn, sse_opened resp s)
                   | Inl e \<Rightarrow> Inl (rm_error latency drawn))
      else Inr (None, s))"

text \<open>An iteration that got events: the counter, the times and the metric.\<close>

definition sse_event_metric ::
    "sse_clock \<Rightarrow> bool \<Rightarrow> chaos_fault option \<Rightarrow> u64 \<Rightarrow> sse_session \<Rightarrow> sse_session \<times> request_metric" where
  "sse_event_metric t was_connected fault total_bytes s =
     (let s = s\<lparr>ssn_events_received := ssn_events_received s + 1\<rparr>;
          first_of_connection = (ssn_first_event_time s = None);
          s = (if first_of_connection then s\<lparr>ssn_first_event_time := Some (sc_now t)\<rparr> else s);
          interval_us = map_option (\<lambda>last. of_nat (micros_since (sc_now t) last)) (ssn_last_event_time s);
          s = s\<lparr>ssn_last_event_time := Some (sc_now t)\<rparr>;
          first_event_us = (if first_of_connection then Some (of_nat (micros_since (sc_now t) (sc_start t))) else None)
      in (s, with_sse_events (Some (ssn_events_received s)) first_event_us interval_us
               (with_socket_reused was_connected
                 (with_bytes total_bytes
                   (with_status (ssn_status_code s) (rm_builder (of_nat (micros_since (sc_end t) (sc_read t))) fault))))))"

definition sse_execute_with_context ::
    "string http_send \<Rightarrow> sse_engine \<Rightarrow> sse_clock \<Rightarrow> chaos_fault option \<Rightarrow> string \<Rightarrow> sse_session \<Rightarrow> sse_session \<times> request_metric" where
  "sse_execute_with_context get g t drawn target_url s =
     (let was_connected = (ssn_stream s \<noteq> None)
      in if is_max_reached s
         then (s, with_sse_events (Some (ssn_events_received s)) None None
                    (with_socket_reused was_connected (with_status (ssn_status_code s) (rm_builder 0 None))))
         else case sse_ensure_stream get g t drawn target_url s of
           Inl metric \<Rightarrow> (s, metric)
         | Inr (fault, s) \<Rightarrow>
             (let latency = of_nat (micros_since (sc_end t) (sc_read t))
              in case ssn_stream s of
                   None \<Rightarrow> (s, rm_error latency fault)
                 | Some stream \<Rightarrow>
                     (case sse_read (ssn_buffer s) 0 stream of
                        (stream, buffer, total_bytes, ReadEvents) \<Rightarrow>
                          sse_event_metric t was_connected fault total_bytes (s\<lparr>ssn_stream := Some stream, ssn_buffer := buffer\<rparr>)
                      | (_, _, total_bytes, ReadFailed) \<Rightarrow>
                          (s\<lparr>ssn_stream := None, ssn_buffer := []\<rparr>, rm_error latency fault)
                      | (_, _, total_bytes, ReadEof) \<Rightarrow>
                          (let s = s\<lparr>ssn_stream := None, ssn_buffer := []\<rparr>
                           in (s, with_sse_events (Some (ssn_events_received s)) None None
                                    (with_socket_reused was_connected
                                      (with_bytes total_bytes (with_status (ssn_status_code s) (rm_builder latency fault)))))))))"

section \<open>Parsing does not depend on how the text is cut\<close>

lemma frame_end_append:
  assumes "find_frame_end s = Some i"
  shows "find_frame_end (s @ t) = Some i"
proof -
  have stable: "str_find (s @ t) p = Some j" if "str_find s p = Some j" for p j using str_find_append[OF that] .
  show ?thesis
  proof (cases "str_find s crlf_crlf")
    case c: (Some c)
    show ?thesis
    proof (cases "str_find s lf_lf")
      case (Some l)
      then show ?thesis using assms c stable by (simp add: find_frame_end_def)
    next
      case None
      have "c \<le> l" if "str_find (s @ t) lf_lf = Some l" for l
        using str_find_late[OF None that] str_find_length[OF c] by simp
      then show ?thesis using assms c None stable[OF c] by (auto simp: find_frame_end_def split: option.splits)
    qed
  next
    case None
    then obtain l where l: "str_find s lf_lf = Some l" "i = l" using assms by (auto simp: find_frame_end_def split: option.splits)
    have "l \<le> c" if c: "str_find (s @ t) crlf_crlf = Some c" for c
    proof (rule ccontr)
      assume "\<not> l \<le> c"
      then have e: "l = Suc c" using str_find_late[OF None c] str_find_length[OF l(1)] by simp
      have a: "starts_with (drop c (s @ t)) crlf_crlf" "starts_with (drop l (s @ t)) lf_lf"
        using str_find_found[OF c] str_find_found[OF stable[OF l(1)]] by simp_all
      have "drop l (s @ t) = drop 1 (drop c (s @ t))" by (simp only: e drop_drop plus_1_eq_Suc)
      moreover obtain x y where "drop c (s @ t) = crlf_crlf @ x" "drop l (s @ t) = lf_lf @ y"
        using a unfolding starts_with_iff by blast
      ultimately show False by (simp only: append.simps drop_Suc_Cons drop_0 One_nat_def) simp
    qed
    then show ?thesis using assms l None stable[OF l(1)] by (auto simp: find_frame_end_def min_def split: option.splits)
  qed
qed

lemma delim_len_append: "find_frame_end s = Some i \<Longrightarrow> delim_len (s @ t) i = delim_len s i"
proof -
  assume f: "find_frame_end s = Some i"
  have d: "drop i (s @ t) = drop i s @ t" using frame_end_room[OF f] by simp
  show ?thesis
    using frame_end_found[OF f] unfolding delim_len_def d by (auto simp: starts_with_iff)
qed

lemma sse_frames_append:
  "sse_frames (s @ t) =
     (case sse_frames s of (r, es) \<Rightarrow> case sse_frames (r @ t) of (r', es') \<Rightarrow> (r', es @ es'))"
proof (induction s rule: sse_frames.induct)
  case (1 s)
  show ?case
  proof (cases "find_frame_end s")
    case None
    then have "sse_frames s = (s, [])" by (subst sse_frames.simps) simp
    then show ?thesis by simp
  next
    case (Some i)
    let ?n = "i + delim_len s i"
    have n: "?n \<le> length s" using frame_end_room[OF Some] by simp
    have whole: "sse_frames (s @ t) = (case sse_frames (drop ?n s @ t) of (rest, events) \<Rightarrow>
        (rest, case parse_frame (take i s) of Some event \<Rightarrow> event # events | None \<Rightarrow> events))"
      using n by (subst sse_frames.simps) (simp add: frame_end_append[OF Some] delim_len_append[OF Some])
    have part: "sse_frames s = (case sse_frames (drop ?n s) of (rest, events) \<Rightarrow>
        (rest, case parse_frame (take i s) of Some event \<Rightarrow> event # events | None \<Rightarrow> events))"
      by (subst sse_frames.simps) (simp add: Some)
    show ?thesis
      unfolding whole part 1[OF Some] by (simp split: prod.split option.split)
  qed
qed

text \<open>The chunks of a body one after the other, as the read loops of the engine take them.\<close>

definition sse_feed :: "string \<times> sse_event list \<Rightarrow> string \<Rightarrow> string \<times> sse_event list" where
  "sse_feed st chunk = (case parse_sse_chunk (fst st) chunk of (r, es) \<Rightarrow> (r, snd st @ es))"

lemma sse_feed_all:
  "foldl sse_feed (b, es) cs = (case sse_frames (b @ concat cs) of (r, es') \<Rightarrow> (r, es @ es'))"
  if "sse_frames b = (b, [])"
  using that
proof (induction cs arbitrary: b es)
  case (Cons c cs)
  obtain r e where r: "sse_frames (b @ c) = (r, e)" by fastforce
  have "sse_frames (b @ c) = (case sse_frames (r @ []) of (r', e') \<Rightarrow> (r', e @ e'))"
    using sse_frames_append[of "b @ c" "[]"] r by simp
  then have "sse_frames r = (r, [])" using r by (simp split: prod.splits)
  from Cons.IH[OF this, of "es @ e"] show ?case
    using sse_frames_append[of "b @ c" "concat cs"] by (simp add: sse_feed_def parse_sse_chunk_def r split: prod.split)
qed simp

lemma sse_frames_Nil [simp]: "sse_frames [] = ([], [])"
  by (subst sse_frames.simps) (simp add: find_frame_end_def str_find_rec)

text \<open>C31: however a body is cut into chunks, as long as no chunk ends inside a character, the events the incremental
  parser finds and the incomplete frame it keeps are those of the whole text parsed at once.\<close>

theorem sse_chunking:
  assumes "\<forall>c\<in>set chunks. utf8_valid c"
  shows "foldl sse_feed ([], []) (map from_utf8_lossy chunks) = parse_sse_chunk [] (concat chunks)"
proof -
  have "map from_utf8_lossy chunks = chunks" using assms by (induction chunks) (simp_all add: from_utf8_lossy_valid)
  then show ?thesis using sse_feed_all[of "[]" "[]" chunks] by (simp add: parse_sse_chunk_def split: prod.splits)
qed

theorem sse_chunking_witness:
  "foldl sse_feed ([], []) (map from_utf8_lossy [''data: '', ''a'' @ [CHR 0x0A], [CHR 0x0A]]) =
     parse_sse_chunk [] (concat [''data: '', ''a'' @ [CHR 0x0A], [CHR 0x0A]])"
  by (rule sse_chunking) (simp add: utf8_valid_all_ascii)

section \<open>What sessions keep and report\<close>

text \<open>What an iteration of a session gets from outside: the answer of the server, the clock and the fault drawn.\<close>

type_synonym sse_turn = "string http_send \<times> sse_clock \<times> chaos_fault option"

definition sse_step :: "sse_engine \<Rightarrow> string \<Rightarrow> sse_session \<Rightarrow> sse_turn \<Rightarrow> sse_session" where
  "sse_step g url s turn = (case turn of (get, t, drawn) \<Rightarrow> fst (sse_execute_with_context get g t drawn url s))"

definition sse_session_inv :: "u64 \<Rightarrow> sse_session \<Rightarrow> bool" where
  "sse_session_inv n s \<longleftrightarrow>
     ssn_max_events s = Some n \<and> ssn_events_received s \<le> n \<and>
     (ssn_first_event_time s = None \<longleftrightarrow> ssn_events_received s = 0) \<and>
     (ssn_stream s = None \<longrightarrow> ssn_buffer s = [])"

lemma sse_ensure_stream_cases:
  assumes "sse_ensure_stream get g t drawn url s = Inr (fault, s')"
  shows "s' = s \<and> ssn_stream s \<noteq> None \<and> fault = None \<or> ssn_stream s = None \<and> (\<exists>resp. s' = sse_opened resp s)"
  using assms by (auto simp: sse_ensure_stream_def Let_def split: if_splits option.splits sum.splits)

lemma sse_event_metric_inv:
  assumes "sse_session_inv n s" and "ssn_events_received s < n" and "ssn_stream s \<noteq> None"
  shows "sse_session_inv n (fst (sse_event_metric t was fault k s))"
proof -
  have "ssn_events_received s + 1 \<le> n" using assms(2) by (rule inc_le)
  moreover have "ssn_events_received s + 1 \<noteq> 0"
    using assms(2) word_n1_ge[of n] by (metis add_eq_0_iff2 leD)
  ultimately have "ssn_events_received s + 1 \<le> n" "ssn_events_received s + 1 \<noteq> 0" by blast+
  then show ?thesis using assms(1,3) by (auto simp: sse_session_inv_def sse_event_metric_def Let_def)
qed

lemma sse_execute_inv:
  assumes "sse_session_inv n s"
  shows "sse_session_inv n (fst (sse_execute_with_context get g t drawn url s))"
proof (cases "is_max_reached s")
  case True
  then show ?thesis using assms by (simp add: sse_execute_with_context_def)
next
  case False
  then have lt: "ssn_events_received s < n" "0 < n" using assms by (auto simp: is_max_reached_def sse_session_inv_def word_gt_0)
  show ?thesis
  proof (cases "sse_ensure_stream get g t drawn url s")
    case (Inl m)
    then show ?thesis using assms False by (simp add: sse_execute_with_context_def)
  next
    case (Inr r)
    then obtain fault s' where e: "sse_ensure_stream get g t drawn url s = Inr (fault, s')" by (cases r) auto
    have i: "sse_session_inv n s'" "ssn_events_received s' < n"
      using sse_ensure_stream_cases[OF e] assms lt by (auto simp: sse_session_inv_def sse_opened_def)
    obtain stream where st: "ssn_stream s' = Some stream"
      using sse_ensure_stream_cases[OF e] by (auto simp: sse_opened_def)
    obtain rest buf k f where rd: "sse_read (ssn_buffer s') 0 stream = (rest, buf, k, f)" by (metis prod_cases4)
    show ?thesis
    proof (cases f)
      case ReadEvents
      have "sse_session_inv n (fst (sse_event_metric t (ssn_stream s \<noteq> None) fault k (s'\<lparr>ssn_stream := Some rest, ssn_buffer := buf\<rparr>)))"
        using i by (intro sse_event_metric_inv) (simp_all add: sse_session_inv_def)
      then show ?thesis using False e st rd ReadEvents by (simp add: sse_execute_with_context_def)
    qed (use False e st rd i in \<open>simp_all add: sse_execute_with_context_def sse_session_inv_def Let_def\<close>)
  qed
qed

interpretation sse: guarded_machine "sse_step g url" "sse_session_inv n" "\<lambda>_. True" for g url n
  by unfold_locales (auto simp: sse_step_def sse_execute_inv split: prod.split)

text \<open>C35: a session with an event budget never counts more events than its budget, has a first-event time exactly when
  it counted one on the current connection, and keeps no half-read frame once its stream is gone; and once the budget is
  spent no later iteration changes the session, so it never opens another connection.\<close>

theorem sse_budget:
  assumes "s = foldl (sse_step g url) (sse_session_new (Some n)) turns"
  shows "ssn_events_received s \<le> n \<and> (ssn_first_event_time s = None \<longleftrightarrow> ssn_events_received s = 0) \<and>
    (ssn_stream s = None \<longrightarrow> ssn_buffer s = []) \<and>
    (ssn_events_received s = n \<longrightarrow> foldl (sse_step g url) s later = s)"
proof -
  have "sse_session_inv n (sse_session_new (Some n))" by (simp add: sse_session_inv_def sse_session_new_def)
  then have inv: "sse_session_inv n s" unfolding assms by (rule sse.run_inv) simp
  have stay: "foldl (sse_step g url) s later = s" if "ssn_events_received s = n"
  proof -
    have "is_max_reached s" using inv that by (simp add: is_max_reached_def sse_session_inv_def)
    then have "sse_step g url s turn = s" for turn
      by (simp add: sse_step_def sse_execute_with_context_def split: prod.split)
    then show ?thesis by (induction later) simp_all
  qed
  show ?thesis using inv stay by (simp add: sse_session_inv_def)
qed

text \<open>A server that sends one event, and a session with a budget of one: a second iteration changes nothing.\<close>

definition one_event :: body_stream where
  "one_event = [Inr (''data: a'' @ lf_lf)]"

definition one_event_turn :: sse_turn where
  "one_event_turn = (\<lambda>_ _. Inr \<lparr>hr_status = 200, hr_body = one_event\<rparr>,
     \<lparr>sc_start = 0, sc_connect = 0, sc_read = 0, sc_now = 5000, sc_end = 6000\<rparr>, None)"

definition plain_engine :: sse_engine where
  "plain_engine = sse_engine_new [] (chaos_engine_new False (Fin 0)) (Some 1)"

theorem sse_budget_witness:
  "ssn_events_received (foldl (sse_step plain_engine ''sse://h'') (sse_session_new (Some 1)) [one_event_turn, one_event_turn]) \<le> 1"
  using sse_budget[OF refl, of plain_engine "''sse://h''" 1 "[one_event_turn, one_event_turn]"] by blast

section \<open>What a run over one connection adds up to\<close>

fun sse_metrics_of :: "sse_engine \<Rightarrow> string \<Rightarrow> sse_turn list \<Rightarrow> sse_session \<Rightarrow> request_metric list" where
  "sse_metrics_of g url [] s = []"
| "sse_metrics_of g url ((get, t, drawn) # turns) s =
     (case sse_execute_with_context get g t drawn url s of (s', m) \<Rightarrow> m # sse_metrics_of g url turns s')"

text \<open>The events a metric reports.\<close>

definition sse_events_of :: "request_metric \<Rightarrow> u64" where
  "sse_events_of m = opt0 (\<lambda>s. opt0 id (ses_events_received s)) (rm_sse m)"

definition sse_total :: "'h aggregation \<Rightarrow> u64" where
  "sse_total a = (case a of (m, p, t) \<Rightarrow> sem_total_events_received (sea_stats (pa_sse p)))"

lemma sse_record_total:
  "sem_total_events_received (sea_stats (sse_record a x)) = sem_total_events_received (sea_stats a) + opt0 id (ses_events_received x)"
  by (simp add: sse_record_def Let_def opt0_def split: option.split)

lemma sse_total_step: "sse_total (aggregate_step H a e) = sse_total a + sse_events_of (fst e)"
  by (cases a; cases e)
    (simp add: sse_total_def aggregate_step_def Let_def protocols_record_def sse_events_of_def rm_sse_def opt0_def
      sse_record_total split: option.split protocol_sample.split)

interpretation sse_agg: additive_fold "aggregate_step H" "\<lambda>_. True" "\<lambda>_. True" sse_total "\<lambda>e. sse_events_of (fst e)" for H
  by unfold_locales (simp_all add: sse_total_step)

lemma sse_finish_total: "opt0 sem_total_events_received (sse_finish a) = sem_total_events_received (sea_stats a)"
  by (simp add: sse_finish_def Let_def opt0_def word_gt_0)

lemma sse_aggregate_total:
  "opt0 sem_total_events_received (am_sse_metrics (finalize_metrics H received iv starts ends)) =
     sum_list (map (\<lambda>e. sse_events_of (fst e)) received)"
proof -
  obtain m p t where run: "aggregate_run H received iv starts = (m, p, t)"
    by (cases "aggregate_run H received iv starts")
  have "sse_total (aggregate_run H received iv starts) =
      sse_total (aggregated_metrics_default H, protocol_accumulators_default H, timeline_new H iv (fst starts) (snd starts)) +
      sum_list (map (\<lambda>e. sse_events_of (fst e)) received)"
    unfolding aggregate_run_def by (rule sse_agg.measure_run) simp_all
  then have "sem_total_events_received (sea_stats (pa_sse p)) = sum_list (map (\<lambda>e. sse_events_of (fst e)) received)"
    by (simp add: run sse_total_def protocol_accumulators_default_def sse_accumulator_default_def)
  then show ?thesis by (simp add: finalize_metrics_run[OF run] finish_into_def sse_finish_total)
qed

lemma sse_execute_event:
  assumes "ssn_stream s = Some (Inr c # rest)" and "ssn_buffer s = []" and "ssn_max_events s = None"
    and "parse_sse_chunk [] (from_utf8_lossy c) = ([], [e])"
  obtains s' m where "sse_execute_with_context get g t drawn url s = (s', m)" "sse_events_of m = ssn_events_received s + 1"
    "ssn_stream s' = Some rest" "ssn_buffer s' = []" "ssn_max_events s' = None"
    "ssn_events_received s' = ssn_events_received s + 1"
  using assms
  by (simp add: sse_execute_with_context_def is_max_reached_def sse_ensure_stream_def sse_event_metric_def Let_def
      sse_events_of_def rm_sse_def with_sse_events_def opt0_def)

text \<open>A server that sends one event per chunk.\<close>

definition single_event :: "bytes \<Rightarrow> bool" where
  "single_event c \<longleftrightarrow> fst (parse_sse_chunk [] (from_utf8_lossy c)) = [] \<and> length (snd (parse_sse_chunk [] (from_utf8_lossy c))) = 1"

lemma sse_metrics_running:
  assumes "ssn_stream s = Some (map Inr cs)" and "ssn_buffer s = []" and "ssn_max_events s = None"
    and "list_all single_event cs" and "length turns = length cs"
  shows "map sse_events_of (sse_metrics_of g url turns s) = map (\<lambda>i. ssn_events_received s + of_nat (Suc i)) [0..<length cs]"
  using assms
proof (induction cs arbitrary: s turns)
  case (Cons c cs)
  obtain get t drawn ts where ts: "turns = (get, t, drawn) # ts" "length ts = length cs"
    using Cons.prems(5) by (cases turns) auto
  obtain e where e: "parse_sse_chunk [] (from_utf8_lossy c) = ([], [e])"
    using Cons.prems(4) by (cases "parse_sse_chunk [] (from_utf8_lossy c)") (auto simp: single_event_def length_Suc_conv)
  have st: "ssn_stream s = Some (Inr c # map Inr cs)" using Cons.prems(1) by simp
  obtain s' m where s': "sse_execute_with_context get g t drawn url s = (s', m)" "sse_events_of m = ssn_events_received s + 1"
    "ssn_stream s' = Some (map Inr cs)" "ssn_buffer s' = []" "ssn_max_events s' = None"
    "ssn_events_received s' = ssn_events_received s + 1"
    using sse_execute_event[OF st Cons.prems(2,3) e] by blast
  have "map sse_events_of (sse_metrics_of g url ts s') = map (\<lambda>i. ssn_events_received s' + of_nat (Suc i)) [0..<length cs]"
    using Cons.IH[OF s'(3,4,5) _ ts(2)] Cons.prems(4) by simp
  moreover have "map (\<lambda>i. k + of_nat (Suc i)) [0..<length (c # cs)] = (k + 1) # map (\<lambda>i. (k + 1) + of_nat (Suc i)) [0..<length cs]"
    for k :: u64
    by (simp add: map_upt_Suc algebra_simps del: upt_Suc)
  ultimately show ?case by (simp only: ts(1) sse_metrics_of.simps s'(1,2,6) prod.case list.map)
qed simp

lemma sum_running: "sum_list (map (\<lambda>i. of_nat (Suc i)) [0..<n]) = (of_nat (n * (n + 1) div 2) :: u64)"
proof (induction n)
  case (Suc n)
  have "n * (n + 1) div 2 + Suc n = Suc n * (Suc n + 1) div 2" by simp
  then have "of_nat (n * (n + 1) div 2) + of_nat (Suc n) = (of_nat (Suc n * (Suc n + 1) div 2) :: u64)"
    by (metis of_nat_add)
  with Suc show ?case by (simp only: upt_Suc_append le0 map_append sum_list_append list.map sum_list_simps add_0_right)
qed simp

text \<open>C40: each iteration of a persistent session reports the running number of events of its connection and the
  aggregator adds the reports up: over one connection that delivers \<open>n\<close> events, one per iteration, the summary shows
  \<open>n * (n + 1) / 2\<close> events, although the documented meaning of the total is the number of events received.\<close>

theorem sse_total_overcounts:
  assumes "ssn_stream s = Some (map Inr cs)" and "ssn_buffer s = []" and "ssn_max_events s = None"
    and "ssn_events_received s = 0" and "list_all single_event cs" and "length turns = length cs"
    and "map fst received = sse_metrics_of g url turns s"
  shows "opt0 sem_total_events_received (am_sse_metrics (finalize_metrics H received iv starts ends)) =
    of_nat (length cs * (length cs + 1) div 2)"
proof -
  have "sum_list (map (\<lambda>e. sse_events_of (fst e)) received) = sum_list (map sse_events_of (map fst received))"
    by (simp add: o_def)
  also have "\<dots> = of_nat (length cs * (length cs + 1) div 2)"
    unfolding assms(7) sse_metrics_running[OF assms(1,2,3,5,6)] by (simp add: assms(4) sum_running del: of_nat_Suc)
  finally show ?thesis by (simp add: sse_aggregate_total)
qed

lemma single_event_a: "single_event (''data: a'' @ lf_lf)"
proof -
  have "from_utf8_lossy (''data: a'' @ lf_lf) = ''data: a'' @ lf_lf"
    by (rule from_utf8_lossy_valid[OF utf8_valid_all_ascii]) simp
  moreover have "parse_sse_chunk [] (''data: a'' @ lf_lf) = ([], [\<lparr>sev_event_type = [], sev_data = ''a'', sev_id = None\<rparr>])"
    by code_simp
  ultimately show ?thesis by (simp add: single_event_def)
qed

definition open_session :: sse_session where
  "open_session = sse_opened \<lparr>hr_status = 200, hr_body = map Inr [''data: a'' @ lf_lf, ''data: a'' @ lf_lf]\<rparr> (sse_session_new None)"

theorem sse_total_overcounts_witness:
  "opt0 sem_total_events_received (am_sse_metrics (finalize_metrics exact_hdr
      (map (\<lambda>m. (m, \<lparr>ec_guard = 0, ec_run = 0, ec_interval = 0, ec_reset = 0\<rparr>)) (sse_metrics_of plain_engine ''sse://h'' [one_event_turn, one_event_turn] open_session))
      1000 (0, 0) (0, 0))) = 3"
proof -
  let ?r = "map (\<lambda>m. (m, \<lparr>ec_guard = 0, ec_run = 0, ec_interval = 0, ec_reset = 0\<rparr>)) (sse_metrics_of plain_engine ''sse://h'' [one_event_turn, one_event_turn] open_session)"
  have "ssn_stream open_session = Some (map Inr [''data: a'' @ lf_lf, ''data: a'' @ lf_lf])" "ssn_buffer open_session = []"
    "ssn_max_events open_session = None" "ssn_events_received open_session = 0"
    by (simp_all add: open_session_def sse_opened_def sse_session_new_def)
  moreover have "list_all single_event [''data: a'' @ lf_lf, ''data: a'' @ lf_lf]" using single_event_a by simp
  moreover have "map fst ?r = sse_metrics_of plain_engine ''sse://h'' [one_event_turn, one_event_turn] open_session" by (simp add: o_def)
  ultimately have "opt0 sem_total_events_received (am_sse_metrics (finalize_metrics exact_hdr ?r 1000 (0, 0) (0, 0))) =
      of_nat (length [''data: a'' @ lf_lf, ''data: a'' @ lf_lf] * (length [''data: a'' @ lf_lf, ''data: a'' @ lf_lf] + 1) div 2)"
    by (intro sse_total_overcounts[where turns = "[one_event_turn, one_event_turn]" and s = open_session]) simp_all
  then show ?thesis by simp
qed

end
