(* ===== verification/Graphql_Engine.thy ===== *)
theory Graphql_Engine
  imports Http_Engine
begin

text \<open>
  The GraphQL engine (\<open>protocols/graphql.rs\<close>): the request payload, the operation type of a document, the errors of a
  response and one iteration.

  JSON belongs to another crate: its values are a datatype with the constructors of that crate (an object iterates in
  key order), parsing and printing are arguments.
\<close>

section \<open>JSON values\<close>

datatype json =
    JNull
  | JBool bool
  | JNumber string
  | JString string
  | JArray "json list"
  | JObject "(string, json) btree_map"

type_synonym json_parse = "bytes \<Rightarrow> string + json"

type_synonym json_print = "json \<Rightarrow> string + bytes"

fun is_object :: "json \<Rightarrow> bool" where
  "is_object (JObject _) = True"
| "is_object _ = False"

definition json_insert :: "string \<Rightarrow> json \<Rightarrow> (string, json) btree_map \<Rightarrow> (string, json) btree_map" where
  "json_insert k v m = bt_upsert k v (\<lambda>_. v) m"

section \<open>Payload, operation type and response errors\<close>

definition build_payload :: "json_parse \<Rightarrow> json_print \<Rightarrow> string \<Rightarrow> string option \<Rightarrow> string option \<Rightarrow> string + bytes" where
  "build_payload parse print query variables operation_name =
     (let obj = json_insert ''query'' (JString query) [];
          obj = (case variables of
                   None \<Rightarrow> Inr obj
                 | Some raw \<Rightarrow>
                     (case parse raw of
                        Inl e \<Rightarrow> Inl (''graphql_variables is not valid JSON: '' @ e)
                      | Inr parsed \<Rightarrow>
                          (if \<not> is_object parsed then Inl ''graphql_variables must be a JSON object''
                           else Inr (json_insert ''variables'' parsed obj))))
      in case obj of
           Inl e \<Rightarrow> Inl e
         | Inr obj \<Rightarrow>
             (let obj = (case operation_name of None \<Rightarrow> obj | Some name \<Rightarrow> json_insert ''operationName'' (JString name) obj)
              in case print (JObject obj) of
                   Inl e \<Rightarrow> Inl (''failed to serialize GraphQL payload: '' @ e)
                 | Inr b \<Rightarrow> Inr b))"

text \<open>Skip white space and comment lines; nothing is left after a comment without an end.\<close>

function skip_comments :: "string \<Rightarrow> string option" where
  "skip_comments query =
     (case str_trim_start query of
        [] \<Rightarrow> Some []
      | c # comment \<Rightarrow>
          (if c \<noteq> CHR ''#'' then Some (c # comment)
           else case split_once (CHR 0x0A) comment of
                  Some (_, rest) \<Rightarrow> skip_comments rest
                | None \<Rightarrow> None))"
  by pat_completeness auto
termination
proof (relation "measure length")
  fix query c comment p x rest
  assume a: "str_trim_start query = c # comment" "split_once (CHR 0x0A) comment = Some p" "(x, rest) = p"
  have "length rest < length comment" using a(2,3) split_once_shorter[of "CHR 0x0A" comment x rest] by simp
  moreover have "length (c # comment) \<le> length query" using str_trim_start_length[of query] a(1) by simp
  ultimately show "(rest, query) \<in> measure length" by simp
qed simp

declare skip_comments.simps [simp del]

definition operation_keyword :: "string \<Rightarrow> string" where
  "operation_keyword rest =
     (let token = takeWhile is_ascii_alphabetic rest
      in if token = ''mutation'' then ''mutation'' else if token = ''subscription'' then ''subscription'' else ''query'')"

definition parse_operation_type :: "string \<Rightarrow> string" where
  "parse_operation_type query =
     (case skip_comments query of None \<Rightarrow> ''query'' | Some rest \<Rightarrow> operation_keyword rest)"

definition count_graphql_errors :: "json_parse \<Rightarrow> bytes \<Rightarrow> u64 option" where
  "count_graphql_errors parse body =
     (case parse body of
        Inr (JObject obj) \<Rightarrow>
          (if map_of obj ''data'' = None \<and> map_of obj ''errors'' = None then None
           else case map_of obj ''errors'' of
                  None \<Rightarrow> Some 0
                | Some JNull \<Rightarrow> Some 0
                | Some (JArray errors) \<Rightarrow> Some (of_nat (length errors))
                | Some _ \<Rightarrow> Some 1)
      | _ \<Rightarrow> None)"

section \<open>The engine\<close>

definition max_parse_bytes :: usize where
  "max_parse_bytes = 4 * 1024 * 1024"

record graphql_engine =
  gqe_client :: http_client
  gqe_payload :: bytes
  gqe_chaos :: chaos_engine

definition graphql_engine_new :: "http_client \<Rightarrow> bytes \<Rightarrow> chaos_engine \<Rightarrow> graphql_engine" where
  "graphql_engine_new client payload chaos = \<lparr>gqe_client = client, gqe_payload = payload, gqe_chaos = chaos\<rparr>"

text \<open>Read the body to its end, counting its bytes and keeping the first \<open>max_parse_bytes\<close>.\<close>

fun drain_buffered :: "u64 \<Rightarrow> bytes \<Rightarrow> body_stream \<Rightarrow> u64 \<times> bytes option \<times> string option" where
  "drain_buffered total_bytes buffered [] = (total_bytes, Some buffered, None)"
| "drain_buffered total_bytes buffered (Inr chunk # stream) =
     drain_buffered (total_bytes + of_nat (length chunk))
       (if length buffered < max_parse_bytes
        then buffered @ take (min (length chunk) (max_parse_bytes - length buffered)) chunk else buffered) stream"
| "drain_buffered total_bytes buffered (Inl e # stream) = (total_bytes, None, Some e)"

definition post_request :: "string \<Rightarrow> bytes \<Rightarrow> string http_request" where
  "post_request target_url payload =
     \<lparr>hq_method = ''POST'', hq_url = target_url, hq_headers = [], hq_body = Some payload, hq_timeout = None\<rparr>"

definition graphql_execute_iteration ::
    "json_parse \<Rightarrow> string http_send \<Rightarrow> graphql_engine \<Rightarrow> u128 \<Rightarrow> chaos_fault option \<Rightarrow> string \<Rightarrow> request_metric" where
  "graphql_execute_iteration parse send e latency fault target_url =
     (case send (Some (gqe_client e)) (chaos_request http_corrupted_body fault (post_request target_url (gqe_payload e))) of
        Inr response \<Rightarrow>
          (case drain_buffered 0 [] (hr_body response) of
             (bytes_received, body, Some err) \<Rightarrow> with_bytes bytes_received (with_status 0 (rm_builder latency fault))
           | (bytes_received, body, None) \<Rightarrow>
               with_graphql (Option.bind body (count_graphql_errors parse))
                 (with_bytes bytes_received (with_status (hr_status response) (rm_builder latency fault))))
      | Inl err \<Rightarrow> rm_error latency fault)"

section \<open>Properties\<close>

lemma drain_buffered_all:
  assumes "length buffered \<le> max_parse_bytes"
  shows "drain_buffered n buffered (map Inr cs) =
     (n + of_nat (length (concat cs)), Some (take max_parse_bytes (buffered @ concat cs)), None)"
  using assms
proof (induction cs arbitrary: n buffered)
  case (Cons c cs)
  let ?b = "if length buffered < max_parse_bytes then buffered @ take (min (length c) (max_parse_bytes - length buffered)) c else buffered"
  have l: "length ?b \<le> max_parse_bytes" using Cons.prems by (auto simp: min_def)
  have t: "take max_parse_bytes (?b @ concat cs) = take max_parse_bytes (buffered @ c @ concat cs)"
    using Cons.prems by (cases "length c \<le> max_parse_bytes - length buffered") (auto simp: min_def)
  show ?case
    unfolding list.map drain_buffered.simps Cons.IH[OF l] t by (simp add: algebra_simps)
qed simp

lemma drain_buffered_failed:
  "drain_buffered n buffered (map Inr cs @ Inl e # r) = (n + of_nat (length (concat cs)), None, Some e)"
  by (induction cs arbitrary: n buffered) (simp_all add: algebra_simps)

end
