(* ===== verification/Soap_Engine.thy ===== *)
theory Soap_Engine
  imports Graphql_Engine Test_Config
begin

text \<open>
  The SOAP engine (\<open>protocols/soap.rs\<close>): the request headers, the fault scan of a response and one iteration.  The XML
  reader belongs to another crate: the events it will give for a body are an argument.
\<close>

section \<open>Headers and faults\<close>

record soap_request_headers =
  srh_content_type :: string
  srh_soap_action :: "string option"

definition soap_request_headers_of :: "soap_version \<Rightarrow> string option \<Rightarrow> soap_request_headers" where
  "soap_request_headers_of version action =
     (case version of
        Soap11 \<Rightarrow>
          \<lparr>srh_content_type = ''text/xml; charset=utf-8'',
           srh_soap_action = Some (case action of Some a \<Rightarrow> a | None \<Rightarrow> [])\<rparr>
      | Soap12 \<Rightarrow>
          \<lparr>srh_content_type =
             (case action of
                Some a \<Rightarrow>
                  (if a \<noteq> [] then ''application/soap+xml; charset=utf-8; action='' @ [CHR 0x22] @ a @ [CHR 0x22]
                   else ''application/soap+xml; charset=utf-8'')
              | None \<Rightarrow> ''application/soap+xml; charset=utf-8''),
           srh_soap_action = None\<rparr>)"

text \<open>The events of the reader, elements with their local names; after the last one it reports the end.\<close>

datatype xml_event = XStart string | XEmpty string | XOther | XEof | XError

type_synonym xml_reader = "bytes \<Rightarrow> xml_event list"

fun soap_scan :: "bool \<Rightarrow> xml_event list \<Rightarrow> u64 option" where
  "soap_scan saw_element [] = (if saw_element then Some 0 else None)"
| "soap_scan saw_element (XStart name # events) = (if name = ''Fault'' then Some 1 else soap_scan True events)"
| "soap_scan saw_element (XEmpty name # events) = (if name = ''Fault'' then Some 1 else soap_scan True events)"
| "soap_scan saw_element (XEof # events) = (if saw_element then Some 0 else None)"
| "soap_scan saw_element (XOther # events) = soap_scan saw_element events"
| "soap_scan saw_element (XError # events) = None"

definition count_soap_faults :: "xml_reader \<Rightarrow> bytes \<Rightarrow> u64 option" where
  "count_soap_faults read body = soap_scan False (read body)"

section \<open>The engine\<close>

definition soap_corrupted_body :: bytes where
  "soap_corrupted_body = ''<Envelope><Body><Corrupted/></Body></Envelope>''"

record soap_engine =
  spe_client :: http_client
  spe_payload :: bytes
  spe_chaos :: chaos_engine

definition soap_engine_new :: "http_client \<Rightarrow> bytes \<Rightarrow> chaos_engine \<Rightarrow> soap_engine" where
  "soap_engine_new client payload chaos = \<lparr>spe_client = client, spe_payload = payload, spe_chaos = chaos\<rparr>"

text \<open>Its \<open>drain_body\<close> is the one of the GraphQL engine.\<close>

definition soap_execute_iteration ::
    "xml_reader \<Rightarrow> string http_send \<Rightarrow> soap_engine \<Rightarrow> u128 \<Rightarrow> chaos_fault option \<Rightarrow> string \<Rightarrow> request_metric" where
  "soap_execute_iteration read send e latency fault target_url =
     (case send (Some (spe_client e)) (chaos_request soap_corrupted_body fault (post_request target_url (spe_payload e))) of
        Inr response \<Rightarrow>
          (case drain_buffered 0 [] (hr_body response) of
             (bytes_received, body, Some err) \<Rightarrow> with_bytes bytes_received (with_status 0 (rm_builder latency fault))
           | (bytes_received, body, None) \<Rightarrow>
               with_soap (Option.bind body (count_soap_faults read))
                 (with_bytes bytes_received (with_status (hr_status response) (rm_builder latency fault))))
      | Inl err \<Rightarrow> rm_error latency fault)"

section \<open>Properties\<close>

text \<open>The scan reports a fault exactly when the reader meets a fault element before an error and before the end.\<close>

definition fault_element :: "xml_event \<Rightarrow> bool" where
  "fault_element ev \<longleftrightarrow> ev = XStart ''Fault'' \<or> ev = XEmpty ''Fault''"

definition has_fault :: "xml_event list \<Rightarrow> bool" where
  "has_fault events = list_ex fault_element (takeWhile (\<lambda>ev. ev \<noteq> XEof \<and> ev \<noteq> XError) events)"

lemma soap_scan_fault: "opt0 (\<lambda>n. n) (soap_scan saw events) > 0 \<longleftrightarrow> has_fault events"
  by (induction saw events rule: soap_scan.induct) (auto simp: has_fault_def fault_element_def opt0_def)

text \<open>What the metric of a request says: how many bytes arrived, and whether the iteration counts as an error.\<close>

definition verdict :: "request_metric \<Rightarrow> u64 \<times> bool" where
  "verdict m = (rm_bytes_received m, rm_is_error m)"

text \<open>The metric of a GraphQL and of a SOAP iteration is exact.  It counts every byte of the body that arrived; when
  the body was cut off the iteration is an error; and when the body was complete the iteration is an error exactly if the
  HTTP status is, or the first four mebibytes are a GraphQL response with errors, or a SOAP response with a fault.\<close>

lemma payload_metrics_exact:
  assumes "send (Some (gqe_client g)) (chaos_request http_corrupted_body fault (post_request url (gqe_payload g))) = Inr r"
    and "send (Some (spe_client e)) (chaos_request soap_corrupted_body fault (post_request url (spe_payload e))) = Inr r"
    and "hr_body r = map Inr cs @ rest"
    and "rest = [] \<or> (\<exists>err rest'. rest = Inl err # rest')"
  shows "verdict (graphql_execute_iteration parse send g latency fault url) =
      (of_nat (length (concat cs)),
       rest \<noteq> [] \<or> hr_status r = 0 \<or> 400 \<le> hr_status r \<or>
       opt0 (\<lambda>n. n) (count_graphql_errors parse (take max_parse_bytes (concat cs))) > 0) \<and>
    verdict (soap_execute_iteration read send e latency fault url) =
      (of_nat (length (concat cs)),
       rest \<noteq> [] \<or> hr_status r = 0 \<or> 400 \<le> hr_status r \<or>
       has_fault (read (take max_parse_bytes (concat cs))))"
proof (cases "rest = []")
  case True
  have "drain_buffered 0 [] (hr_body r) = (of_nat (length (concat cs)), Some (take max_parse_bytes (concat cs)), None)"
    using drain_buffered_all[of "[]" 0 cs] assms(3) True by simp
  then show ?thesis
    using assms(1,2) True soap_scan_fault[of False "read (take max_parse_bytes (concat cs))"]
    by (auto simp: count_soap_faults_def graphql_execute_iteration_def soap_execute_iteration_def verdict_def rm_is_error_def with_graphql_def
        with_soap_def with_bytes_def with_status_def rm_builder_def opt0_def split: option.splits)
next
  case False
  then obtain err rest' where "rest = Inl err # rest'" using assms(4) by blast
  then have "drain_buffered 0 [] (hr_body r) = (of_nat (length (concat cs)), None, Some err)"
    using drain_buffered_failed[of 0 "[]" cs err rest'] assms(3) by simp
  then show ?thesis
    using assms(1,2) False
    by (simp add: graphql_execute_iteration_def soap_execute_iteration_def verdict_def rm_is_error_def
        with_bytes_def with_status_def rm_builder_def)
qed

end
