(* ===== verification/Db_Engine.thy ===== *)
theory Db_Engine
  imports Test_Config Metric_Aggregate
begin

text \<open>
  The SQL engine (\<open>protocols/db.rs\<close>): the drivers, the lazily created pool, the query with its row cap and one iteration.

  The database client belongs to another crate.  What it does in an iteration is a record of results: creating the pool,
  acquiring a connection, the rows the query streams (an error or one more row, a list that is used up is the end of the
  result) or the outcome of an execute, and the sizes the pool reports.
\<close>

section \<open>Drivers and run constants\<close>

definition default_max_rows :: u64 where
  "default_max_rows = 10000"

datatype db_driver = Postgres | MySql | Sqlite

definition db_driver_from_url :: "string \<Rightarrow> db_driver option" where
  "db_driver_from_url url =
     (if starts_with url ''postgres://'' \<or> starts_with url ''postgresql://'' then Some Postgres
      else if starts_with url ''mysql://'' \<or> starts_with url ''mariadb://'' then Some MySql
      else if starts_with url ''sqlite:'' then Some Sqlite
      else None)"

fun db_driver_as_str :: "db_driver \<Rightarrow> string" where
  "db_driver_as_str Postgres = ''postgres''"
| "db_driver_as_str MySql = ''mysql''"
| "db_driver_as_str Sqlite = ''sqlite''"

definition is_db_url :: "string \<Rightarrow> bool" where
  "is_db_url url \<longleftrightarrow> db_driver_from_url url \<noteq> None"

record db_run_info =
  dri_driver :: string
  dri_pool_max :: u64
  dri_fetch_mode :: string

definition db_run_info_of :: "string \<Rightarrow> usize \<Rightarrow> bool \<Rightarrow> db_run_info option" where
  "db_run_info_of url pool_max fetch =
     map_option (\<lambda>driver. \<lparr>dri_driver = db_driver_as_str driver, dri_pool_max = of_nat pool_max,
                            dri_fetch_mode = (if fetch then ''fetch'' else ''execute'')\<rparr>) (db_driver_from_url url)"

section \<open>The engine\<close>

text \<open>The last field is whether the pool cell is initialized.\<close>

record db_engine =
  dbe_url :: string
  dbe_driver :: db_driver
  dbe_query :: string
  dbe_params :: "string list"
  dbe_fetch :: bool
  dbe_max_rows :: u64
  dbe_pool_max :: usize
  dbe_timeout :: duration
  dbe_chaos :: chaos_engine
  dbe_pool :: bool

definition db_engine_new ::
    "string \<Rightarrow> string \<Rightarrow> string list \<Rightarrow> bool \<Rightarrow> u64 \<Rightarrow> usize \<Rightarrow> chaos_engine \<Rightarrow> u64 \<Rightarrow> string + db_engine" where
  "db_engine_new url query params fetch max_rows pool_max chaos timeout_secs =
     (case db_driver_from_url url of
        None \<Rightarrow> Inl (''unsupported database URL scheme: '' @ url)
      | Some driver \<Rightarrow>
          (if str_trim query = [] then Inl ''database URL requires a non-empty db_query''
           else Inr \<lparr>dbe_url = url, dbe_driver = driver, dbe_query = query, dbe_params = params, dbe_fetch = fetch,
                     dbe_max_rows = max_rows, dbe_pool_max = max pool_max 1,
                     dbe_timeout = from_secs (max (unat timeout_secs) 1), dbe_chaos = chaos, dbe_pool = False\<rparr>))"

definition effective_query :: "db_engine \<Rightarrow> chaos_fault option \<Rightarrow> string" where
  "effective_query e fault =
     (if fault = Some CorruptedPayload then dbe_query e @ '' __strobengine_chaos__'' else dbe_query e)"

definition effective_params :: "db_engine \<Rightarrow> chaos_fault option \<Rightarrow> string list" where
  "effective_params e fault =
     (if fault = Some MetadataCorruption then dbe_params e @ [''__strobengine_chaos__''] else dbe_params e)"

text \<open>The rows a query streams: \<open>Inl\<close> is an error.\<close>

type_synonym row_stream = "(string + unit) list"

record db_results =
  dbr_connect :: "string + unit"
  dbr_acquire :: "string + unit"
  dbr_rows :: "string \<Rightarrow> string list \<Rightarrow> row_stream"
  dbr_execute :: "string \<Rightarrow> string list \<Rightarrow> string + u64"
  dbr_pool_size :: u32
  dbr_pool_idle :: nat
  dbr_acquire_us :: nat
  dbr_query_us :: nat
  dbr_latency_us :: u128

text \<open>Creating the pool: a failure leaves the cell empty.\<close>

definition db_pool :: "db_results \<Rightarrow> db_engine \<Rightarrow> db_engine \<times> (string + unit)" where
  "db_pool net e =
     (if dbe_pool e then (e, Inr ())
      else case dbr_connect net of
             Inr _ \<Rightarrow> (e\<lparr>dbe_pool := True\<rparr>, Inr ())
           | Inl err \<Rightarrow> (e, Inl err))"

fun fetch_rows :: "u64 \<Rightarrow> u64 \<Rightarrow> row_stream \<Rightarrow> string + u64" where
  "fetch_rows max_rows rows [] = Inr rows"
| "fetch_rows max_rows rows (Inl e # stream) = Inl e"
| "fetch_rows max_rows rows (Inr _ # stream) =
     (let rows = rows + 1
      in if max_rows \<noteq> 0 \<and> max_rows \<le> rows then Inr rows else fetch_rows max_rows rows stream)"

definition run_query :: "db_results \<Rightarrow> db_engine \<Rightarrow> string \<Rightarrow> chaos_fault option \<Rightarrow> string + u64" where
  "run_query net e sql fault =
     (if dbe_fetch e then fetch_rows (dbe_max_rows e) 0 (dbr_rows net sql (effective_params e fault))
      else dbr_execute net sql (effective_params e fault))"

definition db_sample_default :: db_sample where
  "db_sample_default =
     \<lparr>dbs_rows = 0, dbs_errors = 0, dbs_acquire_us = None, dbs_query_us = None, dbs_pool_size = 0, dbs_pool_idle = 0\<rparr>"

text \<open>The sizes of the pool, when there is one.\<close>

definition pool_sample :: "db_results \<Rightarrow> bool \<Rightarrow> db_sample \<Rightarrow> db_sample" where
  "pool_sample net pool s =
     s\<lparr>dbs_pool_size := (if pool then ucast (dbr_pool_size net) else 0),
       dbs_pool_idle := (if pool then of_nat (dbr_pool_idle net) else 0)\<rparr>"

definition db_error_metric :: "db_results \<Rightarrow> chaos_fault option \<Rightarrow> u64 option \<Rightarrow> bool \<Rightarrow> request_metric" where
  "db_error_metric net fault acquire_us pool =
     with_db (Some (pool_sample net pool (db_sample_default\<lparr>dbs_errors := 1, dbs_acquire_us := acquire_us\<rparr>)))
       (with_status 0 (rm_builder (dbr_latency_us net) fault))"

definition db_execute_with_fault :: "db_results \<Rightarrow> chaos_fault option \<Rightarrow> db_engine \<Rightarrow> db_engine \<times> request_metric" where
  "db_execute_with_fault net fault e =
     (if fault = Some ConnectionDrop then (e, rm_error (dbr_latency_us net) fault)
      else let sql = effective_query e fault
           in case db_pool net e of
                (e, Inl err) \<Rightarrow> (e, db_error_metric net fault None False)
              | (e, Inr _) \<Rightarrow>
                  (case dbr_acquire net of
                     Inl err \<Rightarrow> (e, db_error_metric net fault None True)
                   | Inr _ \<Rightarrow>
                       (let sample = pool_sample net True (db_sample_default\<lparr>dbs_acquire_us := Some (of_nat (dbr_acquire_us net)),
                                       dbs_query_us := Some (of_nat (dbr_query_us net))\<rparr>)
                        in case run_query net e sql fault of
                             Inr rows \<Rightarrow>
                               (e, with_db (Some (sample\<lparr>dbs_rows := rows\<rparr>)) (with_status 200 (rm_builder (dbr_latency_us net) fault)))
                           | Inl err \<Rightarrow>
                               (e, with_db (Some (sample\<lparr>dbs_errors := 1\<rparr>)) (with_status 0 (rm_builder (dbr_latency_us net) fault))))))"

section \<open>Properties\<close>

lemma is_db_url_iff: "is_db_url url \<longleftrightarrow> is_database_url url"
  by (simp add: is_db_url_def db_driver_from_url_def is_database_url_def)

text \<open>The rows that arrive before the stream ends or fails.\<close>

lemma fetch_rows_spec:
  assumes "cap = 0 \<or> rows < cap" and "unat rows + n < 2 ^ 64" and "tail = [] \<or> (\<exists>e r. tail = Inl e # r)"
  shows "fetch_rows cap rows (replicate n (Inr ()) @ tail) =
     (if cap \<noteq> 0 \<and> unat cap \<le> unat rows + n then Inr cap
      else case tail of Inl e # _ \<Rightarrow> Inl e | _ \<Rightarrow> Inr (rows + of_nat n))"
  using assms(1,2)
proof (induction n arbitrary: rows)
  case 0
  then show ?case using assms(3) by (auto simp: word_less_nat_alt)
next
  case (Suc n)
  have u: "unat (rows + 1) = Suc (unat rows)" using Suc.prems(2) by (simp add: unat_word_ariths)
  show ?case
  proof (cases "cap \<noteq> 0 \<and> cap \<le> rows + 1")
    case True
    have "unat cap = unat (rows + 1)" using True Suc.prems(1) u by (simp add: word_le_nat_alt word_less_nat_alt)
    then have "cap = rows + 1" by (rule word_unat_eq_iff[THEN iffD2])
    then show ?thesis using True u by (simp add: Let_def)
  next
    case False
    have "cap = 0 \<or> rows + 1 < cap" using False by (simp add: not_le)
    moreover have "unat (rows + 1) + n < 2 ^ 64" using Suc.prems(2) u by simp
    ultimately have "fetch_rows cap (rows + 1) (replicate n (Inr ()) @ tail) =
        (if cap \<noteq> 0 \<and> unat cap \<le> unat (rows + 1) + n then Inr cap
         else case tail of Inl e # _ \<Rightarrow> Inl e | _ \<Rightarrow> Inr (rows + 1 + of_nat n))"
      by (rule Suc.IH)
    moreover have "fetch_rows cap rows (replicate (Suc n) (Inr ()) @ tail) = fetch_rows cap (rows + 1) (replicate n (Inr ()) @ tail)"
      using False by (auto simp: Let_def)
    moreover have "rows + of_nat (Suc n) = rows + 1 + of_nat n" by simp
    ultimately show ?thesis by (simp only: u add_Suc add_Suc_right)
  qed
qed

text \<open>A fetch query that got a connection reports exactly the rows that arrived, never more than its cap; when the
  result fails before the cap is reached the iteration is an error and reports no rows; and when the pool could not be
  created the iteration is an error and the pool cell stays empty, so that the next iteration tries again.\<close>

lemma db_fetch_exact:
  assumes "fault \<noteq> Some ConnectionDrop" and "dbe_fetch e" and "\<not> dbe_pool e"
    and "dbr_rows net (effective_query e fault) (effective_params e fault) = replicate n (Inr ()) @ tail"
    and "tail = [] \<or> (\<exists>err r. tail = Inl err # r)" and "n < 2 ^ 64" and "dbr_acquire net = Inr ()"
  shows "(isl (dbr_connect net) \<longrightarrow>
      fst (db_execute_with_fault net fault e) = e \<and> rm_is_error (snd (db_execute_with_fault net fault e))) \<and>
    (\<not> isl (dbr_connect net) \<longrightarrow>
      dbe_pool (fst (db_execute_with_fault net fault e)) \<and>
      (\<exists>sample. rm_db (snd (db_execute_with_fault net fault e)) = Some sample \<and>
        rm_is_error (snd (db_execute_with_fault net fault e)) =
          (tail \<noteq> [] \<and> (dbe_max_rows e = 0 \<or> n < unat (dbe_max_rows e))) \<and>
        unat (dbs_rows sample) =
          (if rm_is_error (snd (db_execute_with_fault net fault e)) then 0
           else if dbe_max_rows e = 0 then n else min n (unat (dbe_max_rows e)))))"
proof (cases "dbr_connect net")
  case (Inl err)
  then show ?thesis
    using assms(1,3) by (simp add: db_execute_with_fault_def Let_def db_pool_def db_error_metric_def rm_is_error_def with_db_def
        with_status_def rm_builder_def)
next
  case (Inr u)
  let ?q = "case tail of Inl e # _ \<Rightarrow> Inl e | _ \<Rightarrow> Inr (of_nat n :: u64)"
  have r: "fetch_rows (dbe_max_rows e) 0 (replicate n (Inr ()) @ tail) =
      (if dbe_max_rows e \<noteq> 0 \<and> unat (dbe_max_rows e) \<le> n then Inr (dbe_max_rows e) else ?q)"
    using fetch_rows_spec[of "dbe_max_rows e" 0 n tail] assms(5,6) by (auto simp: word_gt_0)
  have un: "unat (of_nat n :: u64) = n" using assms(6) by (simp add: unat_of_nat)
  note defs = db_execute_with_fault_def Let_def db_pool_def run_query_def rm_is_error_def with_db_def with_status_def
    rm_builder_def rm_db_def pool_sample_def db_sample_default_def
  have run: "run_query net (e\<lparr>dbe_pool := True\<rparr>) (effective_query e fault) fault =
      (if dbe_max_rows e \<noteq> 0 \<and> unat (dbe_max_rows e) \<le> n then Inr (dbe_max_rows e) else ?q)"
  proof -
    have "effective_params (e\<lparr>dbe_pool := True\<rparr>) fault = effective_params e fault" by (simp add: effective_params_def)
    then show ?thesis using r assms(2,4) by (simp add: run_query_def)
  qed
  show ?thesis
  proof (cases "dbe_max_rows e \<noteq> 0 \<and> unat (dbe_max_rows e) \<le> n")
    case True
    then show ?thesis using run assms(1,3,7) Inr by (auto simp: defs(1-3,5-))
  next
    case False
    then show ?thesis using run assms(1,3,5,7) Inr un by (auto simp: defs(1-3,5-) not_le)
  qed
qed

definition items_engine :: db_engine where
  "items_engine =
     \<lparr>dbe_url = ''sqlite:a'', dbe_driver = Sqlite, dbe_query = ''SELECT id FROM items'', dbe_params = [], dbe_fetch = True,
      dbe_max_rows = 2, dbe_pool_max = 1, dbe_timeout = from_secs 5, dbe_chaos = chaos_engine_new False (Fin 0), dbe_pool = False\<rparr>"

definition five_rows :: db_results where
  "five_rows =
     \<lparr>dbr_connect = Inr (), dbr_acquire = Inr (), dbr_rows = (\<lambda>_ _. replicate 5 (Inr ()) @ []), dbr_execute = (\<lambda>_ _. Inr 0),
      dbr_pool_size = 1, dbr_pool_idle = 0, dbr_acquire_us = 3, dbr_query_us = 4, dbr_latency_us = 9\<rparr>"

end
