(* ===== verification/Ws_Engine.thy ===== *)
theory Ws_Engine
  imports Rust_Text Test_Config Metric_Aggregate
begin

text \<open>
  The WebSocket engine (\<open>protocols/websocket.rs\<close>): the counting sink, the bounded read, the persistent, publisher and
  subscriber sessions and every iteration.

  The WebSocket client belongs to another crate.  A connection is the results its sends will give and the events its
  reads will give, with the messages sent so far; reads run under a timeout, so a list of events that is used up means
  that the next read times out, and the end of the stream is an event of its own.
\<close>

section \<open>Messages and the counting sink\<close>

datatype ws_message =
    WText string
  | WBinary bytes
  | WPing bytes
  | WPong bytes
  | WFrame bytes
  | WClose

fun message_payload_len :: "ws_message \<Rightarrow> u64" where
  "message_payload_len (WText t) = of_nat (length t)"
| "message_payload_len (WBinary b) = of_nat (length b)"
| "message_payload_len (WPing p) = of_nat (length p)"
| "message_payload_len (WPong p) = of_nat (length p)"
| "message_payload_len (WFrame f) = of_nat (length f)"
| "message_payload_len WClose = 0"

definition ws_sample_default :: ws_sample where
  "ws_sample_default =
     \<lparr>wss_pings_sent = 0, wss_pings_received = 0, wss_pongs_solicited = 0, wss_pongs_unsolicited = 0,
      wss_backpressure_max_bytes = 0, wss_backpressure_samples_sum = 0, wss_backpressure_sample_count = 0,
      wss_threshold_breaches = 0\<rparr>"

definition ws_sample_of :: "u64 \<Rightarrow> u64 \<Rightarrow> u64 \<Rightarrow> u64 \<Rightarrow> ws_sample option" where
  "ws_sample_of pings_sent pings_received pongs_solicited pongs_unsolicited =
     (let sample = ws_sample_default\<lparr>wss_pings_sent := pings_sent, wss_pings_received := pings_received,
                     wss_pongs_solicited := pongs_solicited, wss_pongs_unsolicited := pongs_unsolicited\<rparr>
      in if ws_is_significant sample then Some sample else None)"

record counting_sink =
  cs_written :: u64
  cs_flushed :: u64
  cs_max_in_flight :: u64
  cs_warn_bytes :: u64
  cs_over_threshold :: bool

definition counting_sink_new :: "u64 \<Rightarrow> counting_sink" where
  "counting_sink_new warn_bytes =
     \<lparr>cs_written = 0, cs_flushed = 0, cs_max_in_flight = 0, cs_warn_bytes = warn_bytes, cs_over_threshold = False\<rparr>"

definition u64_saturating_sub :: "u64 \<Rightarrow> u64 \<Rightarrow> u64" where
  "u64_saturating_sub a b = (if b \<le> a then a - b else 0)"

definition u64_saturating_add :: "u64 \<Rightarrow> u64 \<Rightarrow> u64" where
  "u64_saturating_add a b = (if unat a + unat b < 2 ^ 64 then a + b else - 1)"

definition in_flight :: "counting_sink \<Rightarrow> u64" where
  "in_flight s = u64_saturating_sub (cs_written s) (cs_flushed s)"

text \<open>The accounting of \<open>start_send\<close>; the warning it logs is the rising edge of \<open>cs_over_threshold\<close>.\<close>

definition start_send :: "ws_message \<Rightarrow> counting_sink \<Rightarrow> counting_sink" where
  "start_send item s =
     (let s = s\<lparr>cs_written := u64_saturating_add (cs_written s) (message_payload_len item)\<rparr>;
          depth = in_flight s;
          s = (if depth > cs_max_in_flight s then s\<lparr>cs_max_in_flight := depth\<rparr> else s)
      in if cs_warn_bytes s > 0
         then if depth \<ge> cs_warn_bytes s \<and> \<not> cs_over_threshold s then s\<lparr>cs_over_threshold := True\<rparr>
              else if depth < cs_warn_bytes s then s\<lparr>cs_over_threshold := False\<rparr> else s
         else s)"

definition poll_flush :: "bool \<Rightarrow> counting_sink \<Rightarrow> counting_sink" where
  "poll_flush ready s = (if ready then s\<lparr>cs_flushed := cs_written s\<rparr> else s)"

section \<open>Connections and the bounded read\<close>

datatype ws_event = WMsg ws_message | WErr | WEof

record ws_conn =
  wc_sends :: "(string + unit) list"
  wc_events :: "ws_event list"
  wc_sent :: "ws_message list"

text \<open>A send: its result, and what is left of the connection; a connection without a result left is broken.\<close>

definition ws_send :: "ws_message \<Rightarrow> ws_conn \<Rightarrow> ws_conn \<times> (string + unit)" where
  "ws_send m c =
     (case wc_sends c of
        [] \<Rightarrow> (c, Inl ''connection closed'')
      | r # rs \<Rightarrow> (c\<lparr>wc_sends := rs, wc_sent := wc_sent c @ [m]\<rparr>, r))"

datatype read_status = RData | RPong | RClose | REof | RError | RTimeout

record read_outcome =
  ro_status :: read_status
  ro_bytes :: u64
  ro_pings_received :: u64
  ro_pongs_received :: u64

text \<open>The loop of \<open>read_with_timeout\<close>; a timeout forgets what was counted.\<close>

fun read_frames :: "u64 \<Rightarrow> u64 \<Rightarrow> ws_event list \<Rightarrow> ws_event list \<times> read_outcome" where
  "read_frames bytes pings [] =
     ([], \<lparr>ro_status = RTimeout, ro_bytes = 0, ro_pings_received = 0, ro_pongs_received = 0\<rparr>)"
| "read_frames bytes pings (WMsg (WText t) # evs) =
     (evs, \<lparr>ro_status = RData, ro_bytes = bytes + of_nat (length t), ro_pings_received = pings, ro_pongs_received = 0\<rparr>)"
| "read_frames bytes pings (WMsg (WBinary b) # evs) =
     (evs, \<lparr>ro_status = RData, ro_bytes = bytes + of_nat (length b), ro_pings_received = pings, ro_pongs_received = 0\<rparr>)"
| "read_frames bytes pings (WMsg (WPing d) # evs) = read_frames (bytes + of_nat (length d)) (pings + 1) evs"
| "read_frames bytes pings (WMsg (WPong d) # evs) =
     (evs, \<lparr>ro_status = RPong, ro_bytes = bytes + of_nat (length d), ro_pings_received = pings, ro_pongs_received = 1\<rparr>)"
| "read_frames bytes pings (WMsg (WFrame f) # evs) = read_frames bytes pings evs"
| "read_frames bytes pings (WMsg WClose # evs) =
     (evs, \<lparr>ro_status = RClose, ro_bytes = bytes, ro_pings_received = pings, ro_pongs_received = 0\<rparr>)"
| "read_frames bytes pings (WErr # evs) =
     (evs, \<lparr>ro_status = RError, ro_bytes = bytes, ro_pings_received = pings, ro_pongs_received = 0\<rparr>)"
| "read_frames bytes pings (WEof # evs) =
     (evs, \<lparr>ro_status = REof, ro_bytes = bytes, ro_pings_received = pings, ro_pongs_received = 0\<rparr>)"

definition read_with_timeout :: "ws_conn \<Rightarrow> ws_conn \<times> read_outcome" where
  "read_with_timeout c = (case read_frames 0 0 (wc_events c) of (evs, out) \<Rightarrow> (c\<lparr>wc_events := evs\<rparr>, out))"

section \<open>The engine\<close>

record ws_engine =
  wse_headers :: "(string \<times> string) list"
  wse_mode :: ws_mode
  wse_payload :: "string option"
  wse_chaos :: chaos_engine
  wse_timeout_secs :: u64
  wse_persistent :: bool
  wse_keepalive_secs :: "u64 option"
  wse_max_messages :: "u64 option"
  wse_role :: "string option"
  wse_publish_interval_ms :: "u64 option"
  wse_max_buffer_bytes :: u64
  wse_backpressure_warn_ratio :: f32

definition ws_engine_new ::
    "(string \<times> string) list \<Rightarrow> ws_mode \<Rightarrow> string option \<Rightarrow> chaos_engine \<Rightarrow> u64 \<Rightarrow> bool \<Rightarrow> u64 option \<Rightarrow> u64 option \<Rightarrow> ws_engine" where
  "ws_engine_new headers mode payload chaos timeout_secs persistent keepalive_secs max_messages =
     \<lparr>wse_headers = headers, wse_mode = mode, wse_payload = payload, wse_chaos = chaos, wse_timeout_secs = timeout_secs,
      wse_persistent = persistent, wse_keepalive_secs = keepalive_secs, wse_max_messages = max_messages, wse_role = None,
      wse_publish_interval_ms = None, wse_max_buffer_bytes = 1048576, wse_backpressure_warn_ratio = round32 (8 / 10)\<rparr>"

definition with_role :: "string option \<Rightarrow> u64 option \<Rightarrow> ws_engine \<Rightarrow> ws_engine" where
  "with_role role publish_interval_ms e = e\<lparr>wse_role := role, wse_publish_interval_ms := publish_interval_ms\<rparr>"

definition with_backpressure :: "u64 \<Rightarrow> f32 \<Rightarrow> ws_engine \<Rightarrow> ws_engine" where
  "with_backpressure max_buffer_bytes warn_ratio e =
     e\<lparr>wse_max_buffer_bytes := max_buffer_bytes, wse_backpressure_warn_ratio := warn_ratio\<rparr>"

definition warn_bytes :: "ws_engine \<Rightarrow> u64" where
  "warn_bytes e =
     (if f_le (wse_backpressure_warn_ratio e) (Fin 0) then 0
      else of_nat (f_to_usize (f_max (f32_mul (f32_of_nat (unat (wse_max_buffer_bytes e))) (wse_backpressure_warn_ratio e)) (Fin 1))))"

definition is_publisher :: "ws_engine \<Rightarrow> bool" where
  "is_publisher e \<longleftrightarrow> wse_role e = Some ''publisher''"

definition is_subscriber :: "ws_engine \<Rightarrow> bool" where
  "is_subscriber e \<longleftrightarrow> wse_role e = Some ''subscriber''"

definition effective_timeout :: "ws_engine \<Rightarrow> duration" where
  "effective_timeout e = from_secs (if wse_timeout_secs e > 0 then unat (wse_timeout_secs e) else 5)"

definition corrupted_frame :: bytes where
  "corrupted_frame = [CHR 0xFF, CHR 0xFE, CHR 0xBD, CHR 0xEF]"

text \<open>One stateless iteration.  \<open>offer\<close> is what connecting gives, \<open>latency\<close> the time until the metric is built.\<close>

definition ws_exchange :: "ws_message \<Rightarrow> ws_conn \<Rightarrow> bool \<times> read_outcome" where
  "ws_exchange m c = (case ws_send m c of (c, r) \<Rightarrow> (\<not> isl r, snd (read_with_timeout c)))"

definition data_or_pong :: "read_outcome \<Rightarrow> ws_sample option \<Rightarrow> u16 \<times> u64 \<times> ws_sample option" where
  "data_or_pong out ws = (if ro_status out = RData \<or> ro_status out = RPong then (200, ro_bytes out, ws) else (0, 0, ws))"

definition ws_connected :: "ws_engine \<Rightarrow> chaos_fault option \<Rightarrow> ws_conn \<Rightarrow> u16 \<times> u64 \<times> ws_sample option" where
  "ws_connected e fault c =
     (if fault = Some CorruptedPayload
      then let out = snd (ws_exchange (WBinary corrupted_frame) c)
           in data_or_pong out (ws_sample_of 0 (ro_pings_received out) 0 (ro_pongs_received out))
      else case wse_mode e of
             Handshake \<Rightarrow> (200, 0, None)
           | PingPong \<Rightarrow>
               (case ws_exchange (WPing []) c of
                  (sent_ok, out) \<Rightarrow>
                    (let pings_sent = (if sent_ok then 1 else 0);
                         pongs_solicited = min (ro_pongs_received out) pings_sent;
                         pongs_unsolicited = u64_saturating_sub (ro_pongs_received out) pongs_solicited;
                         ws = ws_sample_of pings_sent (ro_pings_received out) pongs_solicited pongs_unsolicited
                     in if ro_status out = RPong then (200, ro_bytes out, ws) else (0, 0, ws)))
           | Stream \<Rightarrow>
               (let payload = (case wse_payload e of Some p \<Rightarrow> p | None \<Rightarrow> ''ping'');
                    out = snd (ws_exchange (WText payload) c)
                in data_or_pong out (ws_sample_of 0 (ro_pings_received out) 0 (ro_pongs_received out))))"

definition ws_execute_iteration :: "string + ws_conn \<Rightarrow> ws_engine \<Rightarrow> u128 \<Rightarrow> chaos_fault option \<Rightarrow> request_metric" where
  "ws_execute_iteration offer e latency fault =
     (if fault = Some ConnectionDrop then rm_error latency fault
      else case (case offer of Inr c \<Rightarrow> ws_connected e fault c | Inl err \<Rightarrow> (0, 0, None)) of
             (status, bytes, ws) \<Rightarrow> with_ws ws (with_bytes bytes (with_status status (rm_builder latency fault))))"

section \<open>Persistent sessions\<close>

record persistent_ws_session =
  pws_stream :: "ws_conn option"
  pws_messages_sent :: u64
  pws_max_messages :: "u64 option"
  pws_headers :: "(string \<times> string) list"
  pws_timeout_secs :: u64
  pws_last_pings_received :: u64
  pws_last_pongs_received :: u64

definition persistent_ws_session_new :: "(string \<times> string) list \<Rightarrow> u64 option \<Rightarrow> u64 \<Rightarrow> persistent_ws_session" where
  "persistent_ws_session_new headers max_messages timeout_secs =
     \<lparr>pws_stream = None, pws_messages_sent = 0, pws_max_messages = max_messages, pws_headers = headers,
      pws_timeout_secs = timeout_secs, pws_last_pings_received = 0, pws_last_pongs_received = 0\<rparr>"

definition ws_max_reached :: "persistent_ws_session \<Rightarrow> bool" where
  "ws_max_reached s = (case pws_max_messages s of Some m \<Rightarrow> m \<le> pws_messages_sent s | None \<Rightarrow> False)"

datatype engine_error = NotConnected | ConnectionFailed string | MaxMessagesReached

fun engine_error_text :: "engine_error \<Rightarrow> string" where
  "engine_error_text NotConnected = ''not connected''"
| "engine_error_text (ConnectionFailed msg) = ''connection failed: '' @ msg"
| "engine_error_text MaxMessagesReached = ''max messages reached''"

text \<open>\<open>offer\<close> is what connecting gives within the timeout, \<open>connect_us\<close> how long it took.\<close>

definition ws_ensure_connected ::
    "string + ws_conn \<Rightarrow> u128 \<Rightarrow> persistent_ws_session \<Rightarrow> persistent_ws_session \<times> (engine_error + u128)" where
  "ws_ensure_connected offer connect_us s =
     (if pws_stream s \<noteq> None \<and> \<not> ws_max_reached s then (s, Inr 0)
      else case offer of
             Inr c \<Rightarrow> (s\<lparr>pws_stream := Some c, pws_messages_sent := 0\<rparr>, Inr connect_us)
           | Inl e \<Rightarrow> (s, Inl (ConnectionFailed e)))"

text \<open>The read loop: the response, the control frames seen and how it ended; \<open>None\<close> is the timeout.\<close>

fun ws_receive :: "u64 \<Rightarrow> u64 \<Rightarrow> ws_event list \<Rightarrow> ws_event list \<times> (bytes \<times> u64 \<times> u64 \<times> read_status) option" where
  "ws_receive pings pongs [] = ([], None)"
| "ws_receive pings pongs (WMsg (WText t) # evs) = (evs, Some (t, pings, pongs, RData))"
| "ws_receive pings pongs (WMsg (WBinary b) # evs) = (evs, Some (b, pings, pongs, RData))"
| "ws_receive pings pongs (WMsg (WPing d) # evs) = ws_receive (pings + 1) pongs evs"
| "ws_receive pings pongs (WMsg (WPong d) # evs) = ws_receive pings (pongs + 1) evs"
| "ws_receive pings pongs (WMsg (WFrame f) # evs) = ws_receive pings pongs evs"
| "ws_receive pings pongs (WMsg WClose # evs) = (evs, Some ([], pings, pongs, RClose))"
| "ws_receive pings pongs (WErr # evs) = (evs, Some ([], pings, pongs, RError))"
| "ws_receive pings pongs (WEof # evs) = (evs, Some ([], pings, pongs, REof))"

fun read_status_debug :: "read_status \<Rightarrow> string" where
  "read_status_debug RData = ''Data''"
| "read_status_debug RPong = ''Pong''"
| "read_status_debug RClose = ''Close''"
| "read_status_debug REof = ''Eof''"
| "read_status_debug RError = ''Error''"
| "read_status_debug RTimeout = ''Timeout''"

definition send_and_receive :: "bytes \<Rightarrow> persistent_ws_session \<Rightarrow> persistent_ws_session \<times> (engine_error + bytes)" where
  "send_and_receive payload s =
     (case pws_stream s of
        None \<Rightarrow> (s, Inl NotConnected)
      | Some c \<Rightarrow>
          (case ws_send (WText (from_utf8_lossy payload)) c of
             (c, Inl e) \<Rightarrow> (s\<lparr>pws_stream := None\<rparr>, Inl (ConnectionFailed e))
           | (c, Inr _) \<Rightarrow>
               (let s = s\<lparr>pws_messages_sent := pws_messages_sent s + 1, pws_last_pings_received := 0, pws_last_pongs_received := 0\<rparr>
                in case ws_receive 0 0 (wc_events c) of
                     (evs, Some (response, pings, pongs, RData)) \<Rightarrow>
                       (s\<lparr>pws_stream := Some (c\<lparr>wc_events := evs\<rparr>), pws_last_pings_received := pings,
                          pws_last_pongs_received := pongs\<rparr>, Inr response)
                   | (evs, Some (response, pings, pongs, status)) \<Rightarrow>
                       (s\<lparr>pws_stream := None, pws_last_pings_received := pings, pws_last_pongs_received := pongs\<rparr>,
                        Inl (ConnectionFailed (''read terminated: '' @ read_status_debug status)))
                   | (evs, None) \<Rightarrow>
                       (s\<lparr>pws_stream := Some (c\<lparr>wc_events := evs\<rparr>)\<rparr>, Inl (ConnectionFailed ''read timed out'')))))"

definition ws_close :: "persistent_ws_session \<Rightarrow> persistent_ws_session" where
  "ws_close s = s\<lparr>pws_stream := None\<rparr>"

definition ws_execute_persistent ::
    "string + ws_conn \<Rightarrow> u128 \<Rightarrow> ws_engine \<Rightarrow> u128 \<Rightarrow> chaos_fault option \<Rightarrow> persistent_ws_session \<Rightarrow>
     persistent_ws_session \<times> request_metric" where
  "ws_execute_persistent offer connect_us e latency fault s =
     (if fault = Some ConnectionDrop then (s, rm_error latency fault)
      else case ws_ensure_connected offer connect_us s of
             (s, Inl err) \<Rightarrow> (s, rm_error 0 fault)
           | (s, Inr connection_latency_us) \<Rightarrow>
               (let payload = (if fault = Some CorruptedPayload then corrupted_frame
                               else case wse_payload e of Some p \<Rightarrow> p | None \<Rightarrow> ''ping'')
                in case send_and_receive payload s of
                     (s, r) \<Rightarrow>
                       (let base = (case r of
                                      Inr response \<Rightarrow> with_bytes (of_nat (length response)) (with_status 200 (rm_builder latency fault))
                                    | Inl err \<Rightarrow> rm_builder latency fault)
                        in (s, with_ws (ws_sample_of 0 (pws_last_pings_received s) 0 (pws_last_pongs_received s))
                                 (with_socket_reused (connection_latency_us = 0)
                                   (with_connection_latency_us (Some connection_latency_us)
                                     (with_reconnect (connection_latency_us > 0) base)))))))"

section \<open>Publishers and subscribers\<close>

text \<open>The sink of a publisher with the results its feeds and flushes will give.\<close>

record publisher_session =
  ps_write :: "(counting_sink \<times> ((string + unit) \<times> (string + unit)) list) option"
  ps_user_payload :: bytes
  ps_headers :: "(string \<times> string) list"
  ps_timeout :: duration

definition ws_execute_publisher ::
    "string + ((string + unit) \<times> (string + unit)) list \<Rightarrow> int \<Rightarrow> int \<Rightarrow> ws_engine \<Rightarrow> u128 \<Rightarrow> chaos_fault option \<Rightarrow> publisher_session \<Rightarrow>
     publisher_session \<times> request_metric" where
  "ws_execute_publisher offer clock sent_clock e latency drawn s =
     (case (case ps_write s of
              Some w \<Rightarrow> Inr s
            | None \<Rightarrow> (case offer of
                         Inr results \<Rightarrow> Inr (s\<lparr>ps_write := Some (counting_sink_new (warn_bytes e), results)\<rparr>)
                       | Inl err \<Rightarrow> Inl (rm_error latency None))) of
        Inl metric \<Rightarrow> (s, metric)
      | Inr s \<Rightarrow>
          (if drawn = Some ConnectionDrop then (s, rm_error latency drawn)
           else let payload = (if drawn = Some CorruptedPayload then corrupted_frame else create_pubsub_payload clock (ps_user_payload s))
                in case ps_write s of
                     None \<Rightarrow> (s, rm_error latency drawn)
                   | Some (sink, results) \<Rightarrow>
                       (case results of
                          [] \<Rightarrow> (s\<lparr>ps_write := None\<rparr>, rm_error latency drawn)
                        | (feed, flush) # results \<Rightarrow>
                            (let sink = (if isl feed then sink else start_send (WBinary payload) sink);
                                 depth = in_flight sink;
                                 sink = poll_flush True sink;
                                 depth_breach = (warn_bytes e > 0 \<and> warn_bytes e \<le> depth)
                             in if \<not> isl feed \<and> \<not> isl flush
                                then (s\<lparr>ps_write := Some (sink, results)\<rparr>,
                                      with_ws (Some (ws_sample_default\<lparr>wss_backpressure_max_bytes := depth,
                                                 wss_backpressure_samples_sum := depth, wss_backpressure_sample_count := 1,
                                                 wss_threshold_breaches := (if depth_breach then 1 else 0)\<rparr>))
                                        (with_socket_reused True
                                          (with_timestamp_sent_ns (Some (ns_since_epoch sent_clock))
                                            (with_bytes (of_nat (length payload)) (with_status 200 (rm_builder latency drawn))))))
                                else (s\<lparr>ps_write := None\<rparr>, rm_error latency drawn)))))"

record subscriber_session =
  sbs_read :: "ws_event list option"
  sbs_received_count :: u64
  sbs_headers :: "(string \<times> string) list"
  sbs_timeout :: duration

datatype subscriber_read = SubData bytes u64 u64 | SubEnded | SubTimeout

fun subscriber_receive :: "u64 \<Rightarrow> u64 \<Rightarrow> ws_event list \<Rightarrow> ws_event list \<times> subscriber_read" where
  "subscriber_receive pings pongs [] = ([], SubTimeout)"
| "subscriber_receive pings pongs (WMsg (WText t) # evs) = (evs, SubData t pings pongs)"
| "subscriber_receive pings pongs (WMsg (WBinary b) # evs) = (evs, SubData b pings pongs)"
| "subscriber_receive pings pongs (WMsg (WPing d) # evs) = subscriber_receive (pings + 1) pongs evs"
| "subscriber_receive pings pongs (WMsg (WPong d) # evs) = subscriber_receive pings (pongs + 1) evs"
| "subscriber_receive pings pongs (WMsg (WFrame f) # evs) = subscriber_receive pings pongs evs"
| "subscriber_receive pings pongs (WMsg WClose # evs) = (evs, SubEnded)"
| "subscriber_receive pings pongs (WErr # evs) = (evs, SubEnded)"
| "subscriber_receive pings pongs (WEof # evs) = (evs, SubEnded)"

definition u128_saturating_sub :: "u128 \<Rightarrow> u128 \<Rightarrow> u128" where
  "u128_saturating_sub a b = (if b \<le> a then a - b else 0)"

definition ws_execute_subscriber ::
    "string + ws_event list \<Rightarrow> int \<Rightarrow> ws_engine \<Rightarrow> u128 \<Rightarrow> chaos_fault option \<Rightarrow> subscriber_session \<Rightarrow> subscriber_session \<times> request_metric" where
  "ws_execute_subscriber offer clock e latency drawn s =
     (case (case sbs_read s of
              Some evs \<Rightarrow> Inr s
            | None \<Rightarrow> (case offer of Inr evs \<Rightarrow> Inr (s\<lparr>sbs_read := Some evs\<rparr>) | Inl err \<Rightarrow> Inl (rm_error latency None))) of
        Inl metric \<Rightarrow> (s, metric)
      | Inr s \<Rightarrow>
          (if drawn = Some ConnectionDrop then (s, rm_error latency drawn)
           else case sbs_read s of
                  None \<Rightarrow> (s, rm_error latency drawn)
                | Some evs \<Rightarrow>
                    (case subscriber_receive 0 0 evs of
                       (evs, SubData data pings pongs) \<Rightarrow>
                         (let s = s\<lparr>sbs_read := Some evs, sbs_received_count := sbs_received_count s + 1\<rparr>;
                              e2e = (case parse_pubsub_payload data of
                                       Some (sent_ns, rest) \<Rightarrow> Some (u128_saturating_sub (ns_since_epoch clock) sent_ns div 1000)
                                     | None \<Rightarrow> None);
                              ws = (if pings > 0 \<or> pongs > 0
                                    then Some (ws_sample_default\<lparr>wss_pings_received := pings, wss_pongs_unsolicited := pongs\<rparr>) else None)
                          in (s, with_ws ws (with_socket_reused True (with_e2e_latency_us e2e
                                   (with_bytes (of_nat (length data)) (with_status 200 (rm_builder latency drawn)))))))
                     | (evs, SubEnded) \<Rightarrow> (s\<lparr>sbs_read := None\<rparr>, rm_error latency drawn)
                     | (evs, SubTimeout) \<Rightarrow> (s\<lparr>sbs_read := Some evs\<rparr>, rm_error latency drawn))))"

datatype ws_context =
    WsPublisher publisher_session
  | WsSubscriber subscriber_session
  | WsPersistent persistent_ws_session

definition ws_create_worker_context :: "ws_engine \<Rightarrow> ws_context option" where
  "ws_create_worker_context e =
     (if is_publisher e
      then Some (WsPublisher \<lparr>ps_write = None, ps_user_payload = (case wse_payload e of Some p \<Rightarrow> p | None \<Rightarrow> []),
                              ps_headers = wse_headers e, ps_timeout = effective_timeout e\<rparr>)
      else if is_subscriber e
      then Some (WsSubscriber \<lparr>sbs_read = None, sbs_received_count = 0, sbs_headers = wse_headers e, sbs_timeout = effective_timeout e\<rparr>)
      else if wse_persistent e
      then Some (WsPersistent (persistent_ws_session_new (wse_headers e) (wse_max_messages e) (wse_timeout_secs e)))
      else None)"

section \<open>The sink measures the bytes waiting for a flush\<close>

datatype sink_op = SinkSend ws_message | SinkFlush bool

definition sink_step :: "counting_sink \<Rightarrow> sink_op \<Rightarrow> counting_sink" where
  "sink_step s op = (case op of SinkSend m \<Rightarrow> start_send m s | SinkFlush ready \<Rightarrow> poll_flush ready s)"

text \<open>The specification: bytes sent since the last completed flush, and the most there ever were.\<close>

fun depth_step :: "nat \<times> nat \<Rightarrow> sink_op \<Rightarrow> nat \<times> nat" where
  "depth_step (d, peak) (SinkSend m) = (d + unat (message_payload_len m), max peak (d + unat (message_payload_len m)))"
| "depth_step (d, peak) (SinkFlush ready) = (if ready then 0 else d, peak)"

fun op_bytes :: "sink_op \<Rightarrow> nat" where
  "op_bytes (SinkSend m) = unat (message_payload_len m)"
| "op_bytes (SinkFlush ready) = 0"

text \<open>The sink \<open>s\<close>, after \<open>n\<close> bytes in all, stands for the depths \<open>d\<close>.\<close>

definition sink_rel :: "nat \<Rightarrow> nat \<times> nat \<Rightarrow> counting_sink \<Rightarrow> bool" where
  "sink_rel n d s \<longleftrightarrow> unat (cs_written s) = n \<and> unat (cs_flushed s) + fst d = n \<and> unat (cs_max_in_flight s) = snd d"

lemma sink_rel_in_flight: "sink_rel n d s \<Longrightarrow> unat (in_flight s) = fst d"
  by (auto simp: sink_rel_def in_flight_def u64_saturating_sub_def word_le_nat_alt unat_sub)

lemma start_send_fields:
  "cs_written (start_send m s) = u64_saturating_add (cs_written s) (message_payload_len m)"
  "cs_flushed (start_send m s) = cs_flushed s"
  "cs_max_in_flight (start_send m s) = max (cs_max_in_flight s) (in_flight (start_send m s))"
  by (auto simp: start_send_def Let_def in_flight_def)

lemma sink_rel_step:
  assumes "sink_rel n d s" and "n + op_bytes op < 2 ^ 64"
  shows "sink_rel (n + op_bytes op) (depth_step d op) (sink_step s op)"
proof (cases op)
  case (SinkSend m)
  obtain k peak where d: "d = (k, peak)" by (cases d)
  have w: "unat (cs_written (start_send m s)) = n + unat (message_payload_len m)"
    using assms by (simp add: start_send_fields SinkSend sink_rel_def u64_saturating_add_def unat_word_ariths)
  have f: "unat (cs_flushed (start_send m s)) + k = n" using assms(1) by (simp add: start_send_fields sink_rel_def d)
  have i: "unat (in_flight (start_send m s)) = k + unat (message_payload_len m)"
    using w f by (simp add: in_flight_def u64_saturating_sub_def word_le_nat_alt unat_sub)
  have "unat (cs_max_in_flight (start_send m s)) = max peak (k + unat (message_payload_len m))"
    using assms(1) i by (auto simp: start_send_fields(3) sink_rel_def d max_def word_le_nat_alt)
  then show ?thesis using w f by (simp add: SinkSend d sink_rel_def sink_step_def)
next
  case (SinkFlush ready)
  then show ?thesis using assms(1) by (cases d) (auto simp: sink_rel_def sink_step_def poll_flush_def)
qed

lemma sink_rel_run:
  assumes "sink_rel n d s" and "n + sum_list (map op_bytes ops) < 2 ^ 64"
  shows "sink_rel (n + sum_list (map op_bytes ops)) (foldl depth_step d ops) (foldl sink_step s ops)"
  using assms
proof (induction ops arbitrary: n d s)
  case (Cons op ops)
  have "sink_rel (n + op_bytes op) (depth_step d op) (sink_step s op)"
    using Cons.prems by (intro sink_rel_step) simp_all
  from Cons.IH[OF this] show ?case using Cons.prems(2) by (simp add: add.assoc)
qed simp

text \<open>C34: the counting sink refines its specification: as long as a publisher sends fewer than \<open>2 ^ 64\<close> bytes in all, the
  depth the sink reports is the number of bytes sent since the last completed flush, and its high-water mark is the
  largest such depth since the sink was opened, for every interleaving of sends and complete or pending flushes.\<close>

theorem sink_refines_depth:
  assumes "sum_list (map op_bytes ops) < 2 ^ 64"
  shows "(unat (in_flight (foldl sink_step (counting_sink_new w) ops)),
          unat (cs_max_in_flight (foldl sink_step (counting_sink_new w) ops))) = foldl depth_step (0, 0) ops"
proof -
  have "sink_rel 0 (0, 0) (counting_sink_new w)" by (simp add: sink_rel_def counting_sink_new_def)
  from sink_rel_run[OF this, of ops] assms
  have "sink_rel (sum_list (map op_bytes ops)) (foldl depth_step (0, 0) ops) (foldl sink_step (counting_sink_new w) ops)" by simp
  from sink_rel_in_flight[OF this] this show ?thesis by (simp add: sink_rel_def)
qed

theorem sink_refines_depth_witness:
  "(unat (in_flight (foldl sink_step (counting_sink_new 4) [SinkSend (WText ''abc''), SinkFlush True, SinkSend (WPing ''de'')])),
    unat (cs_max_in_flight (foldl sink_step (counting_sink_new 4) [SinkSend (WText ''abc''), SinkFlush True, SinkSend (WPing ''de'')]))) = (2, 3)"
  using sink_refines_depth[of "[SinkSend (WText ''abc''), SinkFlush True, SinkSend (WPing ''de'')]" 4] by simp

end
