(* ===== verification/Graphql_Ws_Engine.thy ===== *)
theory Graphql_Ws_Engine
  imports Graphql_Engine Ws_Engine
begin

text \<open>
  GraphQL subscriptions over WebSocket (\<open>protocols/graphql_ws.rs\<close>): the frames of the \<open>graphql-transport-ws\<close>
  subprotocol, the session state machine and one iteration.  Connections are those of the WebSocket engine, JSON values
  those of the GraphQL engine; an exhausted list of events is the deadline of a read.
\<close>

section \<open>Frames\<close>

definition subprotocol :: string where
  "subprotocol = ''graphql-transport-ws''"

definition subscription_id :: string where
  "subscription_id = ''1''"

record subscription_payload =
  sp_query :: string
  sp_variables :: "string option"
  sp_operation_name :: "string option"

definition gws_subscribe_frame :: "json_parse \<Rightarrow> json_print \<Rightarrow> subscription_payload \<Rightarrow> string + string" where
  "gws_subscribe_frame parse print p =
     (let payload = json_insert ''query'' (JString (sp_query p)) [];
          payload = (case sp_variables p of
                       None \<Rightarrow> Inr payload
                     | Some raw \<Rightarrow>
                         (case parse raw of
                            Inl e \<Rightarrow> Inl (''graphql_variables is not valid JSON: '' @ e)
                          | Inr parsed \<Rightarrow> Inr (json_insert ''variables'' parsed payload)))
      in case payload of
           Inl e \<Rightarrow> Inl e
         | Inr payload \<Rightarrow>
             (let payload = (case sp_operation_name p of
                               None \<Rightarrow> payload
                             | Some name \<Rightarrow> json_insert ''operationName'' (JString name) payload);
                  msg = json_insert ''payload'' (JObject payload)
                          (json_insert ''type'' (JString ''subscribe'')
                            (json_insert ''id'' (JString subscription_id) []))
              in case print (JObject msg) of
                   Inl e \<Rightarrow> Inl (''failed to serialize subscribe frame: '' @ e)
                 | Inr b \<Rightarrow> Inr b))"

datatype server_frame = FNext | FError u64 | FComplete | FPing | FPong | FAck | FConnectionError | FOther

definition json_get :: "string \<Rightarrow> json \<Rightarrow> json option" where
  "json_get k v = (case v of JObject m \<Rightarrow> map_of m k | _ \<Rightarrow> None)"

definition frame_type :: "json \<Rightarrow> string option" where
  "frame_type v = (case json_get ''type'' v of Some (JString s) \<Rightarrow> Some s | _ \<Rightarrow> None)"

definition decode_frame :: "json_parse \<Rightarrow> string \<Rightarrow> server_frame" where
  "decode_frame parse text =
     (case parse text of
        Inl e \<Rightarrow> FOther
      | Inr v \<Rightarrow>
          (case frame_type v of
             None \<Rightarrow> FOther
           | Some ty \<Rightarrow>
               (if ty = ''next'' then FNext
                else if ty = ''error''
                then FError (case json_get ''payload'' v of Some (JArray es) \<Rightarrow> of_nat (length es) | _ \<Rightarrow> 1)
                else if ty = ''complete'' then FComplete
                else if ty = ''ping'' then FPing
                else if ty = ''pong'' then FPong
                else if ty = ''connection_ack'' then FAck
                else if ty = ''connection_error'' then FConnectionError
                else FOther)))"

datatype read_event = EvNext u64 | EvError u64 u64 | EvComplete | EvAck | EvConnectionError | EvTimeout | EvClosed

section \<open>Sessions\<close>

record graphql_ws_session =
  gss_stream :: "ws_conn option"
  gss_headers :: "(string \<times> string) list"
  gss_timeout :: duration
  gss_initialized :: bool
  gss_subscribed :: bool
  gss_subscribe_sent_at :: "instant option"
  gss_last_message_at :: "instant option"
  gss_ttfm_recorded :: bool

definition graphql_ws_session_new :: "(string \<times> string) list \<Rightarrow> u64 \<Rightarrow> graphql_ws_session" where
  "graphql_ws_session_new headers timeout_secs =
     \<lparr>gss_stream = None, gss_headers = headers, gss_timeout = from_secs (if timeout_secs > 0 then unat timeout_secs else 5),
      gss_initialized = False, gss_subscribed = False, gss_subscribe_sent_at = None, gss_last_message_at = None,
      gss_ttfm_recorded = False\<rparr>"

definition gws_reset :: "graphql_ws_session \<Rightarrow> graphql_ws_session" where
  "gws_reset s =
     s\<lparr>gss_stream := None, gss_initialized := False, gss_subscribed := False, gss_subscribe_sent_at := None,
       gss_last_message_at := None, gss_ttfm_recorded := False\<rparr>"

text \<open>What connecting gives: an error, or a connection with the subprotocol the server chose.\<close>

type_synonym gws_offer = "string + (ws_conn \<times> string option)"

text \<open>The caller only asks whether connecting failed; the text of the error leaves out what the server chose.\<close>

definition gws_connect :: "gws_offer \<Rightarrow> graphql_ws_session \<Rightarrow> graphql_ws_session \<times> (string + unit)" where
  "gws_connect offer s =
     (case offer of
        Inl e \<Rightarrow> (s, Inl e)
      | Inr (c, negotiated) \<Rightarrow>
          (if negotiated \<noteq> Some subprotocol then (s, Inl ''server did not negotiate graphql-transport-ws'')
           else (s\<lparr>gss_stream := Some c\<rparr>, Inr ())))"

definition gws_send :: "ws_message \<Rightarrow> graphql_ws_session \<Rightarrow> graphql_ws_session \<times> (string + unit)" where
  "gws_send m s =
     (case gss_stream s of
        None \<Rightarrow> (s, Inl ''not connected'')
      | Some c \<Rightarrow> (case ws_send m c of (c, r) \<Rightarrow> (s\<lparr>gss_stream := Some c\<rparr>, r)))"

definition pong_frame :: string where
  "pong_frame = [CHR 0x7B, CHR 0x22] @ ''type'' @ [CHR 0x22, CHR '':'', CHR 0x22] @ ''pong'' @ [CHR 0x22, CHR 0x7D]"

definition init_frame :: string where
  "init_frame = [CHR 0x7B, CHR 0x22] @ ''type'' @ [CHR 0x22, CHR '':'', CHR 0x22] @ ''connection_init'' @ [CHR 0x22, CHR 0x7D]"

text \<open>The loop of \<open>next_frame\<close>, over the events of the connection.\<close>

fun gws_read :: "json_parse \<Rightarrow> ws_conn \<Rightarrow> ws_event list \<Rightarrow> ws_conn \<times> read_event" where
  "gws_read parse c [] = (c\<lparr>wc_events := []\<rparr>, EvTimeout)"
| "gws_read parse c (WEof # evs) = (c\<lparr>wc_events := evs\<rparr>, EvClosed)"
| "gws_read parse c (WErr # evs) = (c\<lparr>wc_events := evs\<rparr>, EvClosed)"
| "gws_read parse c (WMsg (WText text) # evs) =
     (let bytes = of_nat (length text)
      in case decode_frame parse text of
           FNext \<Rightarrow> (c\<lparr>wc_events := evs\<rparr>, EvNext bytes)
         | FError errors \<Rightarrow> (c\<lparr>wc_events := evs\<rparr>, EvError errors bytes)
         | FComplete \<Rightarrow> (c\<lparr>wc_events := evs\<rparr>, EvComplete)
         | FAck \<Rightarrow> (c\<lparr>wc_events := evs\<rparr>, EvAck)
         | FConnectionError \<Rightarrow> (c\<lparr>wc_events := evs\<rparr>, EvConnectionError)
         | FPing \<Rightarrow> gws_read parse (fst (ws_send (WText pong_frame) c)) evs
         | FPong \<Rightarrow> gws_read parse c evs
         | FOther \<Rightarrow> gws_read parse c evs)"
| "gws_read parse c (WMsg (WBinary bin) # evs) = (c\<lparr>wc_events := evs\<rparr>, EvNext (of_nat (length bin)))"
| "gws_read parse c (WMsg (WPing d) # evs) = gws_read parse c evs"
| "gws_read parse c (WMsg WClose # evs) = (c\<lparr>wc_events := evs\<rparr>, EvClosed)"
| "gws_read parse c (WMsg (WPong d) # evs) = gws_read parse c evs"
| "gws_read parse c (WMsg (WFrame f) # evs) = gws_read parse c evs"

definition gws_next_frame :: "json_parse \<Rightarrow> graphql_ws_session \<Rightarrow> graphql_ws_session \<times> read_event" where
  "gws_next_frame parse s =
     (case gss_stream s of
        None \<Rightarrow> (s, EvClosed)
      | Some c \<Rightarrow> (case gws_read parse c (wc_events c) of (c, ev) \<Rightarrow> (s\<lparr>gss_stream := Some c\<rparr>, ev)))"

lemma gws_read_events: "gws_read parse c evs = (c', ev) \<Longrightarrow> ev \<noteq> EvTimeout \<Longrightarrow> length (wc_events c') < length evs"
  by (induction parse c evs rule: gws_read.induct) (auto simp: Let_def less_Suc_eq split: server_frame.splits)

text \<open>The loop of \<open>initialize\<close>: frames before the acknowledgement are ignored.\<close>

function gws_await_ack :: "json_parse \<Rightarrow> graphql_ws_session \<Rightarrow> graphql_ws_session \<times> (string + unit)" where
  "gws_await_ack parse s =
     (case gws_next_frame parse s of
        (s, EvAck) \<Rightarrow> (s, Inr ())
      | (s, EvNext b) \<Rightarrow> gws_await_ack parse s
      | (s, EvError n b) \<Rightarrow> gws_await_ack parse s
      | (s, EvComplete) \<Rightarrow> gws_await_ack parse s
      | (s, EvConnectionError) \<Rightarrow> (s, Inl ''connection init not acknowledged'')
      | (s, EvTimeout) \<Rightarrow> (s, Inl ''connection init not acknowledged'')
      | (s, EvClosed) \<Rightarrow> (s, Inl ''connection init not acknowledged''))"
  by pat_completeness auto
termination
proof (relation "measure (\<lambda>(parse, s). case gss_stream s of None \<Rightarrow> 0 | Some c \<Rightarrow> length (wc_events c))")
qed (auto simp: gws_next_frame_def split: option.splits prod.splits dest: gws_read_events)

declare gws_await_ack.simps [simp del]

definition gws_initialize :: "json_parse \<Rightarrow> graphql_ws_session \<Rightarrow> graphql_ws_session \<times> (string + unit)" where
  "gws_initialize parse s =
     (case gws_send (WText init_frame) s of
        (s, Inl e) \<Rightarrow> (s, Inl e)
      | (s, Inr _) \<Rightarrow> gws_await_ack parse s)"

section \<open>The engine\<close>

record graphql_ws_engine =
  gwe_payload :: subscription_payload
  gwe_headers :: "(string \<times> string) list"
  gwe_chaos :: chaos_engine
  gwe_timeout_secs :: u64

definition graphql_ws_engine_new ::
    "subscription_payload \<Rightarrow> (string \<times> string) list \<Rightarrow> chaos_engine \<Rightarrow> u64 \<Rightarrow> graphql_ws_engine" where
  "graphql_ws_engine_new payload headers chaos timeout_secs =
     \<lparr>gwe_payload = payload, gwe_headers = headers, gwe_chaos = chaos, gwe_timeout_secs = timeout_secs\<rparr>"

text \<open>The instants of an iteration: when the subscription was sent and when the message came.\<close>

record gws_clock =
  gc_sent :: instant
  gc_now :: instant
  gc_latency :: u128

definition gws_micros :: "instant \<Rightarrow> instant \<Rightarrow> u64" where
  "gws_micros t t\<^sub>0 = of_nat (elapsed t t\<^sub>0 div 1000)"

text \<open>Connection and initialization, with the resets of their failures.\<close>

definition gws_ready :: "json_parse \<Rightarrow> gws_offer \<Rightarrow> graphql_ws_session \<Rightarrow> graphql_ws_session \<times> bool" where
  "gws_ready parse offer s =
     (let (s, connected) = (if gss_stream s = None
                            then (case gws_connect offer s of (s, r) \<Rightarrow> (s, \<not> isl r)) else (s, True))
      in if \<not> connected then (gws_reset s, False)
         else if gss_initialized s then (s, True)
         else case gws_initialize parse s of
                (s, Inl e) \<Rightarrow> (gws_reset s, False)
              | (s, Inr _) \<Rightarrow> (s\<lparr>gss_initialized := True\<rparr>, True))"

text \<open>The metric of the event that ended the read.\<close>

definition gws_event_metric ::
    "gws_clock \<Rightarrow> chaos_fault option \<Rightarrow> u64 option \<Rightarrow> read_event \<Rightarrow> graphql_ws_session \<Rightarrow> graphql_ws_session \<times> request_metric" where
  "gws_event_metric t fault ops event s =
     (case event of
        EvNext bytes \<Rightarrow>
          (let ttfm_us = (if gss_ttfm_recorded s then None else map_option (gws_micros (gc_now t)) (gss_subscribe_sent_at s));
               interval_us = map_option (gws_micros (gc_now t)) (gss_last_message_at s)
           in (s\<lparr>gss_ttfm_recorded := True, gss_last_message_at := Some (gc_now t)\<rparr>,
               with_graphql_ws ops ttfm_us interval_us None (with_bytes bytes (with_status 200 (rm_builder (gc_latency t) fault)))))
      | EvError errors bytes \<Rightarrow>
          (s\<lparr>gss_subscribed := False\<rparr>,
           with_graphql_ws ops None None (Some errors) (with_bytes bytes (with_status 200 (rm_builder (gc_latency t) fault))))
      | EvComplete \<Rightarrow>
          (s\<lparr>gss_subscribed := False\<rparr>, with_graphql_ws ops None None None (with_status 200 (rm_builder (gc_latency t) fault)))
      | EvAck \<Rightarrow> (s, with_graphql_ws ops None None None (with_status 200 (rm_builder (gc_latency t) fault)))
      | EvConnectionError \<Rightarrow> (gws_reset s, rm_error (gc_latency t) fault)
      | EvTimeout \<Rightarrow> (s, rm_error (gc_latency t) fault)
      | EvClosed \<Rightarrow> (gws_reset s, rm_error (gc_latency t) fault))"

definition gws_corrupted :: "json_parse \<Rightarrow> gws_clock \<Rightarrow> chaos_fault option \<Rightarrow> graphql_ws_session \<Rightarrow> graphql_ws_session \<times> request_metric" where
  "gws_corrupted parse t fault s =
     (case gws_send (WBinary corrupted_frame) s of
        (s, Inl e) \<Rightarrow> (gws_reset s, rm_error (gc_latency t) fault)
      | (s, Inr _) \<Rightarrow>
          (case gws_next_frame parse s of
             (s, EvNext bytes) \<Rightarrow> (s, with_bytes bytes (with_status 200 (rm_builder (gc_latency t) fault)))
           | (s, _) \<Rightarrow> (s, rm_error (gc_latency t) fault)))"

text \<open>Subscribe when no subscription is active: the operations of the sample, or the metric of a failure.\<close>

definition gws_subscribe ::
    "json_parse \<Rightarrow> json_print \<Rightarrow> graphql_ws_engine \<Rightarrow> gws_clock \<Rightarrow> chaos_fault option \<Rightarrow> graphql_ws_session \<Rightarrow>
     graphql_ws_session \<times> (request_metric + u64 option)" where
  "gws_subscribe parse print e t fault s =
     (if gss_subscribed s then (s, Inr None)
      else case gws_subscribe_frame parse print (gwe_payload e) of
             Inl err \<Rightarrow> (s, Inl (rm_error (gc_latency t) fault))
           | Inr frame \<Rightarrow>
               (case gws_send (WText frame) s of
                  (s, Inl err) \<Rightarrow> (gws_reset s, Inl (rm_error (gc_latency t) fault))
                | (s, Inr _) \<Rightarrow>
                    (s\<lparr>gss_subscribed := True, gss_subscribe_sent_at := Some (gc_sent t), gss_last_message_at := None,
                       gss_ttfm_recorded := False\<rparr>, Inr (Some 1))))"

definition gws_run_iteration ::
    "json_parse \<Rightarrow> json_print \<Rightarrow> graphql_ws_engine \<Rightarrow> gws_offer \<Rightarrow> gws_clock \<Rightarrow> chaos_fault option \<Rightarrow> graphql_ws_session \<Rightarrow>
     graphql_ws_session \<times> request_metric" where
  "gws_run_iteration parse print e offer t fault s =
     (if fault = Some ConnectionDrop then (s, rm_error (gc_latency t) fault)
      else case gws_ready parse offer s of
             (s, False) \<Rightarrow> (s, rm_error (gc_latency t) fault)
           | (s, True) \<Rightarrow>
               (if fault = Some CorruptedPayload then gws_corrupted parse t fault s
                else case gws_subscribe parse print e t fault s of
                       (s, Inl metric) \<Rightarrow> (s, metric)
                     | (s, Inr ops) \<Rightarrow> (case gws_next_frame parse s of (s, event) \<Rightarrow> gws_event_metric t fault ops event s)))"

section \<open>The session follows the subprotocol\<close>

text \<open>A connection on which the first message was \<open>connection_init\<close>.\<close>

definition opened :: "ws_conn \<Rightarrow> bool" where
  "opened c \<longleftrightarrow> (\<exists>rest. wc_sent c = WText init_frame # rest)"

definition gws_inv :: "graphql_ws_session \<Rightarrow> bool" where
  "gws_inv s \<longleftrightarrow>
     (case gss_stream s of
        None \<Rightarrow> \<not> gss_initialized s \<and> \<not> gss_subscribed s \<and> gss_subscribe_sent_at s = None \<and> gss_last_message_at s = None \<and>
                \<not> gss_ttfm_recorded s
      | Some c \<Rightarrow> gss_initialized s \<and> opened c \<and> (gss_subscribed s \<longrightarrow> gss_subscribe_sent_at s \<noteq> None))"

lemma gws_inv_reset [simp]: "gws_inv (gws_reset s)"
  by (simp add: gws_inv_def gws_reset_def)

lemma opened_send: "opened c \<Longrightarrow> opened (fst (ws_send m c))"
  by (auto simp: opened_def ws_send_def split: list.split)

lemma opened_events [simp]: "opened (c\<lparr>wc_events := evs\<rparr>) \<longleftrightarrow> opened c"
  by (simp add: opened_def)

lemma opened_read: "opened c \<Longrightarrow> opened (fst (gws_read parse c evs))"
  by (induction parse c evs rule: gws_read.induct) (auto simp: Let_def opened_send split: server_frame.split)

text \<open>Sending and reading change only the connection of a session.\<close>

definition same_state :: "graphql_ws_session \<Rightarrow> graphql_ws_session \<Rightarrow> bool" where
  "same_state s s' \<longleftrightarrow>
     (\<exists>c'. s' = s\<lparr>gss_stream := c'\<rparr>) \<and> (gss_stream s = None \<longleftrightarrow> gss_stream s' = None) \<and>
     (\<forall>c c'. gss_stream s = Some c \<longrightarrow> gss_stream s' = Some c' \<longrightarrow> opened c \<longrightarrow> opened c')"

lemma same_state_inv: "same_state s s' \<Longrightarrow> gws_inv s \<Longrightarrow> gws_inv s'"
  by (auto simp: same_state_def gws_inv_def split: option.splits)

lemma same_state_stream: "same_state s s' \<Longrightarrow> gss_stream s \<noteq> None \<Longrightarrow> gss_stream s' \<noteq> None"
  by (simp add: same_state_def)

lemma gws_send_same: "gws_send m s = (s', r) \<Longrightarrow> same_state s s'"
  using opened_send[of "the (gss_stream s)" m]
  by (auto simp: gws_send_def same_state_def split: option.splits prod.splits intro: exI[of _ "gss_stream s"])

lemma gws_next_frame_same: "gws_next_frame parse s = (s', ev) \<Longrightarrow> same_state s s'"
  using opened_read[of "the (gss_stream s)" parse "wc_events (the (gss_stream s))"]
  by (auto simp: gws_next_frame_def same_state_def split: option.splits prod.splits intro: exI[of _ "gss_stream s"])

lemma same_state_trans: "same_state s s' \<Longrightarrow> same_state s' s'' \<Longrightarrow> same_state s s''"
  by (auto simp: same_state_def)

lemma same_state_refl: "same_state s s"
  by (auto simp: same_state_def intro: exI[of _ "gss_stream s"])

lemma gws_await_ack_same: "same_state s (fst (gws_await_ack parse s))"
proof (induction parse s rule: gws_await_ack.induct)
  case (1 parse s)
  obtain s' ev where n: "gws_next_frame parse s = (s', ev)" by fastforce
  have st: "same_state s s'" using gws_next_frame_same[OF n] .
  show ?case
  proof (cases ev)
    case (EvNext b)
    then show ?thesis using 1(1)[OF n[symmetric], of b] n st same_state_trans by (subst gws_await_ack.simps) simp
  next
    case (EvError k b)
    then show ?thesis using 1(2)[OF n[symmetric], of k b] n st same_state_trans by (subst gws_await_ack.simps) simp
  next
    case EvComplete
    then show ?thesis using 1(3)[OF n[symmetric]] n st same_state_trans by (subst gws_await_ack.simps) simp
  qed (use n st in \<open>(subst gws_await_ack.simps, simp)+\<close>)
qed

definition fresh_offer :: "gws_offer \<Rightarrow> bool" where
  "fresh_offer offer \<longleftrightarrow> (case offer of Inl e \<Rightarrow> True | Inr (c, negotiated) \<Rightarrow> wc_sent c = [])"

lemma gws_initialize_opened:
  assumes "gss_stream s = Some c" and "wc_sent c = []" and "gws_initialize parse s = (s', Inr u)"
  shows "\<exists>c'. s' = s\<lparr>gss_stream := Some c'\<rparr> \<and> opened c'"
proof -
  obtain s1 r where s1: "gws_send (WText init_frame) s = (s1, r)" by fastforce
  have a: "gws_await_ack parse s1 = (s', Inr u)" "\<not> isl r"
    using assms(3) s1 by (auto simp: gws_initialize_def split: sum.splits)
  have "\<exists>c1. s1 = s\<lparr>gss_stream := Some c1\<rparr> \<and> opened c1"
    using s1 a(2) assms(1,2) by (auto simp: gws_send_def ws_send_def opened_def split: list.splits)
  then obtain c1 where c1: "s1 = s\<lparr>gss_stream := Some c1\<rparr>" "opened c1" by blast
  have "same_state s1 s'" using gws_await_ack_same[of s1 parse] a(1) by simp
  then show ?thesis using c1 by (auto simp: same_state_def)
qed

lemma gws_ready_inv:
  assumes "gws_inv s" and "fresh_offer offer" and "gws_ready parse offer s = (s', ready)"
  shows "gws_inv s' \<and> (ready \<longrightarrow> gss_stream s' \<noteq> None)"
proof (cases "gss_stream s")
  case (Some c)
  then have "gss_initialized s" using assms(1) by (simp add: gws_inv_def)
  then have "s' = s" "ready" using assms(3) Some by (simp_all add: gws_ready_def Let_def)
  then show ?thesis using assms(1) Some by simp
next
  case None
  obtain s1 r where s1: "gws_connect offer s = (s1, r)" by fastforce
  show ?thesis
  proof (cases "isl r")
    case True
    then have "s' = gws_reset s1" "\<not> ready" using assms(3) None s1 by (auto simp: gws_ready_def Let_def)
    then show ?thesis by simp
  next
    case False
    then obtain c where c: "s1 = s\<lparr>gss_stream := Some c\<rparr>" "wc_sent c = []"
      using s1 assms(2) by (auto simp: gws_connect_def fresh_offer_def split: sum.splits if_splits)
    have ni: "\<not> gss_initialized s1" using assms(1) None c(1) by (simp add: gws_inv_def)
    obtain s2 r2 where s2: "gws_initialize parse s1 = (s2, r2)" by fastforce
    show ?thesis
    proof (cases r2)
      case (Inl e)
      then have "s' = gws_reset s2" "\<not> ready" using assms(3) None s1 False ni s2 by (auto simp: gws_ready_def Let_def)
      then show ?thesis by simp
    next
      case (Inr u)
      have "gss_stream s1 = Some c" using c(1) by simp
      from gws_initialize_opened[OF this c(2) s2[unfolded Inr]]
      obtain c' where c': "s2 = s1\<lparr>gss_stream := Some c'\<rparr>" "opened c'" by blast
      have "s' = s2\<lparr>gss_initialized := True\<rparr>" "ready"
        using assms(3) None s1 False ni s2 Inr by (auto simp: gws_ready_def Let_def)
      then show ?thesis using assms(1) None c(1) c' by (simp add: gws_inv_def)
    qed
  qed
qed

lemma gws_event_metric_inv: "gws_inv s \<Longrightarrow> gss_stream s \<noteq> None \<Longrightarrow> gws_inv (fst (gws_event_metric t fault ops ev s))"
  by (cases ev) (auto simp: gws_event_metric_def Let_def gws_inv_def gws_reset_def split: option.splits)

lemma gws_corrupted_inv: "gws_inv s \<Longrightarrow> gws_inv (fst (gws_corrupted parse t fault s))"
  by (auto simp: gws_corrupted_def split: prod.split sum.split read_event.split
      dest!: gws_send_same gws_next_frame_same intro: same_state_inv)

lemma gws_subscribe_inv:
  assumes "gws_inv s" and "gss_stream s \<noteq> None" and "gws_subscribe parse print e t fault s = (s', r)"
  shows "gws_inv s' \<and> (\<not> isl r \<longrightarrow> gss_stream s' \<noteq> None)"
proof (cases "gss_subscribed s \<or> isl (gws_subscribe_frame parse print (gwe_payload e))")
  case True
  then show ?thesis using assms by (auto simp: gws_subscribe_def split: sum.splits if_splits)
next
  case False
  then obtain frame where f: "\<not> gss_subscribed s" "gws_subscribe_frame parse print (gwe_payload e) = Inr frame"
    by (auto simp: isl_def) (metis sum.exhaust)
  obtain s1 r1 where s1: "gws_send (WText frame) s = (s1, r1)" by fastforce
  have i: "gws_inv s1" "gss_stream s1 \<noteq> None"
    using same_state_inv[OF gws_send_same[OF s1] assms(1)] same_state_stream[OF gws_send_same[OF s1] assms(2)] by blast+
  show ?thesis using assms(3) f s1 i by (cases r1) (auto simp: gws_subscribe_def gws_inv_def gws_reset_def split: option.splits)
qed

lemma gws_run_inv:
  assumes "gws_inv s" and "fresh_offer offer"
  shows "gws_inv (fst (gws_run_iteration parse print e offer t fault s))"
proof (cases "fault = Some ConnectionDrop")
  case False
  obtain s1 ready where s1: "gws_ready parse offer s = (s1, ready)" by fastforce
  note r = gws_ready_inv[OF assms s1]
  show ?thesis
  proof (cases "ready \<and> fault \<noteq> Some CorruptedPayload")
    case True
    obtain s2 r2 where s2: "gws_subscribe parse print e t fault s1 = (s2, r2)" by fastforce
    have i: "gws_inv s2 \<and> (\<not> isl r2 \<longrightarrow> gss_stream s2 \<noteq> None)" using gws_subscribe_inv[OF _ _ s2] r True by blast
    show ?thesis
    proof (cases r2)
      case (Inl m)
      then show ?thesis using False s1 True s2 i by (simp add: gws_run_iteration_def)
    next
      case (Inr ops)
      obtain s3 ev where s3: "gws_next_frame parse s2 = (s3, ev)" by fastforce
      have "gws_inv s3" "gss_stream s3 \<noteq> None"
        using same_state_inv[OF gws_next_frame_same[OF s3]] same_state_stream[OF gws_next_frame_same[OF s3]] i Inr by simp_all
      then have "gws_inv (fst (gws_event_metric t fault ops ev s3))" by (rule gws_event_metric_inv)
      then show ?thesis using False s1 True s2 s3 Inr by (simp add: gws_run_iteration_def)
    qed
  qed (use False s1 r gws_corrupted_inv[of s1 parse t fault] in \<open>auto simp: gws_run_iteration_def split: bool.split\<close>)
qed (use assms in \<open>simp add: gws_run_iteration_def\<close>)

text \<open>What an iteration of a session gets from outside.\<close>

type_synonym gws_turn = "gws_offer \<times> gws_clock \<times> chaos_fault option"

definition gws_step :: "json_parse \<Rightarrow> json_print \<Rightarrow> graphql_ws_engine \<Rightarrow> graphql_ws_session \<Rightarrow> gws_turn \<Rightarrow> graphql_ws_session" where
  "gws_step parse print e s turn = (case turn of (offer, t, fault) \<Rightarrow> fst (gws_run_iteration parse print e offer t fault s))"

interpretation gws: guarded_machine "gws_step parse print e" gws_inv "\<lambda>turn. fresh_offer (fst turn)" for parse print e
  by unfold_locales (auto simp: gws_step_def gws_run_inv split: prod.split)


definition silent_server :: gws_turn where
  "silent_server = (Inr (\<lparr>wc_sends = [Inr ()], wc_events = [], wc_sent = []\<rparr>, Some subprotocol),
     \<lparr>gc_sent = 1, gc_now = 2, gc_latency = 3\<rparr>, None)"

lemma gws_await_ack_silent:
  "gss_stream s = Some c \<Longrightarrow> wc_events c = [] \<Longrightarrow>
     gws_await_ack parse s = (s\<lparr>gss_stream := Some (c\<lparr>wc_events := []\<rparr>)\<rparr>, Inl ''connection init not acknowledged'')"
  by (subst gws_await_ack.simps) (simp add: gws_next_frame_def)

definition sample_subscription :: graphql_ws_engine where
  "sample_subscription =
     graphql_ws_engine_new \<lparr>sp_query = ''subscription { a }'', sp_variables = None, sp_operation_name = None\<rparr> []
       (chaos_engine_new False (Fin 0)) 5"


end
