(* ===== verification/Grpc_Engine.thy ===== *)
theory Grpc_Engine
  imports Rust_Text Ws_Engine
begin

text \<open>
  The gRPC engines: the schema lookup (\<open>protocols/grpc_parser.rs\<close>), the status mapping, the payload decoding and the
  engine over the gRPC crate (\<open>protocols/grpc.rs\<close>), and the engine on raw HTTP/2 streams (\<open>protocols/grpc_h2.rs\<close>).

  The protobuf compiler, the hexadecimal and base64 decoders, the address parser and the HTTP/2 implementation belong to
  other crates and are arguments.
\<close>

section \<open>Schemas\<close>

datatype proto_error =
    CompilationError string
  | ServiceNotFound string
  | MethodNotFound string
  | MessageNotFound string
  | JsonError string
  | EncodeError string
  | ConnectionError string
  | ReflectionError string

fun proto_error_text :: "proto_error \<Rightarrow> string" where
  "proto_error_text (CompilationError e) = ''proto compilation failed: '' @ e"
| "proto_error_text (ServiceNotFound s) = ''service not found: '' @ s"
| "proto_error_text (MethodNotFound m) = ''method not found: '' @ m"
| "proto_error_text (MessageNotFound m) = ''message not found: '' @ m"
| "proto_error_text (JsonError e) = ''JSON error: '' @ e"
| "proto_error_text (EncodeError e) = ''protobuf encode error: '' @ e"
| "proto_error_text (ConnectionError e) = ''connection error: '' @ e"
| "proto_error_text (ReflectionError e) = ''reflection error: '' @ e"

text \<open>A service of a descriptor pool: its name, its full name, and its methods with the full names of their inputs.\<close>

record proto_service =
  psv_name :: string
  psv_full_name :: string
  psv_methods :: "(string \<times> string) list"

record proto_pool =
  pp_services :: "proto_service list"
  pp_messages :: "string list"

record proto_schema =
  psc_pool :: proto_pool
  psc_service_name :: string
  psc_method_name :: string
  psc_message_name :: string

definition proto_schema_from_parts :: "proto_pool \<Rightarrow> string \<Rightarrow> string \<Rightarrow> string \<Rightarrow> proto_schema" where
  "proto_schema_from_parts pool service_name method_name message_name =
     \<lparr>psc_pool = pool, psc_service_name = service_name, psc_method_name = method_name, psc_message_name = message_name\<rparr>"

text \<open>Compiling a file, with its directory as the include path.\<close>

type_synonym proto_compile = "string \<Rightarrow> string + proto_pool"

text \<open>Converting a JSON text to a message of the pool.\<close>

type_synonym proto_encode = "proto_pool \<Rightarrow> string \<Rightarrow> string \<Rightarrow> proto_error + bytes"

definition ends_with :: "'a list \<Rightarrow> 'a list \<Rightarrow> bool" where
  "ends_with s p = starts_with (rev s) (rev p)"

definition find_service :: "proto_pool \<Rightarrow> string \<Rightarrow> proto_service option" where
  "find_service pool service =
     (case find (\<lambda>s. psv_full_name s = service) (pp_services pool) of
        Some s \<Rightarrow> Some s
      | None \<Rightarrow> find (\<lambda>s. ends_with (psv_name s) (CHR ''.'' # service) \<or> psv_name s = service) (pp_services pool))"

definition clean_method :: "string \<Rightarrow> string" where
  "clean_method m = rev (takeWhile (\<lambda>c. c \<noteq> CHR ''/'') (rev (dropWhile (\<lambda>c. c = CHR ''/'') m)))"

definition proto_schema_new :: "proto_compile \<Rightarrow> string \<Rightarrow> string \<Rightarrow> string \<Rightarrow> proto_error + proto_schema" where
  "proto_schema_new compile proto_path service m =
     (case compile proto_path of
        Inl e \<Rightarrow> Inl (CompilationError e)
      | Inr pool \<Rightarrow>
          (case find_service pool service of
             None \<Rightarrow> Inl (ServiceNotFound service)
           | Some s \<Rightarrow>
               (case find (\<lambda>x. fst x = clean_method m) (psv_methods s) of
                  None \<Rightarrow> Inl (MethodNotFound (clean_method m))
                | Some (name, input) \<Rightarrow>
                    (if input \<in> set (pp_messages pool)
                     then Inr \<lparr>psc_pool = pool, psc_service_name = psv_name s, psc_method_name = clean_method m,
                               psc_message_name = input\<rparr>
                     else Inl (MessageNotFound input)))))"

definition grpc_path :: "proto_schema \<Rightarrow> string" where
  "grpc_path s = ''/'' @ psc_service_name s @ ''/'' @ psc_method_name s"

definition json_to_protobuf :: "proto_encode \<Rightarrow> proto_schema \<Rightarrow> string \<Rightarrow> proto_error + bytes" where
  "json_to_protobuf encode s json_str =
     (if psc_message_name s \<in> set (pp_messages (psc_pool s)) then encode (psc_pool s) (psc_message_name s) json_str
      else Inl (MessageNotFound (psc_message_name s)))"

section \<open>Status codes and payloads\<close>

definition grpc_to_http_status :: "u16 \<Rightarrow> u16" where
  "grpc_to_http_status code =
     (if code = 0 then 200 else if code = 1 then 499 else if code = 2 then 500 else if code = 3 then 400
      else if code = 4 then 504 else if code = 5 then 404 else if code = 6 then 409 else if code = 7 then 403
      else if code = 8 then 429 else if code = 9 then 412 else if code = 10 then 409 else if code = 11 then 416
      else if code = 12 then 501 else if code = 13 then 500 else if code = 14 then 503 else if code = 15 then 500
      else if code = 16 then 401 else 500)"

record grpc_codecs =
  gco_compile :: proto_compile
  gco_encode :: proto_encode
  gco_hex :: "string \<Rightarrow> string + bytes"
  gco_base64 :: "string \<Rightarrow> string + bytes"

definition decode_grpc_payload ::
    "grpc_codecs \<Rightarrow> string option \<Rightarrow> string option \<Rightarrow> string \<Rightarrow> string \<Rightarrow> proto_error + bytes" where
  "decode_grpc_payload co grpc_payload proto_path service m =
     (case (proto_path, grpc_payload) of
        (Some path, Some json) \<Rightarrow>
          (case proto_schema_new (gco_compile co) path service m of
             Inl e \<Rightarrow> Inl e
           | Inr schema \<Rightarrow> json_to_protobuf (gco_encode co) schema json)
      | _ \<Rightarrow>
          (case grpc_payload of
             None \<Rightarrow> Inr []
           | Some s \<Rightarrow>
               (case strip_prefix s ''0x'' of
                  Some hex_str \<Rightarrow>
                    (case gco_hex co hex_str of
                       Inl e \<Rightarrow> Inl (EncodeError (''invalid hex payload '' @ [CHR 0x27] @ hex_str @ [CHR 0x27] @ '': '' @ e))
                     | Inr b \<Rightarrow> Inr b)
                | None \<Rightarrow>
                    (case gco_base64 co s of
                       Inl e \<Rightarrow> Inl (EncodeError (''invalid base64 payload: '' @ e))
                     | Inr b \<Rightarrow> Inr b))))"

section \<open>The engine over the gRPC crate\<close>

record grpc_engine =
  gre_endpoint :: string
  gre_headers :: "(string \<times> string) list"
  gre_chaos :: chaos_engine
  gre_service :: string
  gre_method :: string
  gre_payload :: bytes
  gre_grpc_payload :: "string option"
  gre_deadline_ms :: "u64 option"

text \<open>Parsing the address and creating the endpoint, each of which may fail with a text.\<close>

definition grpc_engine_new ::
    "grpc_codecs \<Rightarrow> (string \<Rightarrow> string + string) \<Rightarrow> (string \<Rightarrow> string + string) \<Rightarrow> string \<Rightarrow> (string \<times> string) list \<Rightarrow> chaos_engine \<Rightarrow>
     string option \<Rightarrow> string option \<Rightarrow> string option \<Rightarrow> u64 option \<Rightarrow> string option \<Rightarrow> proto_error + grpc_engine" where
  "grpc_engine_new co parse_uri endpoint_new url headers chaos service m grpc_payload deadline_ms proto_path =
     (case parse_uri url of
        Inl e \<Rightarrow> Inl (ConnectionError (''invalid gRPC URL: '' @ e))
      | Inr uri \<Rightarrow>
          (case endpoint_new uri of
             Inl e \<Rightarrow> Inl (ConnectionError (''failed to create gRPC endpoint: '' @ e))
           | Inr endpoint \<Rightarrow>
               (let svc = (case service of Some s \<Rightarrow> s | None \<Rightarrow> []);
                    mth = (case m of Some s \<Rightarrow> s | None \<Rightarrow> [])
                in case decode_grpc_payload co grpc_payload proto_path svc mth of
                     Inl e \<Rightarrow> Inl e
                   | Inr payload \<Rightarrow>
                       Inr \<lparr>gre_endpoint = endpoint, gre_headers = headers, gre_chaos = chaos, gre_service = svc, gre_method = mth,
                            gre_payload = payload, gre_grpc_payload = grpc_payload, gre_deadline_ms = deadline_ms\<rparr>)))"

definition tonic_path :: "grpc_engine \<Rightarrow> string" where
  "tonic_path e = ''/'' @ gre_service e @ ''/'' @ gre_method e"

definition parse_u16 :: "string \<Rightarrow> u16 option" where
  "parse_u16 s = (case parse_usize s of Some n \<Rightarrow> (if n < 65536 then Some (of_nat n) else None) | None \<Rightarrow> None)"

text \<open>A unary call: the status header and the length of the answer, or the status of a failure.\<close>

datatype grpc_reply = GrpcOk (gr_status_header: "string option") (gr_len: nat) | GrpcFailed u16

record grpc_net =
  gn_connect :: "string + unit"
  gn_path_ok :: "string \<Rightarrow> bool"
  gn_unary :: "string \<Rightarrow> bytes \<Rightarrow> (string \<times> string) list \<Rightarrow> grpc_reply"
  gn_late :: "duration \<Rightarrow> bool"
  gn_latency_us :: u128

definition grpc_execute_iteration :: "grpc_net \<Rightarrow> grpc_engine \<Rightarrow> chaos_fault option \<Rightarrow> request_metric" where
  "grpc_execute_iteration net e fault =
     (let latency = gn_latency_us net
      in if fault = Some ConnectionDrop then rm_error latency fault
         else case gn_connect net of
           Inl err \<Rightarrow> with_status 503 (rm_builder latency fault)
         | Inr _ \<Rightarrow>
             (let payload = (if fault = Some CorruptedPayload then corrupted_frame else gre_payload e)
              in if \<not> gn_path_ok net (tonic_path e) then rm_error latency fault
                 else let metadata = (if fault = Some MetadataCorruption then [(''x-chaos-fault'', ''corrupted_value'')] else []);
                          late = (case gre_deadline_ms e of Some ms \<Rightarrow> gn_late net (from_millis (unat ms)) | None \<Rightarrow> False)
                      in if late then with_status 504 (rm_builder latency fault)
                         else case gn_unary net (tonic_path e) payload metadata of
                                GrpcOk hdr n \<Rightarrow>
                                  (let status = (case Option.bind hdr parse_u16 of Some c \<Rightarrow> c | None \<Rightarrow> 0)
                                   in with_bytes (of_nat n) (with_status (grpc_to_http_status status) (rm_builder latency fault)))
                              | GrpcFailed code \<Rightarrow> with_bytes 0 (with_status (grpc_to_http_status code) (rm_builder latency fault))))"

section \<open>The engine on raw HTTP/2 streams\<close>

text \<open>A length-prefixed message: no compression, the length in four bytes, the payload.\<close>

definition be32 :: "nat \<Rightarrow> bytes" where
  "be32 n = map (\<lambda>i. char_of (n div 256 ^ (3 - i) mod 256)) [0..<4]"

definition build_frame :: "bytes \<Rightarrow> bytes" where
  "build_frame payload = char_of (0 :: nat) # be32 (length payload mod 2 ^ 32) @ payload"

type_synonym header_map = "(string \<times> string) list"

definition grpc_status_from :: "header_map option \<Rightarrow> u16 option" where
  "grpc_status_from m = Option.bind m (\<lambda>m. Option.bind (map_of m ''grpc-status'') parse_u16)"

definition resolve_grpc_status :: "string + header_map option \<Rightarrow> header_map \<Rightarrow> u16 option" where
  "resolve_grpc_status trailers head =
     (case trailers of
        Inr t \<Rightarrow> Some (case grpc_status_from t of
                          Some c \<Rightarrow> c
                        | None \<Rightarrow> (case grpc_status_from (Some head) of Some c \<Rightarrow> c | None \<Rightarrow> 0))
      | Inl e \<Rightarrow> None)"

record grpc_h2_engine =
  h2e_authority :: string
  h2e_service :: string
  h2e_method :: string
  h2e_payload :: bytes
  h2e_headers :: "(string \<times> string) list"
  h2e_deadline :: "duration option"
  h2e_chaos :: chaos_engine
  h2e_send :: bool
  h2e_active :: u64

text \<open>The parsed address is its authority, if it has one.\<close>

definition grpc_h2_engine_new ::
    "grpc_codecs \<Rightarrow> (string \<Rightarrow> string + string option) \<Rightarrow> string \<Rightarrow> (string \<times> string) list \<Rightarrow> chaos_engine \<Rightarrow>
     string option \<Rightarrow> string option \<Rightarrow> string option \<Rightarrow> u64 option \<Rightarrow> string option \<Rightarrow> proto_error + grpc_h2_engine" where
  "grpc_h2_engine_new co parse_uri url headers chaos service m grpc_payload deadline_ms proto_path =
     (case parse_uri url of
        Inl e \<Rightarrow> Inl (ConnectionError (''invalid gRPC URL: '' @ e))
      | Inr None \<Rightarrow> Inl (ConnectionError (''gRPC URL missing authority: '' @ url))
      | Inr (Some authority) \<Rightarrow>
          (let svc = (case service of Some s \<Rightarrow> s | None \<Rightarrow> []);
               mth = (case m of Some s \<Rightarrow> s | None \<Rightarrow> [])
           in case decode_grpc_payload co grpc_payload proto_path svc mth of
                Inl e \<Rightarrow> Inl e
              | Inr payload \<Rightarrow>
                  Inr \<lparr>h2e_authority = authority, h2e_service = svc, h2e_method = mth, h2e_payload = payload, h2e_headers = headers,
                       h2e_deadline = map_option (\<lambda>ms. from_millis (unat ms)) deadline_ms, h2e_chaos = chaos, h2e_send = False,
                       h2e_active = 0\<rparr>))"

definition h2_path :: "grpc_h2_engine \<Rightarrow> string" where
  "h2_path e = ''/'' @ h2e_service e @ h2e_method e"

text \<open>The shared connection: opened on first use, its latency, and whether it was reused.\<close>

definition get_send :: "string + unit \<Rightarrow> u64 \<Rightarrow> grpc_h2_engine \<Rightarrow> grpc_h2_engine \<times> (string + (u64 \<times> bool))" where
  "get_send offer conn_us e =
     (if h2e_send e then (e, Inr (0, True))
      else case offer of
             Inl err \<Rightarrow> (e, Inl err)
           | Inr _ \<Rightarrow> (e\<lparr>h2e_send := True\<rparr>, Inr (conn_us, False)))"

definition clear_send :: "grpc_h2_engine \<Rightarrow> grpc_h2_engine" where
  "clear_send e = e\<lparr>h2e_send := False\<rparr>"

text \<open>One answer of \<open>poll_capacity\<close>: whether it was pending first and for how long, and the capacity, if the stream is alive.\<close>

record capacity =
  cap_stalled :: bool
  cap_wait_us :: u64
  cap_result :: "nat option"

record send_stats =
  sst_events :: u64
  sst_stall_us :: u64
  sst_cap_min :: u64
  sst_has_cap :: bool

text \<open>
  The send loop: the capacities the stream will grant and the results of the data sends.  The first component is the
  chunks sent with their end-of-stream flags; \<open>None\<close> is a send that still waits for capacity.
\<close>

fun drive_loop ::
    "bytes \<Rightarrow> usize \<Rightarrow> send_stats \<Rightarrow> capacity list \<Rightarrow> bool list \<Rightarrow> (bytes \<times> bool) list \<times> (unit + send_stats) option" where
  "drive_loop frame idx st [] oks = ([], if idx < length frame then None else Some (Inr st))"
| "drive_loop frame idx st (c # caps) oks =
     (if \<not> idx < length frame then ([], Some (Inr st))
      else case cap_result c of
             None \<Rightarrow> ([], Some (Inl ()))
           | Some n \<Rightarrow>
               (let st = (if cap_stalled c \<and> idx > 0
                          then st\<lparr>sst_events := sst_events st + 1, sst_stall_us := sst_stall_us st + cap_wait_us c\<rparr> else st)
                in if n = 0 then drive_loop frame idx st caps oks
                   else let st = st\<lparr>sst_cap_min := min (sst_cap_min st) (of_nat n), sst_has_cap := True\<rparr>;
                            amount = min n (length frame - idx);
                            is_last = (length frame \<le> idx + amount);
                            chunk = take amount (drop idx frame)
                        in case oks of
                             True # oks \<Rightarrow>
                               (if is_last then ([(chunk, True)], Some (Inr st))
                                else case drive_loop frame (idx + amount) st caps oks of
                                       (chunks, r) \<Rightarrow> ((chunk, False) # chunks, r))
                           | _ \<Rightarrow> ([], Some (Inl ()))))"

definition drive_send :: "bytes \<Rightarrow> capacity list \<Rightarrow> bool list \<Rightarrow> (bytes \<times> bool) list \<times> (unit + send_stats) option" where
  "drive_send frame caps oks =
     (if frame = []
      then (case oks of
              True # _ \<Rightarrow> ([([], True)], Some (Inr \<lparr>sst_events = 0, sst_stall_us = 0, sst_cap_min = 0, sst_has_cap = False\<rparr>))
            | _ \<Rightarrow> ([], Some (Inl ())))
      else drive_loop frame 0 \<lparr>sst_events = 0, sst_stall_us = 0, sst_cap_min = - 1, sst_has_cap = False\<rparr> caps oks)"

record h2_response =
  h2r_status :: u16
  h2r_headers :: header_map
  h2r_data :: "(string + bytes) list"
  h2r_trailers :: "string + header_map option"

fun read_data :: "bytes \<Rightarrow> (string + bytes) list \<Rightarrow> bytes option" where
  "read_data body [] = Some body"
| "read_data body (Inr d # ds) = read_data (body @ d) ds"
| "read_data body (Inl e # ds) = None"

definition message_len :: "bytes \<Rightarrow> u64" where
  "message_len body =
     (if length body \<ge> 5 then of_nat (foldl (\<lambda>n b. n * 256 + byte b) 0 (take 4 (drop 1 body))) else 0)"

definition read_response :: "string + h2_response \<Rightarrow> (u16 \<times> u64) option" where
  "read_response resp =
     (case resp of
        Inl e \<Rightarrow> None
      | Inr r \<Rightarrow>
          (if h2r_status r \<noteq> 200 then Some (2, 0)
           else case read_data [] (h2r_data r) of
                  None \<Rightarrow> None
                | Some body \<Rightarrow>
                    (case resolve_grpc_status (h2r_trailers r) (h2r_headers r) of
                       None \<Rightarrow> None
                     | Some status \<Rightarrow> Some (status, message_len body))))"

text \<open>What the connection does in one iteration; \<open>hn_header\<close> is the lower-cased header, if it is valid.\<close>

record h2_net =
  hn_connect :: "string + unit"
  hn_conn_us :: u64
  hn_ready :: bool
  hn_header :: "string \<Rightarrow> string \<Rightarrow> (string \<times> string) option"
  hn_request_ok :: "string \<Rightarrow> (string \<times> string) list \<Rightarrow> bool"
  hn_send_request :: bool
  hn_max_streams :: nat
  hn_caps :: "capacity list"
  hn_sends :: "bool list"
  hn_response :: "string + h2_response"
  hn_late :: "duration \<Rightarrow> bool"
  hn_latency_us :: u128

definition h2_headers :: "h2_net \<Rightarrow> grpc_h2_engine \<Rightarrow> chaos_fault option \<Rightarrow> (string \<times> string) list" where
  "h2_headers net e fault =
     [(''content-type'', ''application/grpc''), (''te'', ''trailers'')] @
     List.map_filter (\<lambda>(k, v). hn_header net k v) (h2e_headers e) @
     (if fault = Some MetadataCorruption then [(''x-chaos-fault'', ''corrupted_value'')] else [])"

text \<open>
  The metric of an open stream; its guard raises the number of active streams until the end.  \<open>None\<close> is a send that
  waits for capacity.
\<close>

definition h2_open_stream :: "h2_net \<Rightarrow> grpc_h2_engine \<Rightarrow> chaos_fault option \<Rightarrow> u64 \<Rightarrow> bool \<Rightarrow> request_metric option" where
  "h2_open_stream net e fault conn_us reused =
     (let payload = (if fault = Some CorruptedPayload then corrupted_frame else h2e_payload e);
          active_streams = h2e_active e + 1;
          max_concurrent = (of_nat (hn_max_streams net) :: u64);
          utilization = (if max_concurrent > 0 then f64_div (f64_of_u64 active_streams) (f64_of_u64 max_concurrent) else Fin 0);
          latency = hn_latency_us net
      in case snd (drive_send (build_frame payload) (hn_caps net) (hn_sends net)) of
           None \<Rightarrow> None
         | Some (Inl _) \<Rightarrow> Some (rm_error latency fault)
         | Some (Inr st) \<Rightarrow>
             (let late = (case h2e_deadline e of Some d \<Rightarrow> hn_late net d | None \<Rightarrow> False)
              in case (if late then None else read_response (hn_response net)) of
                   None \<Rightarrow> Some (rm_error latency fault)
                 | Some (status, body_len) \<Rightarrow>
                     Some (with_grpc (Some \<lparr>grs_active_streams = active_streams, grs_max_concurrent_streams = max_concurrent,
                                            grs_utilization = utilization, grs_window_exhaustion_events = sst_events st,
                                            grs_window_stall_us = sst_stall_us st, grs_send_capacity_bytes = sst_cap_min st,
                                            grs_has_send_capacity = sst_has_cap st\<rparr>)
                             (with_socket_reused reused
                               (with_connection_latency_us (if conn_us > 0 then Some (ucast conn_us) else None)
                                 (with_bytes body_len (with_status (grpc_to_http_status status) (rm_builder latency fault))))))))"

definition h2_execute_iteration ::
    "h2_net \<Rightarrow> chaos_fault option \<Rightarrow> grpc_h2_engine \<Rightarrow> grpc_h2_engine \<times> request_metric option" where
  "h2_execute_iteration net fault e =
     (let latency = hn_latency_us net
      in if fault = Some ConnectionDrop then (e, Some (rm_error latency fault))
         else case get_send (hn_connect net) (hn_conn_us net) e of
           (e, Inl err) \<Rightarrow> (e, Some (rm_error latency fault))
         | (e, Inr (conn_us, reused)) \<Rightarrow>
             (if \<not> hn_ready net then (clear_send e, Some (rm_error latency fault))
              else if \<not> hn_request_ok net (''http://'' @ h2e_authority e @ h2_path e) (h2_headers net e fault)
              then (e, Some (rm_error latency fault))
              else if \<not> hn_send_request net then (clear_send e, Some (rm_error latency fault))
              else (e, h2_open_stream net e fault conn_us reused)))"

section \<open>Sending a message\<close>

text \<open>The chunks of a stream: the last one, and only it, ends the stream.\<close>

definition ends_once :: "(bytes \<times> bool) list \<Rightarrow> bool" where
  "ends_once chunks \<longleftrightarrow> chunks \<noteq> [] \<and> snd (last chunks) \<and> (\<forall>c\<in>set (butlast chunks). \<not> snd c)"

lemma ends_once_Cons: "ends_once chunks \<Longrightarrow> ends_once ((c, False) # chunks)"
  by (auto simp: ends_once_def)

text \<open>One turn of the loop that got capacity and whose data was taken.\<close>

lemma drive_loop_turn:
  assumes "idx < length frame" and "cap_result c = Some n" and "0 < n"
  obtains st2 where "drive_loop frame idx st (c # caps) (True # oks) =
    (if length frame \<le> idx + min n (length frame - idx)
     then ([(take (min n (length frame - idx)) (drop idx frame), True)], Some (Inr st2))
     else ((take (min n (length frame - idx)) (drop idx frame), False) #
             fst (drive_loop frame (idx + min n (length frame - idx)) st2 caps oks),
           snd (drive_loop frame (idx + min n (length frame - idx)) st2 caps oks)))"
proof -
  define st1 where "st1 = (if cap_stalled c \<and> idx > 0
     then st\<lparr>sst_events := sst_events st + 1, sst_stall_us := sst_stall_us st + cap_wait_us c\<rparr> else st)"
  define st2 where "st2 = st1\<lparr>sst_cap_min := min (sst_cap_min st1) (of_nat n), sst_has_cap := True\<rparr>"
  show ?thesis
    by (rule that[of st2], unfold drive_loop.simps)
      (use assms in \<open>simp add: Let_def case_prod_beta del: drive_loop.simps flip: st1_def st2_def\<close>)
qed

lemma drive_loop_complete:
  assumes "idx < length frame" and "drive_loop frame idx st caps oks = (chunks, Some (Inr st'))"
  shows "concat (map fst chunks) = drop idx frame \<and> ends_once chunks"
  using assms
proof (induction caps arbitrary: idx st oks chunks)
  case (Cons c caps)
  obtain n where n: "cap_result c = Some n" using Cons.prems by (cases "cap_result c") auto
  show ?case
  proof (cases "n = 0")
    case True
    then obtain st1 where "drive_loop frame idx st1 caps oks = (chunks, Some (Inr st'))"
      using Cons.prems n by (auto simp: Let_def)
    then show ?thesis using Cons.IH Cons.prems(1) by blast
  next
    case False
    let ?a = "min n (length frame - idx)"
    obtain oks' where oks: "oks = True # oks'"
      using Cons.prems n False by (auto simp: Let_def split: list.splits bool.splits)
    obtain st2 where t: "drive_loop frame idx st (c # caps) (True # oks') =
      (if length frame \<le> idx + ?a then ([(take ?a (drop idx frame), True)], Some (Inr st2))
       else ((take ?a (drop idx frame), False) # fst (drive_loop frame (idx + ?a) st2 caps oks'),
             snd (drive_loop frame (idx + ?a) st2 caps oks')))"
      using drive_loop_turn[OF Cons.prems(1) n] False by blast
    note e = Cons.prems(2)[unfolded oks t]
    show ?thesis
    proof (cases "length frame \<le> idx + ?a")
      case True
      then have "chunks = [(take ?a (drop idx frame), True)]" using True e by (simp only: if_True prod.inject)
      then show ?thesis using True by (simp add: ends_once_def)
    next
      case part: False
      let ?r = "drive_loop frame (idx + ?a) st2 caps oks'"
      have c: "chunks = (take ?a (drop idx frame), False) # fst ?r" "snd ?r = Some (Inr st')"
        using e part by (simp_all only: if_False prod.inject)
      have "concat (map fst (fst ?r)) = drop (idx + ?a) frame \<and> ends_once (fst ?r)"
        using Cons.IH[of "idx + ?a" st2 oks' "fst ?r"] part c(2) by (simp add: prod_eq_iff)
      moreover have "take ?a (drop idx frame) @ drop (idx + ?a) frame = drop idx frame"
        using append_take_drop_id[of ?a "drop idx frame"] by (simp add: add.commute)
      ultimately show ?thesis unfolding c(1) by (simp add: ends_once_Cons)
    qed
  qed
qed simp

lemma drive_loop_returns:
  assumes "list_all (\<lambda>c. \<exists>n. cap_result c = Some n \<and> 0 < n) caps" and "length frame \<le> idx + length caps"
    and "list_all id oks" and "length caps \<le> length oks"
  shows "\<exists>chunks st'. drive_loop frame idx st caps oks = (chunks, Some (Inr st'))"
  using assms
proof (induction caps arbitrary: idx st oks)
  case (Cons c caps)
  obtain n where n: "cap_result c = Some n" "0 < n" using Cons.prems(1) by auto
  obtain oks' where oks: "oks = True # oks'" using Cons.prems(3,4) by (cases oks) auto
  show ?case
  proof (cases "idx < length frame")
    case True
    let ?a = "min n (length frame - idx)"
    obtain st2 where t: "drive_loop frame idx st (c # caps) (True # oks') =
      (if length frame \<le> idx + ?a then ([(take ?a (drop idx frame), True)], Some (Inr st2))
       else ((take ?a (drop idx frame), False) # fst (drive_loop frame (idx + ?a) st2 caps oks'),
             snd (drive_loop frame (idx + ?a) st2 caps oks')))"
      using drive_loop_turn[OF True n] by blast
    have "length frame \<le> (idx + ?a) + length caps" using Cons.prems(2) n(2) True by auto
    then have "\<exists>chunks st'. drive_loop frame (idx + ?a) st2 caps oks' = (chunks, Some (Inr st'))"
      using Cons.prems(1,3,4) oks by (intro Cons.IH) simp_all
    then show ?thesis unfolding oks t by auto
  qed simp
qed simp

lemma be32_value: "n < 2 ^ 32 \<Longrightarrow> foldl (\<lambda>k b. k * 256 + byte b) 0 (be32 n) = n"
proof -
  assume n: "n < 2 ^ 32"
  have "be32 n = [char_of (n div 256 ^ 3 mod 256), char_of (n div 256 ^ 2 mod 256), char_of (n div 256 mod 256), char_of (n mod 256)]"
    by (simp add: be32_def upt_rec)
  then have "foldl (\<lambda>k b. k * 256 + byte b) 0 (be32 n) =
      ((n div 256 ^ 3 mod 256 * 256 + n div 256 ^ 2 mod 256) * 256 + n div 256 mod 256) * 256 + n mod 256" by simp
  also have "n div 256 ^ 3 mod 256 * 256 + n div 256 ^ 2 mod 256 = n div 256 ^ 2"
  proof -
    have "n div 256 ^ 3 < 256" using n by (simp add: less_mult_imp_div_less)
    moreover have "n div 256 ^ 3 = n div 256 ^ 2 div 256" by (simp add: div_mult2_eq[symmetric])
    ultimately show ?thesis by (simp only: mod_less div_mult_mod_eq)
  qed
  also have "n div 256 ^ 2 = n div 256 div 256" by (simp add: div_mult2_eq[symmetric])
  also have "(n div 256 div 256 * 256 + n div 256 mod 256) * 256 + n mod 256 = n" by (simp only: div_mult_mod_eq)
  finally show ?thesis .
qed

lemma length_be32 [simp]: "length (be32 n) = 4"
  by (simp add: be32_def)

lemma message_len_frame: "length payload < 2 ^ 32 \<Longrightarrow> message_len (build_frame payload) = of_nat (length payload)"
  by (simp add: message_len_def build_frame_def be32_value)

text \<open>C33: sending a message over a flow-controlled stream.  When the send completes, the chunks that went out are the
  length-prefixed message, cut anywhere, with the end-of-stream mark on the last chunk and nowhere else, and the length
  the reader takes from such bytes is the length of the payload; and the send does complete when the peer grants
  at least one byte of credit as often as the message has bytes and the data is taken.\<close>

theorem h2_send_exact:
  assumes "length payload < 2 ^ 32"
  shows "(\<forall>st. drive_send (build_frame payload) caps oks = (chunks, Some (Inr st)) \<longrightarrow>
      concat (map fst chunks) = build_frame payload \<and> ends_once chunks \<and>
      message_len (concat (map fst chunks)) = of_nat (length payload)) \<and>
    (list_all (\<lambda>c. \<exists>n. cap_result c = Some n \<and> 0 < n) caps \<and> length (build_frame payload) \<le> length caps \<and>
     list_all id oks \<and> length caps \<le> length oks \<longrightarrow>
      (\<exists>st. snd (drive_send (build_frame payload) caps oks) = Some (Inr st)))"
proof -
  have ne: "build_frame payload \<noteq> []" "0 < length (build_frame payload)" by (simp_all add: build_frame_def)
  have "concat (map fst chunks) = build_frame payload \<and> ends_once chunks"
    if "drive_send (build_frame payload) caps oks = (chunks, Some (Inr st))" for st
    using drive_loop_complete[OF ne(2)] that ne by (simp add: drive_send_def)
  moreover have "\<exists>st. snd (drive_send (build_frame payload) caps oks) = Some (Inr st)"
    if "list_all (\<lambda>c. \<exists>n. cap_result c = Some n \<and> 0 < n) caps" "length (build_frame payload) \<le> length caps"
      "list_all id oks" "length caps \<le> length oks"
    using drive_loop_returns[OF that(1) _ that(3,4), of "build_frame payload" 0] that(2) ne
    by (simp add: drive_send_def) (metis snd_conv)
  ultimately show ?thesis using message_len_frame[OF assms] by auto
qed

theorem h2_send_exact_witness:
  "\<exists>st. snd (drive_send (build_frame ''ab'') (replicate 7 \<lparr>cap_stalled = True, cap_wait_us = 5, cap_result = Some 3\<rparr>) (replicate 7 True)) = Some (Inr st)"
proof -
  let ?caps = "replicate 7 \<lparr>cap_stalled = True, cap_wait_us = 5, cap_result = Some 3\<rparr>"
  have "length ''ab'' < 2 ^ 32" by simp
  moreover have "list_all (\<lambda>c. \<exists>n. cap_result c = Some n \<and> 0 < n) ?caps" by (simp add: list_all_iff)
  moreover have "length (build_frame ''ab'') \<le> length ?caps" by (simp add: build_frame_def)
  moreover have "list_all id (replicate 7 True)" by (simp add: list_all_iff)
  moreover have "length ?caps \<le> length (replicate 7 True)" by simp
  ultimately show ?thesis using h2_send_exact[of "''ab''" ?caps "replicate 7 True"] by blast
qed

text \<open>Codecs for payloads that need none.\<close>

definition no_codecs :: grpc_codecs where
  "no_codecs = \<lparr>gco_compile = Inl, gco_encode = (\<lambda>_ _ e. Inl (JsonError e)), gco_hex = Inl, gco_base64 = Inl\<rparr>"

text \<open>For the same settings the two gRPC engines ask for different paths: the engine over the gRPC crate requests
  \<open>/service/method\<close>, the raw HTTP/2 engine \<open>/servicemethod\<close> without the slash between them, although its comment
  names the former.\<close>

lemma h2_path_lacks_slash:
  assumes "grpc_engine_new co parse_uri endpoint url headers chaos service m payload deadline proto = Inr g"
    and "grpc_h2_engine_new co parse_authority url headers chaos service m payload deadline proto = Inr e"
  shows "tonic_path g = ''/'' @ h2e_service e @ ''/'' @ h2e_method e \<and> h2_path e = ''/'' @ h2e_service e @ h2e_method e \<and>
    h2_path e \<noteq> tonic_path g"
  using assms
  by (auto simp: grpc_engine_new_def grpc_h2_engine_new_def tonic_path_def h2_path_def Let_def split: sum.splits option.splits)

end
