(* ===== verification/Rust_Case.thy ===== *)
theory Rust_Case
  imports Rust_Text
begin

text \<open>
  \<open>str::to_uppercase\<close> and \<open>str::parse::<u16>\<close> with its errors, as the sources use them.
\<close>

section \<open>Upper case\<close>

definition ascii_upper :: "char \<Rightarrow> char" where
  "ascii_upper c = (if 97 \<le> byte c \<and> byte c \<le> 122 then char_of (byte c - 32) else c)"

text \<open>
  The characters outside ASCII whose upper case is a text in ASCII: dotless i, long s, sharp s and the Latin ligatures.
\<close>

definition upper_specials :: "(nat list \<times> string) list" where
  "upper_specials =
     [([0xC4, 0xB1], ''I''), ([0xC5, 0xBF], ''S''), ([0xC3, 0x9F], ''SS''),
      ([0xEF, 0xAC, 0x80], ''FF''), ([0xEF, 0xAC, 0x81], ''FI''), ([0xEF, 0xAC, 0x82], ''FL''),
      ([0xEF, 0xAC, 0x83], ''FFI''), ([0xEF, 0xAC, 0x84], ''FFL''), ([0xEF, 0xAC, 0x85], ''ST''), ([0xEF, 0xAC, 0x86], ''ST'')]"

text \<open>The upper case of one character, if it is in ASCII.\<close>

definition char_to_uppercase :: "string \<Rightarrow> string option" where
  "char_to_uppercase c =
     (case c of
        [b] \<Rightarrow> (if byte b < 128 then Some [ascii_upper b] else None)
      | _ \<Rightarrow> map_of upper_specials (map byte c))"

fun concat_options :: "'a list option list \<Rightarrow> 'a list option" where
  "concat_options [] = Some []"
| "concat_options (None # xs) = None"
| "concat_options (Some a # xs) = (case concat_options xs of None \<Rightarrow> None | Some b \<Rightarrow> Some (a @ b))"

text \<open>The upper case of a text, if it is in ASCII; every use in the sources only looks for ASCII texts.\<close>

definition to_uppercase :: "string \<Rightarrow> string option" where
  "to_uppercase s = concat_options (map char_to_uppercase (utf8_chars s))"

section \<open>Port numbers\<close>

text \<open>The digits are read from the left; the first problem is reported.\<close>

fun parse_u16_digits :: "nat \<Rightarrow> string \<Rightarrow> string + u16" where
  "parse_u16_digits n [] = Inr (of_nat n)"
| "parse_u16_digits n (c # cs) =
     (if \<not> is_digit c then Inl ''invalid digit found in string''
      else if 65535 < n * 10 + (byte c - 48) then Inl ''number too large to fit in target type''
      else parse_u16_digits (n * 10 + (byte c - 48)) cs)"

definition parse_port :: "string \<Rightarrow> string + u16" where
  "parse_port s =
     (case s of
        [] \<Rightarrow> Inl ''cannot parse integer from empty string''
      | c # cs \<Rightarrow>
          (if cs = [] \<and> (c = CHR ''+'' \<or> c = CHR ''-'') then Inl ''invalid digit found in string''
           else if c = CHR ''+'' then parse_u16_digits 0 cs
           else parse_u16_digits 0 s))"

lemma foldl_digits_ge: "n \<le> foldl (\<lambda>n c. n * 10 + (byte c - 48)) n cs"
proof (induction cs arbitrary: n)
  case (Cons c cs)
  have "n \<le> n * 10 + (byte c - 48)" by simp
  also have "\<dots> \<le> foldl (\<lambda>n c. n * 10 + (byte c - 48)) (n * 10 + (byte c - 48)) cs" by (rule Cons)
  finally show ?case by simp
qed simp

lemma parse_u16_digits_value:
  "list_all is_digit cs \<Longrightarrow> foldl (\<lambda>n c. n * 10 + (byte c - 48)) n cs \<le> 65535 \<Longrightarrow>
   parse_u16_digits n cs = Inr (of_nat (foldl (\<lambda>n c. n * 10 + (byte c - 48)) n cs))"
proof (induction cs arbitrary: n)
  case (Cons c cs)
  then have "n * 10 + (byte c - 48) \<le> 65535"
    using foldl_digits_ge[of "n * 10 + (byte c - 48)" cs] by simp
  with Cons show ?case by simp
qed simp

lemma parse_port_show_nat: "parse_port (show_nat (unat (p :: u16))) = Inr p"
proof -
  obtain c cs where s: "show_nat (unat p) = c # cs" by (cases "show_nat (unat p)") auto
  have d: "list_all is_digit (show_nat (unat p))" by (rule show_nat_digits)
  then have "is_digit c" by (simp add: s)
  then have c: "c \<noteq> CHR ''+''" "c \<noteq> CHR ''-''" by (auto simp: is_digit_def)
  have "unat p < 2 ^ 16" using unsigned_less[of p, where ?'a = nat] by simp
  then have "parse_u16_digits 0 (show_nat (unat p)) = Inr p"
    using parse_u16_digits_value[OF d, of 0] digits_value_show_nat[of "unat p"] by (simp add: digits_value_def)
  then show ?thesis using c by (simp add: parse_port_def s)
qed

end
