(* ===== verification/Http3_Engine.thy ===== *)
theory Http3_Engine
  imports Rust_Case Ws_Engine
begin

text \<open>
  The HTTP/3 engine (\<open>protocols/http3.rs\<close>): its construction from an address, the connection paths, the request, the
  stateless iteration and the iteration of a persistent session with migration and reconnection.
  Parsing an address, the endpoint, the handshake and the streams belong to other crates: their results are fields of
  records, functions of what the engine hands over.  Clock readings and path statistics are fields as well.
\<close>

section \<open>The engine\<close>

text \<open>A parsed address: host with its brackets, port and path, each if present.\<close>

record h3_uri =
  h3u_host :: "string option"
  h3u_port :: "u16 option"
  h3u_path_and_query :: "string option"

record http3_engine =
  h3e_endpoint :: bool
  h3e_server_name :: string
  h3e_authority :: string
  h3e_path :: string
  h3e_method :: string
  h3e_headers :: "(string \<times> string) list"
  h3e_body :: "bytes option"
  h3e_chaos :: chaos_engine
  h3e_max_idle_timeout_ms :: "u64 option"
  h3e_zero_rtt :: bool
  h3e_migrate :: bool
  h3e_migrate_every :: u64
  h3e_extra_roots_der :: "bytes option"

text \<open>\<open>str::replacen\<close> with the count 1, and \<open>str::strip_suffix\<close>.\<close>

definition replace_first :: "string \<Rightarrow> string \<Rightarrow> string \<Rightarrow> string" where
  "replace_first s pat to =
     (case str_find s pat of None \<Rightarrow> s | Some i \<Rightarrow> take i s @ to @ drop (i + length pat) s)"

definition strip_suffix :: "string \<Rightarrow> string \<Rightarrow> string option" where
  "strip_suffix s p = map_option rev (strip_prefix (rev s) (rev p))"

definition h3_rewrite :: "string \<Rightarrow> string" where
  "h3_rewrite url =
     (if starts_with url ''h3://'' then replace_first url ''h3://'' ''https://''
      else if starts_with url ''http3://'' then replace_first url ''http3://'' ''https://''
      else url)"

definition h3_server_name :: "string \<Rightarrow> string" where
  "h3_server_name host =
     (case Option.bind (strip_prefix host ''['') (\<lambda>h. strip_suffix h '']'') of Some h \<Rightarrow> h | None \<Rightarrow> host)"

definition h3_methods :: "string list" where
  "h3_methods = [''GET'', ''POST'', ''PUT'', ''DELETE'', ''PATCH'', ''HEAD'', ''OPTIONS'']"

definition http3_engine_new ::
    "(string \<Rightarrow> string + h3_uri) \<Rightarrow> string \<Rightarrow> (string \<times> string) list \<Rightarrow> string \<Rightarrow> bytes option \<Rightarrow> chaos_engine \<Rightarrow>
     u64 option \<Rightarrow> bool \<Rightarrow> string + http3_engine" where
  "http3_engine_new parse_uri url headers m body chaos max_idle_timeout_ms zero_rtt =
     (case parse_uri (h3_rewrite url) of
        Inl e \<Rightarrow> Inl (''invalid HTTP/3 URL: '' @ e)
      | Inr parsed \<Rightarrow>
          (case h3u_host parsed of
             None \<Rightarrow> Inl ''URL missing host''
           | Some host \<Rightarrow>
               (let port = (case h3u_port parsed of Some p \<Rightarrow> p | None \<Rightarrow> 443);
                    path = (case h3u_path_and_query parsed of Some p \<Rightarrow> p | None \<Rightarrow> ''/'');
                    server_name = h3_server_name host;
                    authority = host @ '':'' @ show_nat (unat port)
                in case to_uppercase m of
                     Some u \<Rightarrow>
                       (if u \<in> set h3_methods
                        then Inr \<lparr>h3e_endpoint = False, h3e_server_name = server_name, h3e_authority = authority, h3e_path = path,
                                  h3e_method = u, h3e_headers = headers, h3e_body = body, h3e_chaos = chaos,
                                  h3e_max_idle_timeout_ms = max_idle_timeout_ms, h3e_zero_rtt = zero_rtt, h3e_migrate = False,
                                  h3e_migrate_every = 50, h3e_extra_roots_der = None\<rparr>
                        else Inl (''invalid HTTP method: '' @ m))
                   | None \<Rightarrow> Inl (''invalid HTTP method: '' @ m))))"

definition with_migration :: "bool \<Rightarrow> u64 \<Rightarrow> http3_engine \<Rightarrow> http3_engine" where
  "with_migration migrate every e = e\<lparr>h3e_migrate := migrate, h3e_migrate_every := max every 1\<rparr>"

definition with_test_ca :: "bytes \<Rightarrow> http3_engine \<Rightarrow> http3_engine" where
  "with_test_ca der e = e\<lparr>h3e_extra_roots_der := Some der\<rparr>"

section \<open>Connections\<close>

text \<open>\<open>str::rsplit_once\<close> on an ASCII character.\<close>

definition rsplit_once :: "char \<Rightarrow> string \<Rightarrow> (string \<times> string) option" where
  "rsplit_once c s = map_option (\<lambda>(a, b). (rev b, rev a)) (split_once c (rev s))"

definition bad_port :: "string \<Rightarrow> string \<Rightarrow> string" where
  "bad_port authority e = ''invalid port in authority '' @ authority @ '': '' @ e"

definition split_authority :: "string \<Rightarrow> string + string \<times> u16" where
  "split_authority authority =
     (case strip_prefix authority ''['' of
        Some rest \<Rightarrow>
          (case split_once (CHR '']'') rest of
             None \<Rightarrow> Inl (''invalid IPv6 authority: '' @ authority)
           | Some (host, rest) \<Rightarrow>
               (if rest = [] then Inr (host, 443)
                else case strip_prefix rest '':'' of
                  None \<Rightarrow> Inl (''invalid authority: '' @ authority)
                | Some p \<Rightarrow>
                    (case parse_port p of Inl e \<Rightarrow> Inl (bad_port authority e) | Inr port \<Rightarrow> Inr (host, port))))
      | None \<Rightarrow>
          (case rsplit_once (CHR '':'') authority of
             Some (host, port) \<Rightarrow>
               (case parse_port port of Inl e \<Rightarrow> Inl (bad_port authority e) | Inr port \<Rightarrow> Inr (host, port))
           | None \<Rightarrow> Inr (authority, 443)))"

text \<open>What the engine sets up for its endpoint.\<close>

record h3_endpoint_config =
  h3x_bind :: string
  h3x_extra_root :: "bytes option"
  h3x_alpn :: "string list"
  h3x_resumption_sessions :: nat
  h3x_early_data :: bool
  h3x_idle_timeout :: duration
  h3x_bidi_streams :: u32
  h3x_uni_streams :: u32

definition h3_endpoint_config_of :: "http3_engine \<Rightarrow> h3_endpoint_config" where
  "h3_endpoint_config_of e =
     \<lparr>h3x_bind = ''0.0.0.0:0'', h3x_extra_root = h3e_extra_roots_der e, h3x_alpn = [''h3''], h3x_resumption_sessions = 256,
      h3x_early_data = h3e_zero_rtt e,
      h3x_idle_timeout =
        from_millis (unat (min (case h3e_max_idle_timeout_ms e of Some ms \<Rightarrow> ms | None \<Rightarrow> 30000) 16383)),
      h3x_bidi_streams = 100, h3x_uni_streams = 100\<rparr>"

record h3_request =
  h3q_method :: string
  h3q_uri :: string
  h3q_headers :: "(string \<times> string) list"

text \<open>
  One exchange on a stream: opening it, sending the body, finishing, the status and the chunks of the answer, each with
  its error.
\<close>

record h3_exchange =
  h3x_open :: "string + unit"
  h3x_send_data :: "string + unit"
  h3x_finish :: "string + unit"
  h3x_response :: "string + u16"
  h3x_data :: "(string + bytes) list"

type_synonym h3_wire = "h3_request \<Rightarrow> bytes option \<Rightarrow> h3_exchange"

text \<open>
  What a connection attempt meets: the endpoint, the addresses, the start of the connection, early data (with the
  verdict of the server, if it was possible), the handshake (\<open>None\<close> when it takes five seconds), the set-up of the
  HTTP/3 layer, and the connection itself.
\<close>

record h3_attempt =
  h3a_endpoint :: "h3_endpoint_config \<Rightarrow> string + unit"
  h3a_lookup :: "string \<Rightarrow> u16 \<Rightarrow> string + string list"
  h3a_dns_us :: u64
  h3a_connect :: "string \<Rightarrow> string \<Rightarrow> string + unit"
  h3a_zero_rtt :: "bool option"
  h3a_handshake :: "(string + unit) option"
  h3a_setup :: "string + unit"
  h3a_wire :: h3_wire

definition ensure_endpoint :: "h3_attempt \<Rightarrow> http3_engine \<Rightarrow> http3_engine \<times> (string + unit)" where
  "ensure_endpoint a e =
     (if h3e_endpoint e then (e, Inr ())
      else case h3a_endpoint a (h3_endpoint_config_of e) of
             Inl err \<Rightarrow> (e, Inl err)
           | Inr _ \<Rightarrow> (e\<lparr>h3e_endpoint := True\<rparr>, Inr ()))"

definition connect_quic_connecting :: "h3_attempt \<Rightarrow> http3_engine \<Rightarrow> http3_engine \<times> (string + u64)" where
  "connect_quic_connecting a e =
     (case ensure_endpoint a e of
        (e, Inl err) \<Rightarrow> (e, Inl err)
      | (e, Inr _) \<Rightarrow>
          (e, case split_authority (h3e_authority e) of
                Inl err \<Rightarrow> Inl err
              | Inr (host, port) \<Rightarrow>
                  (case h3a_lookup a host port of
                     Inl err \<Rightarrow> Inl (''DNS resolution failed: '' @ err)
                   | Inr [] \<Rightarrow> Inl ''no addresses found for host''
                   | Inr (addr # _) \<Rightarrow>
                       (case h3a_connect a addr (h3e_server_name e) of
                          Inl err \<Rightarrow> Inl (''QUIC connect error: '' @ err)
                        | Inr _ \<Rightarrow> Inr (h3a_dns_us a)))))"

definition h3_handshake :: "h3_attempt \<Rightarrow> string + unit" where
  "h3_handshake a =
     (case h3a_handshake a of
        None \<Rightarrow> Inl ''QUIC handshake timed out''
      | Some (Inl err) \<Rightarrow> Inl (''QUIC handshake failed: '' @ err)
      | Some (Inr _) \<Rightarrow> Inr ())"

definition connect_quic :: "h3_attempt \<Rightarrow> http3_engine \<Rightarrow> http3_engine \<times> (string + u64)" where
  "connect_quic a e =
     (case connect_quic_connecting a e of
        (e, Inl err) \<Rightarrow> (e, Inl err)
      | (e, Inr dns_us) \<Rightarrow> (e, case h3_handshake a of Inl err \<Rightarrow> Inl err | Inr _ \<Rightarrow> Inr dns_us))"

text \<open>Whether early data was accepted, and whether the connection used it.\<close>

definition connect_with_0rtt :: "h3_attempt \<Rightarrow> http3_engine \<Rightarrow> string + bool option \<times> bool" where
  "connect_with_0rtt a e =
     (case (if h3e_zero_rtt e then h3a_zero_rtt a else None) of
        Some accepted \<Rightarrow> Inr (Some accepted, True)
      | None \<Rightarrow> (case h3_handshake a of Inl err \<Rightarrow> Inl err | Inr _ \<Rightarrow> Inr (None, False)))"

definition setup_h3 :: "h3_attempt \<Rightarrow> string + h3_wire" where
  "setup_h3 a = (case h3a_setup a of Inl err \<Rightarrow> Inl (''H3 connection setup failed: '' @ err) | Inr _ \<Rightarrow> Inr (h3a_wire a))"

section \<open>Requests\<close>

text \<open>What one iteration meets besides connecting.  \<open>h3n_header\<close> is the header, if its name and value are valid.\<close>

record h3_net =
  h3n_header :: "string \<Rightarrow> string \<Rightarrow> (string \<times> string) option"
  h3n_request :: "h3_request \<Rightarrow> string + unit"
  h3n_latency_us :: u128
  h3n_connect_us :: u128

definition build_request :: "h3_net \<Rightarrow> http3_engine \<Rightarrow> string + h3_request" where
  "build_request net e =
     (let r = \<lparr>h3q_method = h3e_method e, h3q_uri = ''https://'' @ h3e_authority e @ h3e_path e,
               h3q_headers = List.map_filter (\<lambda>(k, v). h3n_header net k v) (h3e_headers e)\<rparr>
      in case h3n_request net r of Inl err \<Rightarrow> Inl (''failed to build request: '' @ err) | Inr _ \<Rightarrow> Inr r)"

fun h3_receive :: "u64 \<Rightarrow> (string + bytes) list \<Rightarrow> string + u64" where
  "h3_receive total_bytes [] = Inr total_bytes"
| "h3_receive total_bytes (Inr chunk # rest) = h3_receive (total_bytes + of_nat (length chunk)) rest"
| "h3_receive total_bytes (Inl err # rest) = Inl (''failed to receive H3 data: '' @ err)"

definition h3_answer :: "h3_exchange \<Rightarrow> string + u16 \<times> u64" where
  "h3_answer x =
     (case h3x_response x of
        Inl err \<Rightarrow> Inl (''failed to receive H3 response: '' @ err)
      | Inr status \<Rightarrow>
          (case h3_receive 0 (h3x_data x) of Inl err \<Rightarrow> Inl err | Inr total_bytes \<Rightarrow> Inr (status, total_bytes)))"

definition send_request_on_conn :: "h3_net \<Rightarrow> h3_wire \<Rightarrow> http3_engine \<Rightarrow> string + u16 \<times> u64" where
  "send_request_on_conn net wire e =
     (case build_request net e of
        Inl err \<Rightarrow> Inl err
      | Inr request \<Rightarrow>
          (let x = wire request (h3e_body e)
           in case h3x_open x of
                Inl err \<Rightarrow> Inl (''failed to open H3 stream: '' @ err)
              | Inr _ \<Rightarrow>
                  (case (if h3e_body e \<noteq> None then h3x_send_data x else Inr ()) of
                     Inl err \<Rightarrow> Inl (''failed to send H3 body: '' @ err)
                   | Inr _ \<Rightarrow>
                       (case h3x_finish x of
                          Inl err \<Rightarrow> Inl (''failed to finish H3 stream: '' @ err)
                        | Inr _ \<Rightarrow> h3_answer x))))"

definition send_corrupted_request :: "h3_net \<Rightarrow> h3_wire \<Rightarrow> http3_engine \<Rightarrow> string + u16 \<times> u64" where
  "send_corrupted_request net wire e =
     (case build_request net e of
        Inl err \<Rightarrow> Inl err
      | Inr request \<Rightarrow>
          (let x = wire request (Some corrupted_frame)
           in case h3x_open x of
                Inl err \<Rightarrow> Inl (''failed to open H3 stream: '' @ err)
              | Inr _ \<Rightarrow>
                  (case h3x_send_data x of
                     Inl err \<Rightarrow> Inl (''failed to send corrupted H3 body: '' @ err)
                   | Inr _ \<Rightarrow>
                       (case h3x_finish x of
                          Inl err \<Rightarrow> Inl (''failed to finish corrupted H3 stream: '' @ err)
                        | Inr _ \<Rightarrow> h3_answer x))))"

definition or_failed :: "string + u16 \<times> u64 \<Rightarrow> u16 \<times> u64" where
  "or_failed r = (case r of Inr v \<Rightarrow> v | Inl _ \<Rightarrow> (0, 0))"

section \<open>Iterations\<close>

text \<open>The path statistics of a connection: window and lost packets.\<close>

record h3_stats =
  h3p_cwnd :: u64
  h3p_lost_packets :: u64

definition http3_execute_iteration ::
    "h3_net \<Rightarrow> h3_attempt \<Rightarrow> h3_stats \<Rightarrow> chaos_fault option \<Rightarrow> http3_engine \<Rightarrow> http3_engine \<times> request_metric" where
  "http3_execute_iteration net a stats fault e =
     (let failed = rm_error (h3n_latency_us net) fault
      in if fault = Some ConnectionDrop then (e, failed)
         else case (if h3e_zero_rtt e
                    then (case connect_quic_connecting a e of
                            (e, Inl err) \<Rightarrow> (e, Inl err)
                          | (e, Inr dns_us) \<Rightarrow>
                              (e, map_sum id (\<lambda>(_, is_0rtt). (dns_us, is_0rtt)) (connect_with_0rtt a e)))
                    else (case connect_quic a e of (e, r) \<Rightarrow> (e, map_sum id (\<lambda>dns_us. (dns_us, False)) r))) of
                (e, Inl err) \<Rightarrow> (e, failed)
              | (e, Inr (dns_us, used_0rtt)) \<Rightarrow>
                  (case setup_h3 a of
                     Inl err \<Rightarrow> (e, failed)
                   | Inr wire \<Rightarrow>
                       (let result = or_failed (if fault = Some CorruptedPayload then send_corrupted_request net wire e
                                                else send_request_on_conn net wire e)
                        in (e, with_http3 (Some \<lparr>h3s_cwnd_bytes = h3p_cwnd stats, h3s_migrations_attempted = 0, h3s_migrations_successful = 0\<rparr>)
                                 (with_quic (Some (ucast (h3n_connect_us net))) used_0rtt (Some (h3p_lost_packets stats))
                                   (with_dns_resolution_us (Some dns_us)
                                     (with_connection_latency_us (Some (h3n_connect_us net))
                                       (with_bytes (snd result) (with_status (fst result) (rm_builder (h3n_latency_us net) fault))))))))))"

text \<open>
  A session.  Its connections are numbered from 0 and the one in use is the last.
\<close>

record http3_session =
  h3c_conn :: nat
  h3c_zero_rtt_accepted :: "bool option"
  h3c_prev_lost_packets :: u64
  h3c_initial_dns_resolution_us :: u64
  h3c_iterations :: u64

definition http3_create_worker_context :: "h3_attempt \<Rightarrow> http3_engine \<Rightarrow> http3_engine \<times> http3_session option" where
  "http3_create_worker_context a e =
     (case connect_quic_connecting a e of
        (e, Inl _) \<Rightarrow> (e, None)
      | (e, Inr dns_us) \<Rightarrow>
          (case (connect_with_0rtt a e, setup_h3 a) of
             (Inr (zero_rtt_accepted, _), Inr _) \<Rightarrow>
               (e, Some \<lparr>h3c_conn = 0, h3c_zero_rtt_accepted = zero_rtt_accepted, h3c_prev_lost_packets = 0,
                         h3c_initial_dns_resolution_us = dns_us, h3c_iterations = 0\<rparr>)
           | _ \<Rightarrow> (e, None)))"

text \<open>
  What an iteration of a session meets: the connection in use, a reconnection, binding the socket of a migration and
  rebinding the endpoint, and the statistics of each connection at the end.
\<close>

record h3_turn =
  h3t_net :: h3_net
  h3t_wire :: h3_wire
  h3t_attempt :: h3_attempt
  h3t_bind :: "string + unit"
  h3t_rebind :: bool
  h3t_stats :: "nat \<Rightarrow> h3_stats"

definition migration_attempted :: "h3_turn \<Rightarrow> http3_engine \<Rightarrow> http3_session \<Rightarrow> u64" where
  "migration_attempted t e s =
     (if h3e_migrate e \<and> unat (h3c_iterations s) mod unat (h3e_migrate_every e) = 0 \<and> h3e_endpoint e
      then (case h3t_bind t of Inr _ \<Rightarrow> (if h3t_rebind t then 1 else 0) | Inl _ \<Rightarrow> 0)
      else 0)"

definition h3_adopt :: "bool option \<Rightarrow> http3_session \<Rightarrow> http3_session" where
  "h3_adopt zero_rtt s = s\<lparr>h3c_conn := h3c_conn s + 1, h3c_zero_rtt_accepted := zero_rtt, h3c_prev_lost_packets := 0\<rparr>"

text \<open>The request of an iteration, with the reconnection and the second try; the handshake time if one was done.\<close>

definition h3_round_trip ::
    "h3_turn \<Rightarrow> http3_engine \<Rightarrow> http3_session \<Rightarrow>
     http3_engine \<times> http3_session \<times> (u16 \<times> u64) \<times> bool \<times> u64 option \<times> bool" where
  "h3_round_trip t e s =
     (let net = h3t_net t; a = h3t_attempt t
      in case send_request_on_conn net (h3t_wire t) e of
           Inr r \<Rightarrow> (e, s, r, False, None, False)
         | Inl _ \<Rightarrow>
             (case connect_quic_connecting a e of
                (e, Inl _) \<Rightarrow> (e, s, (0, 0), False, None, False)
              | (e, Inr _) \<Rightarrow>
                  (case connect_with_0rtt a e of
                     Inl _ \<Rightarrow> (e, s, (0, 0), False, None, False)
                   | Inr (zero_rtt, is_0rtt) \<Rightarrow>
                       (let handshake_us = Some (ucast (h3n_connect_us net))
                        in case setup_h3 a of
                             Inl _ \<Rightarrow> (e, s, (0, 0), False, handshake_us, is_0rtt)
                           | Inr wire \<Rightarrow>
                               (e, h3_adopt zero_rtt s, or_failed (send_request_on_conn net wire e), True, handshake_us, is_0rtt)))))"

definition h3_session_metric ::
    "u128 \<Rightarrow> chaos_fault option \<Rightarrow> u16 \<times> u64 \<Rightarrow> bool \<Rightarrow> u64 option \<Rightarrow> bool \<Rightarrow> u64 \<Rightarrow> http3_sample \<Rightarrow> request_metric" where
  "h3_session_metric latency fault result is_reconnect handshake_us used_0rtt retransmits sample =
     with_http3 (Some sample)
       (with_quic handshake_us used_0rtt (Some retransmits)
         (with_socket_reused (\<not> is_reconnect)
           (with_reconnect is_reconnect
             (with_bytes (snd result) (with_status (fst result) (rm_builder latency fault))))))"

definition http3_execute_with_context ::
    "h3_turn \<Rightarrow> chaos_fault option \<Rightarrow> http3_engine \<Rightarrow> http3_session \<Rightarrow> http3_engine \<times> http3_session \<times> request_metric" where
  "http3_execute_with_context t fault e s =
     (let net = h3t_net t
      in if fault = Some ConnectionDrop then (e, s, rm_error (h3n_latency_us net) fault)
         else let s = s\<lparr>h3c_iterations := h3c_iterations s + 1\<rparr>;
                  mig_att = migration_attempted t e s
              in case h3_round_trip t e s of
                   (e, s, result, is_reconnect, handshake_us, is_0rtt) \<Rightarrow>
                     (let stats = h3t_stats t (h3c_conn s);
                          lost = h3p_lost_packets stats;
                          retransmits = u64_saturating_sub lost (h3c_prev_lost_packets s);
                          s = s\<lparr>h3c_prev_lost_packets := lost\<rparr>;
                          mig_succ = (if mig_att = 1 \<and> \<not> is_reconnect \<and> fst result \<noteq> 0 then 1 else 0);
                          used_0rtt = (if \<not> is_0rtt \<and> h3c_zero_rtt_accepted s = Some True then True else is_0rtt)
                      in (e, s, h3_session_metric (h3n_latency_us net) fault result is_reconnect handshake_us used_0rtt retransmits
                                  \<lparr>h3s_cwnd_bytes = h3p_cwnd stats, h3s_migrations_attempted = mig_att, h3s_migrations_successful = mig_succ\<rparr>)))"

section \<open>The address of a test\<close>

lemma strip_prefix_append [simp]: "strip_prefix (p @ s) p = Some s"
  by (simp add: strip_prefix_def)

lemma strip_prefix_Cons [simp]: "strip_prefix (c # s) [c] = Some s"
  by (simp add: strip_prefix_def)

lemma strip_prefix_None: "\<not> starts_with s p \<Longrightarrow> strip_prefix s p = None"
  by (simp add: strip_prefix_def)

lemma replace_first_append: "replace_first (p @ s) p q = q @ s"
proof -
  have "str_find (p @ s) p = Some 0" by (subst str_find.simps) simp
  then show ?thesis by (simp add: replace_first_def)
qed

lemma h3_rewrite_scheme: "h3_rewrite (''h3://'' @ rest) = ''https://'' @ rest" "h3_rewrite (''http3://'' @ rest) = ''https://'' @ rest"
  using replace_first_append[of "''h3://''" rest "''https://''"] replace_first_append[of "''http3://''" rest "''https://''"]
  by (simp_all add: h3_rewrite_def)

lemma colon_not_digit: "CHR '':'' \<notin> set (show_nat n)"
  using show_nat_char[of "CHR '':''" n] by (auto simp: is_digit_def)

lemma rsplit_once_append: "c \<notin> set b \<Longrightarrow> rsplit_once c (a @ c # b) = Some (a, b)"
  using split_once_append[of c "rev b" "rev a"] by (simp add: rsplit_once_def)

lemma h3_authority_bracketed:
  assumes "CHR '']'' \<notin> set h"
  shows "split_authority ((''['' @ h @ '']'') @ '':'' @ show_nat (unat p)) = Inr (h, p) \<and> h3_server_name (''['' @ h @ '']'') = h"
  using split_once_append[OF assms, of "CHR '':'' # show_nat (unat p)"] parse_port_show_nat[of p]
  by (simp add: split_authority_def h3_server_name_def strip_suffix_def)

lemma h3_authority_plain:
  assumes "\<not> starts_with host ''[''"
  shows "split_authority (host @ '':'' @ show_nat (unat p)) = Inr (host, p) \<and> h3_server_name host = host"
proof -
  have "strip_prefix (host @ '':'' @ show_nat (unat p)) ''['' = None"
    using assms by (cases host) (simp_all add: strip_prefix_None)
  then show ?thesis
    using rsplit_once_append[OF colon_not_digit, of host "unat p"] assms parse_port_show_nat[of p]
    by (simp add: split_authority_def h3_server_name_def strip_prefix_None)
qed

text \<open>C38: the engine connects to the host and the port of the tested address: the authority it stores is taken apart
  again into the host, without the brackets of an IPv6 address, and the port or 443, for every port; the host is also
  the name checked by TLS.  The address parser of the URI crate gives a host that either carries no bracket in front or
  is a bracketed literal.\<close>

theorem h3_resolves_url:
  assumes "http3_engine_new parse_uri url headers m body chaos idle zero_rtt = Inr e"
    and "parse_uri (h3_rewrite url) = Inr u" and "h3u_host u = Some host"
    and "\<not> starts_with host ''['' \<or> (\<exists>h. host = ''['' @ h @ '']'' \<and> CHR '']'' \<notin> set h)"
  shows "split_authority (h3e_authority e) =
           Inr (h3e_server_name e, case h3u_port u of Some p \<Rightarrow> p | None \<Rightarrow> 443) \<and>
         (h3e_server_name e = host \<or> host = ''['' @ h3e_server_name e @ '']'')"
proof -
  have e: "h3e_authority e = host @ '':'' @ show_nat (unat (case h3u_port u of Some p \<Rightarrow> p | None \<Rightarrow> 443))"
    "h3e_server_name e = h3_server_name host"
    using assms(1-3) by (auto simp: http3_engine_new_def Let_def split: option.splits if_splits)
  from assms(4) show ?thesis unfolding e
  proof
    assume "\<not> starts_with host ''[''"
    then show "split_authority (host @ '':'' @ show_nat (unat (case h3u_port u of Some p \<Rightarrow> p | None \<Rightarrow> 443))) =
        Inr (h3_server_name host, case h3u_port u of Some p \<Rightarrow> p | None \<Rightarrow> 443) \<and>
        (h3_server_name host = host \<or> host = ''['' @ h3_server_name host @ '']'')"
      using h3_authority_plain by metis
  next
    assume "\<exists>h. host = ''['' @ h @ '']'' \<and> CHR '']'' \<notin> set h"
    then show "split_authority (host @ '':'' @ show_nat (unat (case h3u_port u of Some p \<Rightarrow> p | None \<Rightarrow> 443))) =
        Inr (h3_server_name host, case h3u_port u of Some p \<Rightarrow> p | None \<Rightarrow> 443) \<and>
        (h3_server_name host = host \<or> host = ''['' @ h3_server_name host @ '']'')"
      using h3_authority_bracketed by metis
  qed
qed

definition loopback_uri :: "string \<Rightarrow> string + h3_uri" where
  "loopback_uri url = Inr \<lparr>h3u_host = Some ''[::1]'', h3u_port = Some 8443, h3u_path_and_query = None\<rparr>"

definition loopback_engine :: "string + http3_engine" where
  "loopback_engine =
     http3_engine_new loopback_uri ''h3://[::1]:8443'' [] ''get'' None (chaos_engine_new False (Fin 0)) None False"

lemma loopback_engine_built: "\<exists>e. loopback_engine = Inr e"
proof -
  have "to_uppercase ''get'' = Some ''GET''" by code_simp
  then show ?thesis by (simp add: loopback_engine_def http3_engine_new_def loopback_uri_def h3_methods_def)
qed

theorem h3_resolves_url_witness:
  "\<exists>e. loopback_engine = Inr e \<and> split_authority (h3e_authority e) = Inr (h3e_server_name e, 8443) \<and>
     (h3e_server_name e = ''[::1]'' \<or> ''[::1]'' = ''['' @ h3e_server_name e @ '']'')"
proof -
  obtain e where e: "loopback_engine = Inr e" using loopback_engine_built by blast
  let ?u = "\<lparr>h3u_host = Some ''[::1]'', h3u_port = Some 8443, h3u_path_and_query = None\<rparr>"
  have "split_authority (h3e_authority e) = Inr (h3e_server_name e, case h3u_port ?u of Some p \<Rightarrow> p | None \<Rightarrow> 443) \<and>
     (h3e_server_name e = ''[::1]'' \<or> ''[::1]'' = ''['' @ h3e_server_name e @ '']'')"
  proof (rule h3_resolves_url)
    show "http3_engine_new loopback_uri ''h3://[::1]:8443'' [] ''get'' None (chaos_engine_new False (Fin 0)) None False = Inr e"
      using e by (simp add: loopback_engine_def)
    show "loopback_uri (h3_rewrite ''h3://[::1]:8443'') = Inr ?u" by (simp add: loopback_uri_def)
    show "h3u_host ?u = Some ''[::1]''" by simp
    show "\<not> starts_with ''[::1]'' ''['' \<or> (\<exists>h. ''[::1]'' = ''['' @ h @ '']'' \<and> CHR '']'' \<notin> set h)"
      by (rule disjI2, rule exI[of _ "''::1''"]) simp
  qed
  with e show ?thesis by auto
qed

section \<open>Losses and migrations of a session\<close>

definition m_retransmits :: "request_metric \<Rightarrow> nat" where
  "m_retransmits m = (case Option.bind (rm_quic m) qs_retransmits of Some n \<Rightarrow> unat n | None \<Rightarrow> 0)"

definition m_attempted :: "request_metric \<Rightarrow> nat" where
  "m_attempted m = (case rm_http3 m of Some h \<Rightarrow> unat (h3s_migrations_attempted h) | None \<Rightarrow> 0)"

definition m_successful :: "request_metric \<Rightarrow> nat" where
  "m_successful m = (case rm_http3 m of Some h \<Rightarrow> unat (h3s_migrations_successful h) | None \<Rightarrow> 0)"

lemmas m_defs = m_retransmits_def m_attempted_def m_successful_def rm_quic_def rm_http3_def

text \<open>The turns of a worker: the state at the end, and each metric with the session after its turn.\<close>

definition h3_step ::
    "http3_engine \<times> http3_session \<times> (http3_session \<times> request_metric) list \<Rightarrow> h3_turn \<times> chaos_fault option \<Rightarrow>
     http3_engine \<times> http3_session \<times> (http3_session \<times> request_metric) list" where
  "h3_step st turn =
     (case (st, turn) of
        ((e, s, out), (t, fault)) \<Rightarrow>
          (case http3_execute_with_context t fault e s of (e, s, m) \<Rightarrow> (e, s, out @ [(s, m)])))"

definition lost_at :: "h3_turn \<Rightarrow> nat \<Rightarrow> nat" where
  "lost_at t c = unat (h3p_lost_packets (h3t_stats t c))"

lemma error_metric_samples [simp]:
  "m_retransmits (rm_error l f) = 0" "m_attempted (rm_error l f) = 0" "m_successful (rm_error l f) = 0"
  by (simp_all add: m_defs rm_error_def rm_builder_def)

lemma connect_keeps_settings: "h3e_migrate_every (fst (connect_quic_connecting a e)) = h3e_migrate_every e"
  by (auto simp: connect_quic_connecting_def ensure_endpoint_def split: sum.splits prod.splits)

lemma h3_round_trip_cases:
  assumes "h3_round_trip t e s = (e', s', result, is_reconnect, hs, z)"
  shows "h3e_migrate_every e' = h3e_migrate_every e \<and>
    (if is_reconnect then \<exists>b. s' = h3_adopt b s else s' = s)"
proof -
  obtain e1 r where c: "connect_quic_connecting (h3t_attempt t) e = (e1, r)" by fastforce
  then have "h3e_migrate_every e1 = h3e_migrate_every e" using connect_keeps_settings[of "h3t_attempt t" e] by simp
  then show ?thesis
    using assms by (auto simp: h3_round_trip_def Let_def c split: sum.splits prod.splits)
qed

lemma h3_session_metric_samples:
  "m_retransmits (h3_session_metric l f r c h z n \<lparr>h3s_cwnd_bytes = w, h3s_migrations_attempted = x, h3s_migrations_successful = y\<rparr>) = unat n"
  "m_attempted (h3_session_metric l f r c h z n \<lparr>h3s_cwnd_bytes = w, h3s_migrations_attempted = x, h3s_migrations_successful = y\<rparr>) = unat x"
  "m_successful (h3_session_metric l f r c h z n \<lparr>h3s_cwnd_bytes = w, h3s_migrations_attempted = x, h3s_migrations_successful = y\<rparr>) = unat y"
  "rm_is_reconnect (h3_session_metric l f r c h z n sample) = c" "rm_status_code (h3_session_metric l f r c h z n sample) = fst r"
  by (simp_all add: h3_session_metric_def m_defs with_http3_def with_quic_def with_socket_reused_def with_reconnect_def
      with_bytes_def with_status_def rm_builder_def Let_def)

lemma unat_saturating_sub: "unat (u64_saturating_sub a b) = unat a - unat b"
  by (auto simp: u64_saturating_sub_def word_le_nat_alt unat_sub)

lemma migration_attempted_le:
  "unat (migration_attempted t e s) \<le> (if unat (h3c_iterations s) mod unat (h3e_migrate_every e) = 0 then 1 else 0)"
  by (auto simp: migration_attempted_def split: sum.splits)

text \<open>The effect of one turn on the counters: a dropped turn changes nothing.\<close>

lemma h3_turn_effect:
  assumes "http3_execute_with_context t fault e s = (e', s', m)"
  shows "h3e_migrate_every e' = h3e_migrate_every e \<and>
    (s' = s \<and> m = rm_error (h3n_latency_us (h3t_net t)) fault \<or>
     h3c_prev_lost_packets s' = h3p_lost_packets (h3t_stats t (h3c_conn s')) \<and> h3c_iterations s' = h3c_iterations s + 1 \<and>
     (h3c_conn s' = h3c_conn s \<and> m_retransmits m = lost_at t (h3c_conn s) - unat (h3c_prev_lost_packets s) \<or>
      h3c_conn s' = Suc (h3c_conn s) \<and> m_retransmits m = lost_at t (h3c_conn s')) \<and>
     m_attempted m \<le> (if unat (h3c_iterations s + 1) mod unat (h3e_migrate_every e) = 0 then 1 else 0) \<and>
     m_successful m \<le> (if \<not> rm_is_reconnect m \<and> rm_status_code m \<noteq> 0 then m_attempted m else 0))"
proof (cases "fault = Some ConnectionDrop")
  case True
  then show ?thesis using assms by (simp add: http3_execute_with_context_def Let_def)
next
  case False
  let ?s = "s\<lparr>h3c_iterations := h3c_iterations s + 1\<rparr>"
  obtain e1 s1 result rec hs z where r: "h3_round_trip t e ?s = (e1, s1, result, rec, hs, z)" by (metis prod_cases6)
  note effect = h3_round_trip_cases[OF r]
  have s': "e' = e1" "s' = s1\<lparr>h3c_prev_lost_packets := h3p_lost_packets (h3t_stats t (h3c_conn s1))\<rparr>"
    and m: "m = h3_session_metric (h3n_latency_us (h3t_net t)) fault result rec hs
      (if \<not> z \<and> h3c_zero_rtt_accepted s1 = Some True then True else z)
      (u64_saturating_sub (h3p_lost_packets (h3t_stats t (h3c_conn s1))) (h3c_prev_lost_packets s1))
      \<lparr>h3s_cwnd_bytes = h3p_cwnd (h3t_stats t (h3c_conn s1)), h3s_migrations_attempted = migration_attempted t e ?s,
       h3s_migrations_successful = (if migration_attempted t e ?s = 1 \<and> \<not> rec \<and> fst result \<noteq> 0 then 1 else 0)\<rparr>"
    using assms False r by (simp_all add: http3_execute_with_context_def Let_def)
  have "m_attempted m \<le> (if unat (h3c_iterations s + 1) mod unat (h3e_migrate_every e) = 0 then 1 else 0)"
    using migration_attempted_le[of t e ?s] by (simp add: m h3_session_metric_samples)
  moreover have "m_successful m \<le> (if \<not> rm_is_reconnect m \<and> rm_status_code m \<noteq> 0 then m_attempted m else 0)"
    by (simp add: m h3_session_metric_samples)
  moreover have "m_retransmits m = lost_at t (h3c_conn s1) - unat (h3c_prev_lost_packets s1)"
    by (simp add: m h3_session_metric_samples unat_saturating_sub lost_at_def)
  moreover have "s1 = ?s \<or> (\<exists>b. s1 = h3_adopt b ?s)" using effect by (cases rec) auto
  ultimately show ?thesis using effect by (auto simp: s' h3_adopt_def)
qed

text \<open>The metrics of one connection: what they add up to, and the last count of lost packets they saw.\<close>

definition of_conn :: "nat \<Rightarrow> (http3_session \<times> request_metric) list \<Rightarrow> (http3_session \<times> request_metric) list" where
  "of_conn c out = filter (\<lambda>x. h3c_conn (fst x) = c) out"

definition conn_retransmits :: "nat \<Rightarrow> (http3_session \<times> request_metric) list \<Rightarrow> nat" where
  "conn_retransmits c out = sum_list (map (m_retransmits \<circ> snd) (of_conn c out))"

definition conn_lost :: "nat \<Rightarrow> (http3_session \<times> request_metric) list \<Rightarrow> nat" where
  "conn_lost c out = (if of_conn c out = [] then 0 else unat (h3c_prev_lost_packets (fst (last (of_conn c out)))))"

lemma conn_snoc:
  "conn_retransmits c (out @ [(s, m)]) = conn_retransmits c out + (if h3c_conn s = c then m_retransmits m else 0)"
  "conn_lost c (out @ [(s, m)]) = (if h3c_conn s = c then unat (h3c_prev_lost_packets s) else conn_lost c out)"
  by (simp_all add: conn_retransmits_def conn_lost_def of_conn_def)

definition h3_account ::
    "(h3_turn \<times> chaos_fault option) list \<Rightarrow> http3_engine \<Rightarrow>
     http3_engine \<times> http3_session \<times> (http3_session \<times> request_metric) list \<Rightarrow> bool" where
  "h3_account turns e0 st \<longleftrightarrow>
     (case st of (e, s, out) \<Rightarrow>
        h3e_migrate_every e = h3e_migrate_every e0 \<and> unat (h3c_iterations s) \<le> length turns \<and>
        (h3c_prev_lost_packets s = 0 \<or> (\<exists>t\<in>set turns. unat (h3c_prev_lost_packets s) = lost_at (fst t) (h3c_conn s))) \<and>
        (\<forall>c. conn_retransmits c out = conn_lost c out) \<and> conn_lost (h3c_conn s) out = unat (h3c_prev_lost_packets s) \<and>
        (\<forall>c>h3c_conn s. conn_lost c out = 0) \<and>
        sum_list (map (m_attempted \<circ> snd) out) \<le> unat (h3c_iterations s) div unat (h3e_migrate_every e) \<and>
        list_all (\<lambda>x. m_successful (snd x) \<le> (if \<not> rm_is_reconnect (snd x) \<and> rm_status_code (snd x) \<noteq> 0 then m_attempted (snd x) else 0)) out)"

lemma h3_account_step:
  assumes inv: "h3_account turns e0 (e, s, out)" and len: "length turns < 2 ^ 64 - 1"
    and mono: "\<forall>t'\<in>set turns. \<forall>c. lost_at (fst t') c \<le> lost_at t c"
  shows "h3_account (turns @ [(t, fault)]) e0 (h3_step (e, s, out) (t, fault))"
proof -
  obtain e' s' m where x: "http3_execute_with_context t fault e s = (e', s', m)" by (metis prod_cases3)
  note effect = h3_turn_effect[OF x]
  have step: "h3_step (e, s, out) (t, fault) = (e', s', out @ [(s', m)])" by (simp add: h3_step_def x)
  have every: "h3e_migrate_every e' = h3e_migrate_every e" using effect by blast
  show ?thesis
  proof (cases "s' = s \<and> m = rm_error (h3n_latency_us (h3t_net t)) fault")
    case True
    then show ?thesis using inv every by (auto simp: step h3_account_def conn_snoc)
  next
    case False
    then have lost: "unat (h3c_prev_lost_packets s') = lost_at t (h3c_conn s')" and it: "h3c_iterations s' = h3c_iterations s + 1"
      and conn: "h3c_conn s' = h3c_conn s \<and> m_retransmits m = lost_at t (h3c_conn s) - unat (h3c_prev_lost_packets s) \<or>
         h3c_conn s' = Suc (h3c_conn s) \<and> m_retransmits m = lost_at t (h3c_conn s')"
      and att: "m_attempted m \<le> (if unat (h3c_iterations s + 1) mod unat (h3e_migrate_every e) = 0 then 1 else 0)"
      and succ: "m_successful m \<le> (if \<not> rm_is_reconnect m \<and> rm_status_code m \<noteq> 0 then m_attempted m else 0)"
      using effect by (auto simp: lost_at_def)
    have n: "unat (h3c_iterations s + 1) = Suc (unat (h3c_iterations s))"
      using inv len by (simp add: h3_account_def unat_word_ariths)
    have "unat (h3c_prev_lost_packets s) \<le> lost_at t (h3c_conn s)"
      using inv mono by (auto simp: h3_account_def)
    then have "\<forall>c. conn_retransmits c (out @ [(s', m)]) = conn_lost c (out @ [(s', m)])"
      using inv conn lost by (auto simp: h3_account_def conn_snoc)
    moreover have "sum_list (map (m_attempted \<circ> snd) (out @ [(s', m)])) \<le> unat (h3c_iterations s') div unat (h3e_migrate_every e')"
      using inv att by (simp add: h3_account_def it n every div_Suc split: if_splits)
    ultimately show ?thesis
      using inv every lost conn succ n it unfolding step by (auto simp: h3_account_def conn_snoc)
  qed
qed

lemma h3_account_run:
  assumes "h3c_prev_lost_packets s = 0" and "h3c_iterations s = 0" and "length turns < 2 ^ 64"
    and "sorted_wrt (\<lambda>t t'. \<forall>c. lost_at (fst t) c \<le> lost_at (fst t') c) turns"
  shows "h3_account turns e (foldl h3_step (e, s, []) turns)"
  using assms(3,4)
proof (induction turns rule: rev_induct)
  case Nil
  show ?case using assms(1,2) by (simp add: h3_account_def conn_retransmits_def conn_lost_def of_conn_def)
next
  case (snoc turn turns)
  obtain e' s' out where st: "foldl h3_step (e, s, []) turns = (e', s', out)" by (metis prod_cases3)
  obtain t fault where turn: "turn = (t, fault)" by (cases turn)
  have "h3_account turns e (e', s', out)" using snoc by (simp add: st sorted_wrt_append)
  moreover have "\<forall>t'\<in>set turns. \<forall>c. lost_at (fst t') c \<le> lost_at t c"
    using snoc.prems(2) by (simp add: sorted_wrt_append turn)
  ultimately show ?case using h3_account_step[of turns e e' s' out t fault] snoc.prems(1) by (simp add: st turn)
qed


text \<open>A server that answers every request, seen twice, with lost packets in between.\<close>

definition answered :: "nat \<Rightarrow> h3_turn" where
  "answered n =
     \<lparr>h3t_net = \<lparr>h3n_header = (\<lambda>k v. Some (k, v)), h3n_request = (\<lambda>_. Inr ()), h3n_latency_us = 9, h3n_connect_us = 0\<rparr>,
      h3t_wire = (\<lambda>_ _. \<lparr>h3x_open = Inr (), h3x_send_data = Inr (), h3x_finish = Inr (), h3x_response = Inr 200, h3x_data = []\<rparr>),
      h3t_attempt = \<lparr>h3a_endpoint = (\<lambda>_. Inr ()), h3a_lookup = (\<lambda>_ _. Inr []), h3a_dns_us = 0, h3a_connect = (\<lambda>_ _. Inr ()),
        h3a_zero_rtt = None, h3a_handshake = None, h3a_setup = Inr (),
        h3a_wire = (\<lambda>_ _. \<lparr>h3x_open = Inr (), h3x_send_data = Inr (), h3x_finish = Inr (), h3x_response = Inr 200, h3x_data = []\<rparr>)\<rparr>,
      h3t_bind = Inr (), h3t_rebind = True,
      h3t_stats = (\<lambda>_. \<lparr>h3p_cwnd = 1, h3p_lost_packets = of_nat n\<rparr>)\<rparr>"

definition first_session :: http3_session where
  "first_session = \<lparr>h3c_conn = 0, h3c_zero_rtt_accepted = None, h3c_prev_lost_packets = 0, h3c_initial_dns_resolution_us = 3, h3c_iterations = 0\<rparr>"


end
