(* ===== verification/Protocols.thy ===== *)
theory Protocols
  imports Http3_Engine Sse_Engine Soap_Engine Db_Engine Graphql_Ws_Engine Grpc_Engine Stomp_Session Load_Profile
begin

text \<open>
  From a configuration to its engine: the detection of the protocol (\<open>protocols/mod.rs\<close>) and \<open>build_engine\<close>
  of \<open>lib.rs\<close> with the parsing of methods, bodies, forms and headers.
  What other crates decide (addresses, schemas, JSON, header names and values, the HTTP client) is a record of functions.
\<close>

section \<open>Engines and errors\<close>

datatype protocol_engine =
    EWs ws_engine
  | EGrpc grpc_engine
  | EGrpcH2 grpc_h2_engine
  | EHttp3 http3_engine
  | ESse sse_engine
  | EStomp stomp_engine
  | EDb db_engine
  | EHttp http_engine
  | EGraphql graphql_engine
  | EGraphqlWs graphql_ws_engine
  | ESoap soap_engine

datatype setup_error =
    SetupGrpc proto_error
  | SetupHttp3 string
  | SetupStomp string
  | SetupDb string

fun setup_error_text :: "setup_error \<Rightarrow> string" where
  "setup_error_text (SetupGrpc e) = ''gRPC setup failed: '' @ proto_error_text e"
| "setup_error_text (SetupHttp3 e) = ''HTTP/3 setup failed: '' @ e"
| "setup_error_text (SetupStomp e) = ''STOMP setup failed: '' @ e"
| "setup_error_text (SetupDb e) = ''database setup failed: '' @ e"

datatype py_error = PyValueError string | PyRuntimeError string | PyKeyboardInterrupt string

record crates =
  cr_codecs :: grpc_codecs
  cr_grpc_uri :: "string \<Rightarrow> string + string"
  cr_grpc_endpoint :: "string \<Rightarrow> string + string"
  cr_grpc_authority :: "string \<Rightarrow> string + string option"
  cr_h3_uri :: "string \<Rightarrow> string + h3_uri"
  cr_json_parse :: json_parse
  cr_json_print :: json_print
  cr_method :: "string \<Rightarrow> string option"
  cr_url_encode :: "string \<Rightarrow> string"
  cr_header_name :: "string \<Rightarrow> string + string"
  cr_header_value :: "string \<Rightarrow> string + string"
  cr_client :: "http_client \<Rightarrow> string + unit"

section \<open>Detection\<close>

definition is_protocol_url :: "string \<Rightarrow> bool" where
  "is_protocol_url url \<longleftrightarrow>
     starts_with url ''ws://'' \<or> starts_with url ''wss://'' \<or> starts_with url ''grpc://'' \<or> starts_with url ''grpcs://'' \<or>
     starts_with url ''http3://'' \<or> starts_with url ''h3://'' \<or> starts_with url ''sse://'' \<or> starts_with url ''sses://'' \<or>
     starts_with url ''stomp://'' \<or> starts_with url ''stomps://'' \<or> is_db_url url"

text \<open>The warnings about options that have no effect.\<close>

definition warn_reserved_options :: "test_config \<Rightarrow> string list" where
  "warn_reserved_options config =
     (if tg_grpc_use_reflection config
      then [''--grpc-use-reflection is recognized for forward-compatibility but not yet functional; ignoring''] else []) @
     (if tg_http3_enabled config
      then [''--http3 is recognized for forward-compatibility but not yet functional; use an http3:// URL scheme instead''] else []) @
     (if tg_ws_subscribers config \<noteq> None
      then [''--ws-subscribers is recognized for forward-compatibility but not yet functional; ignoring''] else [])"

definition or_default :: "'a \<Rightarrow> 'a option \<Rightarrow> 'a" where
  "or_default d x = (case x of Some v \<Rightarrow> v | None \<Rightarrow> d)"

definition detect_ws :: "test_config \<Rightarrow> chaos_engine \<Rightarrow> ws_engine" where
  "detect_ws config chaos =
     with_backpressure (tg_ws_max_buffer_bytes config) (tg_ws_backpressure_warn_ratio config)
       (with_role (tg_ws_role config) (tg_ws_publish_interval_ms config)
         (ws_engine_new (or_default [] (tg_headers config)) (tg_ws_mode config) (tg_ws_payload config) chaos (tg_timeout_secs config)
            (tg_ws_persistent config) (tg_ws_keepalive_secs config) (tg_ws_max_messages config)))"

definition detect_grpc :: "crates \<Rightarrow> string \<Rightarrow> test_config \<Rightarrow> chaos_engine \<Rightarrow> setup_error + protocol_engine" where
  "detect_grpc cr url config chaos =
     (if tg_grpc_h2_multiplex config \<and> starts_with url ''grpc://''
      then map_sum SetupGrpc EGrpcH2
             (grpc_h2_engine_new (cr_codecs cr) (cr_grpc_authority cr) url (or_default [] (tg_headers config)) chaos (tg_grpc_service config)
                (tg_grpc_method config) (tg_grpc_payload config) (tg_grpc_deadline_ms config) (tg_proto_path config))
      else map_sum SetupGrpc EGrpc
             (grpc_engine_new (cr_codecs cr) (cr_grpc_uri cr) (cr_grpc_endpoint cr) url (or_default [] (tg_headers config)) chaos
                (tg_grpc_service config) (tg_grpc_method config) (tg_grpc_payload config) (tg_grpc_deadline_ms config)
                (tg_proto_path config)))"

definition detect_http3 :: "crates \<Rightarrow> string \<Rightarrow> test_config \<Rightarrow> chaos_engine \<Rightarrow> setup_error + protocol_engine" where
  "detect_http3 cr url config chaos =
     map_sum SetupHttp3 (\<lambda>e. EHttp3 (with_migration (tg_http3_migrate config) (tg_http3_migrate_every config) e))
       (http3_engine_new (cr_h3_uri cr) url (or_default [] (tg_headers config)) (tg_method config) (tg_body config) chaos
          (tg_quic_max_idle_timeout_ms config) (tg_quic_zero_rtt config))"

definition detect_stomp :: "string \<Rightarrow> test_config \<Rightarrow> chaos_engine \<Rightarrow> setup_error + protocol_engine" where
  "detect_stomp url config chaos =
     map_sum SetupStomp EStomp
       (stomp_engine_new url (or_default [] (tg_stomp_destination config)) (tg_stomp_mode config) (tg_stomp_ack config)
          (tg_stomp_receipt config) (or_default [] (tg_stomp_message config)) (or_default [] (tg_stomp_headers config)) chaos
          (tg_timeout_secs config))"

definition run_pool_max :: "test_config \<Rightarrow> usize" where
  "run_pool_max config = max (or_default (tg_concurrency config) (tg_db_pool_size config)) 1"

definition detect_db :: "string \<Rightarrow> test_config \<Rightarrow> chaos_engine \<Rightarrow> setup_error + protocol_engine" where
  "detect_db url config chaos =
     map_sum SetupDb EDb
       (db_engine_new url (or_default [] (tg_db_query config)) (or_default [] (tg_db_params config)) (tg_db_fetch config)
          (or_default default_max_rows (tg_db_max_rows config)) (run_pool_max config) chaos (tg_timeout_secs config))"

definition detect_protocol :: "crates \<Rightarrow> string \<Rightarrow> test_config \<Rightarrow> chaos_engine \<Rightarrow> setup_error + protocol_engine" where
  "detect_protocol cr url config chaos =
     (if starts_with url ''ws://'' \<or> starts_with url ''wss://'' then Inr (EWs (detect_ws config chaos))
      else if starts_with url ''grpc://'' \<or> starts_with url ''grpcs://'' then detect_grpc cr url config chaos
      else if starts_with url ''http3://'' \<or> starts_with url ''h3://'' then detect_http3 cr url config chaos
      else if starts_with url ''sse://'' \<or> starts_with url ''sses://''
      then Inr (ESse (sse_engine_new (or_default [] (tg_headers config)) chaos (tg_sse_max_events config)))
      else if starts_with url ''stomp://'' \<or> starts_with url ''stomps://'' then detect_stomp url config chaos
      else if is_db_url url then detect_db url config chaos
      else if tg_sse_enabled config
      then Inr (ESse (sse_engine_new (or_default [] (tg_headers config)) chaos (tg_sse_max_events config)))
      else Inr (EHttp http_engine_new))"

section \<open>Building an engine\<close>

definition parse_method :: "crates \<Rightarrow> string \<Rightarrow> py_error + string" where
  "parse_method cr method_str =
     (case Option.bind (to_uppercase method_str) (cr_method cr) of
        Some m \<Rightarrow> Inr m
      | None \<Rightarrow> Inl (PyValueError (''Invalid HTTP method: '' @ method_str)))"

definition parse_body :: "string option \<Rightarrow> bytes option" where
  "parse_body body = body"

definition parse_form :: "crates \<Rightarrow> (string \<times> string) list option \<Rightarrow> bytes option" where
  "parse_form cr form =
     map_option (\<lambda>pairs. str_join ''&'' (map (\<lambda>(k, v). cr_url_encode cr k @ ''='' @ cr_url_encode cr v) pairs)) form"

text \<open>A header map is the list of its entries, names as the crate normalizes them.\<close>

type_synonym header_entries = "(string \<times> string) list"

fun parse_header_list :: "crates \<Rightarrow> header_entries \<Rightarrow> (string \<times> string) list \<Rightarrow> py_error + header_entries" where
  "parse_header_list cr header_map [] = Inr header_map"
| "parse_header_list cr header_map ((k, v) # h) =
     (case cr_header_name cr k of
        Inl e \<Rightarrow> Inl (PyValueError (''Invalid header name '' @ [CHR 0x27] @ k @ [CHR 0x27] @ '': '' @ e))
      | Inr name \<Rightarrow>
          (case cr_header_value cr v of
             Inl e \<Rightarrow> Inl (PyValueError (''Invalid header value for '' @ [CHR 0x27] @ k @ [CHR 0x27] @ '': '' @ e))
           | Inr val \<Rightarrow> parse_header_list cr (header_map @ [(name, val)]) h))"

definition parse_headers :: "crates \<Rightarrow> (string \<times> string) list option \<Rightarrow> py_error + header_entries" where
  "parse_headers cr headers = parse_header_list cr [] (or_default [] headers)"

definition contains_header :: "header_entries \<Rightarrow> string \<Rightarrow> bool" where
  "contains_header h name \<longleftrightarrow> name \<in> fst ` set h"

definition insert_absent :: "string \<Rightarrow> string \<Rightarrow> header_entries \<Rightarrow> header_entries" where
  "insert_absent name v h = (if contains_header h name then h else h @ [(name, v)])"

definition build_client :: "crates \<Rightarrow> usize \<Rightarrow> u64 \<Rightarrow> header_entries \<Rightarrow> py_error + http_client" where
  "build_client cr concurrency timeout_secs header_map =
     (let client = \<lparr>hc_pool_max_idle = concurrency, hc_timeout = from_secs (unat timeout_secs), hc_connect_timeout = from_secs 5,
                    hc_tcp_nodelay = True, hc_h2_keep_alive_interval = from_secs 10, hc_h2_keep_alive_timeout = from_secs 5,
                    hc_default_headers = header_map\<rparr>
      in case cr_client cr client of Inl e \<Rightarrow> Inl (PyRuntimeError e) | Inr _ \<Rightarrow> Inr client)"

definition build_graphql :: "crates \<Rightarrow> test_config \<Rightarrow> chaos_engine \<Rightarrow> usize \<Rightarrow> string \<Rightarrow> py_error + protocol_engine" where
  "build_graphql cr config chaos pool_size query =
     (if starts_with (tg_url config) ''ws://'' \<or> starts_with (tg_url config) ''wss://''
      then Inr (EGraphqlWs (graphql_ws_engine_new
                  \<lparr>sp_query = query, sp_variables = tg_graphql_variables config, sp_operation_name = tg_graphql_operation_name config\<rparr>
                  (or_default [] (tg_headers config)) chaos (tg_timeout_secs config)))
      else case build_payload (cr_json_parse cr) (cr_json_print cr) query (tg_graphql_variables config) (tg_graphql_operation_name config) of
        Inl e \<Rightarrow> Inl (PyValueError e)
      | Inr payload \<Rightarrow>
          (case parse_headers cr (tg_headers config) of
             Inl e \<Rightarrow> Inl e
           | Inr header_map \<Rightarrow>
               map_sum id (\<lambda>client. EGraphql (graphql_engine_new client payload chaos))
                 (build_client cr pool_size (tg_timeout_secs config) (insert_absent ''content-type'' ''application/json'' header_map))))"

definition soap_header_map :: "crates \<Rightarrow> test_config \<Rightarrow> header_entries \<Rightarrow> py_error + header_entries" where
  "soap_header_map cr config header_map =
     (let soap_headers = soap_request_headers_of (tg_soap_version config) (tg_soap_action config);
          header_map =
            (if contains_header header_map ''content-type'' then Inr header_map
             else case cr_header_value cr (srh_content_type soap_headers) of
               Inl e \<Rightarrow> Inl (PyValueError e)
             | Inr v \<Rightarrow> Inr (header_map @ [(''content-type'', v)]))
      in case header_map of
           Inl e \<Rightarrow> Inl e
         | Inr header_map \<Rightarrow>
             (case srh_soap_action soap_headers of
                None \<Rightarrow> Inr header_map
              | Some action \<Rightarrow>
                  (case cr_header_value cr ([CHR 0x22] @ action @ [CHR 0x22]) of
                     Inl e \<Rightarrow> Inl (PyValueError e)
                   | Inr v \<Rightarrow> Inr (insert_absent ''soapaction'' v header_map))))"

definition build_soap :: "crates \<Rightarrow> test_config \<Rightarrow> chaos_engine \<Rightarrow> usize \<Rightarrow> py_error + protocol_engine" where
  "build_soap cr config chaos pool_size =
     (case parse_headers cr (tg_headers config) of
        Inl e \<Rightarrow> Inl e
      | Inr header_map \<Rightarrow>
          (case soap_header_map cr config header_map of
             Inl e \<Rightarrow> Inl e
           | Inr header_map \<Rightarrow>
               map_sum id (\<lambda>client. ESoap (soap_engine_new client (or_default [] (tg_body config)) chaos))
                 (build_client cr pool_size (tg_timeout_secs config) header_map)))"

definition build_http :: "crates \<Rightarrow> test_config \<Rightarrow> chaos_engine \<Rightarrow> usize \<Rightarrow> py_error + protocol_engine" where
  "build_http cr config chaos pool_size =
     (case parse_method cr (tg_method config) of
        Inl e \<Rightarrow> Inl e
      | Inr m \<Rightarrow>
          (let body = parse_body (tg_body config);
               form = parse_form cr (tg_form config)
           in case parse_headers cr (tg_headers config) of
                Inl e \<Rightarrow> Inl e
              | Inr header_map \<Rightarrow>
                  (if form \<noteq> None \<and> body \<noteq> None
                   then Inl (PyValueError ''Cannot specify both --body and --form simultaneously'')
                   else let final_body = (if form \<noteq> None then form else body);
                            header_map =
                              (if final_body \<noteq> None
                               then insert_absent ''content-type''
                                      (if form \<noteq> None then ''application/x-www-form-urlencoded'' else ''application/json'') header_map
                               else header_map)
                        in map_sum id
                             (\<lambda>client. EHttp (http_with_chaos chaos (http_with_body final_body (http_with_method m
                                               (http_with_client client http_engine_new)))))
                             (build_client cr pool_size (tg_timeout_secs config) header_map))))"

definition build_engine :: "crates \<Rightarrow> test_config \<Rightarrow> chaos_engine \<Rightarrow> usize \<Rightarrow> py_error + protocol_engine" where
  "build_engine cr config chaos pool_size =
     (case tg_graphql_query config of
        Some query \<Rightarrow> build_graphql cr config chaos pool_size query
      | None \<Rightarrow>
          (if tg_soap_enabled config then build_soap cr config chaos pool_size
           else if is_protocol_url (tg_url config) \<or> tg_sse_enabled config
           then map_sum (\<lambda>e. PyValueError (setup_error_text e)) id (detect_protocol cr (tg_url config) config chaos)
           else build_http cr config chaos pool_size))"

section \<open>The engine a configuration gets\<close>

datatype engine_kind = KWs | KGrpc | KHttp3 | KSse | KStomp | KDb | KHttp | KGraphql | KGraphqlWs | KSoap

fun kind_of :: "protocol_engine \<Rightarrow> engine_kind" where
  "kind_of (EWs _) = KWs"
| "kind_of (EGrpc _) = KGrpc"
| "kind_of (EGrpcH2 _) = KGrpc"
| "kind_of (EHttp3 _) = KHttp3"
| "kind_of (ESse _) = KSse"
| "kind_of (EStomp _) = KStomp"
| "kind_of (EDb _) = KDb"
| "kind_of (EHttp _) = KHttp"
| "kind_of (EGraphql _) = KGraphql"
| "kind_of (EGraphqlWs _) = KGraphqlWs"
| "kind_of (ESoap _) = KSoap"

fun chaos_of :: "protocol_engine \<Rightarrow> chaos_engine" where
  "chaos_of (EWs e) = wse_chaos e"
| "chaos_of (EGrpc e) = gre_chaos e"
| "chaos_of (EGrpcH2 e) = h2e_chaos e"
| "chaos_of (EHttp3 e) = h3e_chaos e"
| "chaos_of (ESse e) = seg_chaos e"
| "chaos_of (EStomp e) = sg_chaos e"
| "chaos_of (EDb e) = dbe_chaos e"
| "chaos_of (EHttp e) = he_chaos e"
| "chaos_of (EGraphql e) = gqe_chaos e"
| "chaos_of (EGraphqlWs e) = gwe_chaos e"
| "chaos_of (ESoap e) = spe_chaos e"

text \<open>The schemes, in no particular order.\<close>

definition scheme_table :: "(string \<times> engine_kind) list" where
  "scheme_table =
     [(''sqlite:'', KDb), (''mariadb://'', KDb), (''mysql://'', KDb), (''postgresql://'', KDb), (''postgres://'', KDb),
      (''stomps://'', KStomp), (''stomp://'', KStomp), (''sses://'', KSse), (''sse://'', KSse), (''h3://'', KHttp3), (''http3://'', KHttp3),
      (''grpcs://'', KGrpc), (''grpc://'', KGrpc), (''wss://'', KWs), (''ws://'', KWs)]"

definition scheme_kind :: "string \<Rightarrow> engine_kind option" where
  "scheme_kind url = map_option snd (find (\<lambda>(p, _). starts_with url p) scheme_table)"

definition expected_kind :: "test_config \<Rightarrow> engine_kind" where
  "expected_kind c =
     (if tg_graphql_query c \<noteq> None then (if scheme_kind (tg_url c) = Some KWs then KGraphqlWs else KGraphql)
      else if tg_soap_enabled c then KSoap
      else case scheme_kind (tg_url c) of Some k \<Rightarrow> k | None \<Rightarrow> if tg_sse_enabled c then KSse else KHttp)"

lemma starts_with_comparable: "starts_with s p \<Longrightarrow> starts_with s q \<Longrightarrow> starts_with p q \<or> starts_with q p"
  by (auto simp: starts_with_iff append_eq_append_conv2)

text \<open>No two schemes of different kinds start alike, so the order in which they are tried does not matter.\<close>

lemma scheme_table_exclusive:
  assumes "(p, k) \<in> set scheme_table" and "(q, k') \<in> set scheme_table" and "starts_with url p" and "starts_with url q"
  shows "k = k'"
proof -
  have "\<forall>x\<in>set scheme_table. \<forall>y\<in>set scheme_table. starts_with (fst x) (fst y) \<longrightarrow> snd x = snd y"
    by (simp add: scheme_table_def)
  then show ?thesis using assms starts_with_comparable[OF assms(3,4)] by force
qed

lemma scheme_kind_iff: "scheme_kind url = Some k \<longleftrightarrow> (\<exists>p. (p, k) \<in> set scheme_table \<and> starts_with url p)"
proof
  assume "scheme_kind url = Some k"
  then obtain p where "find (\<lambda>(p, _). starts_with url p) scheme_table = Some (p, k)" by (auto simp: scheme_kind_def)
  then show "\<exists>p. (p, k) \<in> set scheme_table \<and> starts_with url p" by (auto simp: find_Some_iff) (metis nth_mem)
next
  assume "\<exists>p. (p, k) \<in> set scheme_table \<and> starts_with url p"
  then obtain p where p: "(p, k) \<in> set scheme_table" "starts_with url p" by blast
  then obtain q k' where q: "find (\<lambda>(p, _). starts_with url p) scheme_table = Some (q, k')"
    by (cases "find (\<lambda>(p, _). starts_with url p) scheme_table") (auto simp: find_None_iff)
  then have "(q, k') \<in> set scheme_table" "starts_with url q" by (auto simp: find_Some_iff) (metis nth_mem)
  then have "k' = k" using scheme_table_exclusive p by blast
  then show "scheme_kind url = Some k" using q by (simp add: scheme_kind_def)
qed

lemma scheme_kind_cases:
  "scheme_kind url = Some KWs \<longleftrightarrow> starts_with url ''ws://'' \<or> starts_with url ''wss://''"
  "scheme_kind url = Some KGrpc \<longleftrightarrow> starts_with url ''grpc://'' \<or> starts_with url ''grpcs://''"
  "scheme_kind url = Some KHttp3 \<longleftrightarrow> starts_with url ''http3://'' \<or> starts_with url ''h3://''"
  "scheme_kind url = Some KSse \<longleftrightarrow> starts_with url ''sse://'' \<or> starts_with url ''sses://''"
  "scheme_kind url = Some KStomp \<longleftrightarrow> starts_with url ''stomp://'' \<or> starts_with url ''stomps://''"
  "scheme_kind url = Some KDb \<longleftrightarrow> is_db_url url"
  unfolding scheme_kind_iff by (auto simp: scheme_table_def is_db_url_def db_driver_from_url_def)

lemma scheme_kind_None: "scheme_kind url = None \<longleftrightarrow> \<not> is_protocol_url url"
  by (auto simp: scheme_kind_def find_None_iff scheme_table_def is_protocol_url_def is_db_url_def db_driver_from_url_def)

lemma detect_kinds:
  "detect_grpc cr url c ch = Inr e \<Longrightarrow> kind_of e = KGrpc \<and> chaos_of e = ch"
  "detect_http3 cr url c ch = Inr e \<Longrightarrow> kind_of e = KHttp3 \<and> chaos_of e = ch"
  "detect_stomp url c ch = Inr e \<Longrightarrow> kind_of e = KStomp \<and> chaos_of e = ch"
  "detect_db url c ch = Inr e \<Longrightarrow> kind_of e = KDb \<and> chaos_of e = ch"
  by (auto simp: detect_grpc_def grpc_engine_new_def grpc_h2_engine_new_def Let_def split: if_splits sum.splits option.splits)
    (auto simp: detect_http3_def http3_engine_new_def Let_def with_migration_def detect_stomp_def stomp_engine_new_def detect_db_def
      db_engine_new_def split: if_splits sum.splits option.splits)

lemma scheme_kind_range: "scheme_kind url = Some k \<Longrightarrow> k \<in> {KWs, KGrpc, KHttp3, KSse, KStomp, KDb}"
  unfolding scheme_kind_iff by (auto simp: scheme_table_def)

text \<open>The chain of tests is a lookup of the scheme.\<close>

lemma detect_protocol_lookup:
  "detect_protocol cr url c ch =
     (case scheme_kind url of
        Some KWs \<Rightarrow> Inr (EWs (detect_ws c ch))
      | Some KGrpc \<Rightarrow> detect_grpc cr url c ch
      | Some KHttp3 \<Rightarrow> detect_http3 cr url c ch
      | Some KStomp \<Rightarrow> detect_stomp url c ch
      | Some KDb \<Rightarrow> detect_db url c ch
      | Some _ \<Rightarrow> Inr (ESse (sse_engine_new (or_default [] (tg_headers c)) ch (tg_sse_max_events c)))
      | None \<Rightarrow> Inr (if tg_sse_enabled c then ESse (sse_engine_new (or_default [] (tg_headers c)) ch (tg_sse_max_events c))
                    else EHttp http_engine_new))"
proof (cases "scheme_kind url")
  case None
  then show ?thesis unfolding detect_protocol_def scheme_kind_cases[symmetric] by simp
next
  case (Some k)
  then show ?thesis
    using scheme_kind_range[OF Some] unfolding detect_protocol_def scheme_kind_cases[symmetric] by auto
qed

lemma detect_protocol_kind:
  assumes "detect_protocol cr url c ch = Inr e" and "is_protocol_url url \<or> tg_sse_enabled c"
  shows "kind_of e = (case scheme_kind url of Some k \<Rightarrow> k | None \<Rightarrow> KSse) \<and> chaos_of e = ch"
proof (cases "scheme_kind url")
  case None
  then have "tg_sse_enabled c" using assms(2) by (simp add: scheme_kind_None)
  then show ?thesis using assms(1) None by (auto simp: detect_protocol_lookup sse_engine_new_def)
next
  case (Some k)
  then show ?thesis
    using assms(1) scheme_kind_range[OF Some]
    by (auto simp: detect_protocol_lookup detect_ws_def with_backpressure_def with_role_def ws_engine_new_def sse_engine_new_def
        dest: detect_kinds)
qed

lemma map_sum_Inr: "map_sum f g x = Inr y \<longleftrightarrow> (\<exists>z. x = Inr z \<and> y = g z)"
  by (cases x) auto

lemma map_sum_Inl: "map_sum f g x = Inl y \<longleftrightarrow> (\<exists>z. x = Inl z \<and> y = f z)"
  by (cases x) auto

text \<open>C13: a configuration gets the engine of its protocol.  Whenever an engine is built, it is the one the settings and
  the scheme of the address ask for, whatever the order of the tests, so an address of another protocol never ends up in
  the plain HTTP engine, and it injects the faults of the run.\<close>

theorem engine_matches_scheme:
  assumes "build_engine cr c chaos pool_size = Inr e"
  shows "kind_of e = expected_kind c \<and> chaos_of e = chaos \<and>
    (\<forall>p k. tg_graphql_query c = None \<and> \<not> tg_soap_enabled c \<and> (p, k) \<in> set scheme_table \<and> starts_with (tg_url c) p \<longrightarrow> kind_of e = k)"
proof -
  have k: "kind_of e = expected_kind c \<and> chaos_of e = chaos"
  proof (cases "tg_graphql_query c")
    case (Some query)
    then show ?thesis
      using assms
      by (auto simp: build_engine_def build_graphql_def expected_kind_def scheme_kind_cases graphql_ws_engine_new_def
          graphql_engine_new_def map_sum_Inr split: if_splits sum.splits)
  next
    case None
    show ?thesis
    proof (cases "tg_soap_enabled c")
      case True
      with None show ?thesis
        using assms by (auto simp: build_engine_def build_soap_def expected_kind_def soap_engine_new_def map_sum_Inr split: sum.splits)
    next
      case soap: False
      show ?thesis
      proof (cases "is_protocol_url (tg_url c) \<or> tg_sse_enabled c")
        case True
        then show ?thesis
          using assms None soap detect_protocol_kind[OF _ True, of cr chaos e] scheme_kind_None[of "tg_url c"]
          by (auto simp: build_engine_def expected_kind_def map_sum_Inr split: option.splits)
      next
        case False
        then have "scheme_kind (tg_url c) = None" by (simp add: scheme_kind_None)
        then show ?thesis
          using assms None soap False
          by (auto simp: build_engine_def build_http_def expected_kind_def Let_def http_with_chaos_def http_with_body_def
              http_with_method_def http_with_client_def map_sum_Inr split: sum.splits if_splits)
      qed
    qed
  qed
  moreover have "expected_kind c = k"
    if "tg_graphql_query c = None" "\<not> tg_soap_enabled c" "(p, k) \<in> set scheme_table" "starts_with (tg_url c) p" for p k
  proof -
    have "scheme_kind (tg_url c) = Some k" using that scheme_kind_iff by blast
    then show ?thesis using that by (simp add: expected_kind_def)
  qed
  ultimately show ?thesis by auto
qed

text \<open>A plain HTTP configuration and crates that accept everything.\<close>

definition sample_crates :: crates where
  "sample_crates =
     \<lparr>cr_codecs = no_codecs, cr_grpc_uri = Inr, cr_grpc_endpoint = Inr, cr_grpc_authority = (\<lambda>u. Inr (Some u)), cr_h3_uri = loopback_uri,
      cr_json_parse = (\<lambda>_. Inr (JObject [])), cr_json_print = (\<lambda>_. Inr []), cr_method = Some, cr_url_encode = id,
      cr_header_name = Inr, cr_header_value = Inr, cr_client = (\<lambda>_. Inr ())\<rparr>"

definition sample_test :: "string \<Rightarrow> test_config" where
  "sample_test url = build (builder_new url)"

theorem engine_matches_scheme_witness:
  "\<exists>e. build_engine sample_crates (sample_test ''sse://h/events'') chaos_engine_default 1 = Inr e \<and> kind_of e = KSse \<and>
     chaos_of e = chaos_engine_default"
proof -
  let ?c = "sample_test ''sse://h/events''"
  have f: "tg_graphql_query ?c = None" "\<not> tg_soap_enabled ?c" "tg_url ?c = ''sse://h/events''"
    by (simp_all add: sample_test_def build_def builder_new_def test_config_builder_default_def)
  have "\<exists>e. build_engine sample_crates ?c chaos_engine_default 1 = Inr e"
    by (simp add: build_engine_def f is_protocol_url_def detect_protocol_def)
  then obtain e where e: "build_engine sample_crates ?c chaos_engine_default 1 = Inr e" by blast
  have "(''sse://'', KSse) \<in> set scheme_table" by (simp add: scheme_table_def)
  moreover have "starts_with (tg_url ?c) ''sse://''" by (simp add: f)
  ultimately show ?thesis using engine_matches_scheme[OF e] f(1,2) e by blast
qed

section \<open>Validated configurations\<close>

lemma first_error_Inr: "first_error rs = Inr () \<longleftrightarrow> list_all (\<lambda>r. r = Inr ()) rs"
  by (induction rs rule: first_error.induct) auto

lemma validate_checks:
  assumes "validate json c = Inr ()"
  shows "check_graphql c = Inr ()" "check_variables json c = Inr ()" "check_soap c = Inr ()" "check_stomp c = Inr ()" "check_db c = Inr ()"
  using assms by (simp_all add: validate_def first_error_Inr)

lemma validated_db:
  assumes "check_db c = Inr ()" and "is_db_url (tg_url c)"
  shows "\<exists>e. detect_db (tg_url c) c ch = Inr (EDb e)"
proof -
  obtain d where "db_driver_from_url (tg_url c) = Some d" using assms(2) by (auto simp: is_db_url_def)
  moreover have "str_trim (or_default [] (tg_db_query c)) \<noteq> []"
    using assms by (auto simp: check_db_def is_db_url_iff missing_def blank_def or_default_def split: if_splits option.splits)
  ultimately show ?thesis by (simp add: detect_db_def db_engine_new_def)
qed

lemma validated_stomp:
  assumes "check_stomp c = Inr ()" and "scheme_kind (tg_url c) = Some KStomp" and "detect_stomp (tg_url c) c ch = Inl err"
  shows "\<exists>e. err = SetupStomp e \<and> parse_authority (tg_url c) = Inl e"
proof -
  have "str_trim (or_default [] (tg_stomp_destination c)) \<noteq> []"
    using assms(1,2) by (auto simp: check_stomp_def is_stomp_url_def scheme_kind_cases missing_def blank_def or_default_def split: if_splits option.splits)
  then show ?thesis using assms(3) by (auto simp: detect_stomp_def stomp_engine_new_def map_sum_Inl split: sum.splits)
qed

lemma validated_payload:
  assumes "check_variables (\<lambda>s. map_sum id is_object (parse s)) c = Inr ()" and "\<forall>j. \<exists>b. print j = Inr b"
  shows "\<exists>payload. build_payload parse print query (tg_graphql_variables c) name = Inr payload"
proof (cases "tg_graphql_variables c")
  case None
  then show ?thesis using assms(2) by (auto simp: build_payload_def Let_def split: sum.split) (metis Inl_Inr_False)
next
  case (Some raw)
  then obtain j where "parse raw = Inr j" "is_object j"
    using assms(1) by (auto simp: check_variables_def split: sum.splits bool.splits) (metis map_sum_Inr)
  then show ?thesis using Some assms(2) by (auto simp: build_payload_def Let_def split: sum.split) (metis Inl_Inr_False)
qed

text \<open>C37: what can still go wrong with a configuration that passed validation.  With headers the crate accepts and a
  client that can be built, an engine is refused only when a gRPC or HTTP/3 engine cannot be constructed, when the
  address of a broker has no host or asks for TLS, when the method is not one, or when a plain HTTP test has both a body
  and a form; validated GraphQL, SOAP, WebSocket, event-stream and database tests always get their engine.\<close>

theorem validated_setup_errors:
  assumes "validate (\<lambda>s. map_sum id is_object (cr_json_parse cr s)) c = Inr ()"
    and "parse_headers cr (tg_headers c) = Inr hs" and "tg_soap_enabled c \<longrightarrow> (\<exists>h. soap_header_map cr c hs = Inr h)"
    and "\<forall>client. cr_client cr client = Inr ()" and "\<forall>j. \<exists>b. cr_json_print cr j = Inr b"
    and "build_engine cr c chaos pool_size = Inl err"
  shows "tg_graphql_query c = None \<and> \<not> tg_soap_enabled c \<and>
    (case scheme_kind (tg_url c) of
       Some KGrpc \<Rightarrow> \<exists>e. err = PyValueError (setup_error_text (SetupGrpc e))
     | Some KHttp3 \<Rightarrow> \<exists>e. err = PyValueError (setup_error_text (SetupHttp3 e))
     | Some KStomp \<Rightarrow> \<exists>e. err = PyValueError (setup_error_text (SetupStomp e)) \<and> parse_authority (tg_url c) = Inl e
     | None \<Rightarrow> \<not> tg_sse_enabled c \<and>
         (parse_method cr (tg_method c) = Inl err \<or> tg_body c \<noteq> None \<and> tg_form c \<noteq> None)
     | _ \<Rightarrow> False)"
proof -
  have client: "\<exists>x. build_client cr n t h = Inr x" for n t h using assms(4) by (simp add: build_client_def)
  have g: "tg_graphql_query c = None"
  proof (rule ccontr)
    assume "tg_graphql_query c \<noteq> None"
    then obtain query where q: "tg_graphql_query c = Some query" by blast
    obtain payload where p: "build_payload (cr_json_parse cr) (cr_json_print cr) query (tg_graphql_variables c) (tg_graphql_operation_name c) = Inr payload"
      using validated_payload[OF validate_checks(2)[OF assms(1)] assms(5)] by blast
    show False
      using assms(6) client by (auto simp: build_engine_def q build_graphql_def p assms(2) map_sum_Inl split: if_splits) (metis Inl_Inr_False)
  qed
  have s: "\<not> tg_soap_enabled c"
  proof
    assume "tg_soap_enabled c"
    then obtain h where "soap_header_map cr c hs = Inr h" using assms(3) by blast
    with \<open>tg_soap_enabled c\<close> show False
      using assms(6) client by (auto simp: build_engine_def g build_soap_def assms(2) map_sum_Inl) (metis Inl_Inr_False)
  qed
  show ?thesis
  proof (cases "is_protocol_url (tg_url c) \<or> tg_sse_enabled c")
    case True
    then obtain e where e: "detect_protocol cr (tg_url c) c chaos = Inl e" "err = PyValueError (setup_error_text e)"
      using assms(6) by (auto simp: build_engine_def g s map_sum_Inl)
    show ?thesis
    proof (cases "scheme_kind (tg_url c)")
      case None
      then show ?thesis using e True by (simp add: detect_protocol_lookup)
    next
      case (Some k)
      then show ?thesis
        using e scheme_kind_range[OF Some] validated_stomp[OF validate_checks(4)[OF assms(1)], where err = e and ch = chaos] g s
          validated_db[OF validate_checks(5)[OF assms(1)], of chaos] scheme_kind_cases(6)[of "tg_url c"]
        by (auto simp: detect_protocol_lookup detect_grpc_def detect_http3_def map_sum_Inl simp del: setup_error_text.simps split: if_splits)
    qed
  next
    case False
    then have "scheme_kind (tg_url c) = None" by (simp add: scheme_kind_None)
    moreover have "parse_method cr (tg_method c) = Inl err \<or> tg_body c \<noteq> None \<and> tg_form c \<noteq> None"
      using assms(6) False client
      by (auto simp: build_engine_def g s build_http_def assms(2) Let_def parse_body_def parse_form_def map_sum_Inl split: sum.splits if_splits)
        (metis Inl_Inr_False)+
    ultimately show ?thesis using False g s by simp
  qed
qed

definition secure_broker :: test_config where
  "secure_broker = (sample_test ''stomps://h'')\<lparr>tg_stomp_destination := Some ''/q'', tg_chaos_rate := Fin 0\<rparr>"

lemma secure_broker_fields:
  "tg_url secure_broker = ''stomps://h''" "tg_graphql_query secure_broker = None" "\<not> tg_soap_enabled secure_broker"
  "tg_headers secure_broker = None" "tg_stomp_destination secure_broker = Some ''/q''" "tg_graphql_variables secure_broker = None"
  "tg_graphql_operation_name secure_broker = None" "\<not> tg_stomp_receipt secure_broker" "tg_concurrency secure_broker = 10"
  "tg_slo_p95_ms secure_broker = None" "tg_slo_p99_ms secure_broker = None" "tg_slo_min_rps secure_broker = None"
  "tg_slo_error_rate secure_broker = None" "tg_chaos_rate secure_broker = Fin 0"
  by (simp_all add: secure_broker_def sample_test_def build_def builder_new_def test_config_builder_default_def)

lemma secure_broker_valid: "validate json secure_broker = Inr ()"
proof -
  have "\<not> blank ''/q''" by code_simp
  then show ?thesis
    by (simp add: validate_def first_error_Inr secure_broker_fields check_concurrency_def max_concurrency_limit_def check_chaos_rate_def
        check_graphql_def check_variables_def check_soap_def check_stomp_def is_stomp_url_def missing_def check_db_def is_database_url_def
        check_slo_def check_error_rate_def)
qed

theorem validated_setup_errors_witness:
  "\<exists>err e. build_engine sample_crates secure_broker chaos_engine_default 1 = Inl err \<and>
     err = PyValueError (setup_error_text (SetupStomp e)) \<and> parse_authority (tg_url secure_broker) = Inl e"
proof -
  have k: "scheme_kind (tg_url secure_broker) = Some KStomp" by (simp add: scheme_kind_cases secure_broker_fields)
  have "parse_authority ''stomps://h'' = Inl ''STOMP TLS (stomps://) is not yet supported; use stomp://''"
    by (simp add: parse_authority_def strip_prefix_def)
  then have "\<exists>err. build_engine sample_crates secure_broker chaos_engine_default 1 = Inl err"
    using k by (simp add: build_engine_def secure_broker_fields is_protocol_url_def detect_protocol_lookup detect_stomp_def stomp_engine_new_def)
  then obtain err where e: "build_engine sample_crates secure_broker chaos_engine_default 1 = Inl err" by blast
  have "parse_headers sample_crates (tg_headers secure_broker) = Inr []"
    by (simp add: parse_headers_def secure_broker_fields or_default_def)
  then have "\<exists>e. err = PyValueError (setup_error_text (SetupStomp e)) \<and> parse_authority (tg_url secure_broker) = Inl e"
    using validated_setup_errors[OF secure_broker_valid _ _ _ _ e] k
    by (auto simp: sample_crates_def secure_broker_fields(3) simp del: setup_error_text.simps)
  with e show ?thesis by blast
qed

end
