(* ===== verification/Local_Run.thy ===== *)
theory Local_Run
  imports Protocols Metric_Summary
begin

text \<open>
  A run in one process (\<open>lib.rs\<close>, \<open>progress.rs\<close>): the shared counters, the worker tasks, the supervisor of
  a load profile, the collection of the metrics and the summary.
  The tasks run concurrently: a run is a sequence of events, each one step of a worker, of the supervisor or of the
  environment, in any order; an event that is not possible in a state leaves it unchanged.  What an engine measures in
  an iteration, the clock readings and the interrupt of the user are in the events.
\<close>

section \<open>Counters and strategies\<close>

record live_counters =
  lc_total_requests :: u64
  lc_errors :: u64
  lc_active_workers :: u64
  lc_completed_requests :: u64
  lc_latency_sum_micros :: u64
  lc_latency_count :: u64
  lc_bytes_received :: u64

definition live_counters_new :: live_counters where
  "live_counters_new =
     \<lparr>lc_total_requests = 0, lc_errors = 0, lc_active_workers = 0, lc_completed_requests = 0, lc_latency_sum_micros = 0,
      lc_latency_count = 0, lc_bytes_received = 0\<rparr>"

datatype concurrency_strategy = SConstant usize u64 | SDynamic load_profile

fun strategy_max_concurrency :: "concurrency_strategy \<Rightarrow> usize" where
  "strategy_max_concurrency (SConstant concurrency duration_secs) = concurrency"
| "strategy_max_concurrency (SDynamic profile) = max_concurrency profile"

fun total_duration_secs :: "concurrency_strategy \<Rightarrow> u64" where
  "total_duration_secs (SConstant concurrency duration_secs) = duration_secs"
| "total_duration_secs (SDynamic profile) = total_duration profile"

section \<open>Workers\<close>

text \<open>
  Where a worker task is: spawned and not yet started, at the test of its loop, inside an iteration, handing over a
  metric, closing its session, finished.
\<close>

datatype worker_pc = PSpawned | PLoop | PRunning | PSending request_metric | PEnding | PFinished

record worker =
  wk_pc :: worker_pc
  wk_cancelled :: bool
  wk_duration :: duration

definition spawn_worker :: "duration \<Rightarrow> worker" where
  "spawn_worker duration = \<lparr>wk_pc = PSpawned, wk_cancelled = False, wk_duration = duration\<rparr>"

definition iteration_timeout :: "u64 \<Rightarrow> duration" where
  "iteration_timeout timeout_secs = from_secs (if timeout_secs > 0 then unat timeout_secs else 5)"

text \<open>An iteration gives a metric or exceeds the deadline.\<close>

datatype iteration_outcome = IDone request_metric | ITimedOut

definition iteration_metric :: "duration \<Rightarrow> iteration_outcome \<Rightarrow> request_metric" where
  "iteration_metric timeout_dur outcome =
     (case outcome of IDone metric \<Rightarrow> metric | ITimedOut \<Rightarrow> rm_error (of_nat (timeout_dur div 1000)) None)"

definition count_completion :: "request_metric \<Rightarrow> live_counters \<Rightarrow> live_counters" where
  "count_completion metric c =
     c\<lparr>lc_completed_requests := lc_completed_requests c + 1,
       lc_bytes_received := lc_bytes_received c + rm_bytes_received metric,
       lc_latency_sum_micros := lc_latency_sum_micros c + ucast (rm_latency_micros metric),
       lc_latency_count := lc_latency_count c + 1,
       lc_errors := lc_errors c + (if rm_is_error metric then 1 else 0)\<rparr>"

section \<open>Runs\<close>

text \<open>
  The supervisor: asleep or at the head of its loop, scaling towards a target with the time left, joining the workers
  it cancelled, tearing down, done.  A constant load only tears down: it waits for its workers.
\<close>

datatype supervisor_pc = SIdle | SScale usize duration | SJoin | STeardown | SEnded

text \<open>
  \<open>lr_sent\<close> is what went through the channel; \<open>lr_completed\<close> and \<open>lr_cut\<close> record, for the statements
  below only, the metrics of all finished iterations and the number of iterations cancelled in flight.
\<close>

record local_run =
  lr_counters :: live_counters
  lr_workers :: "worker list"
  lr_sent :: "request_metric list"
  lr_rx_open :: bool
  lr_cancel :: bool
  lr_interrupted :: bool
  lr_sup :: supervisor_pc
  lr_child_tokens :: "nat list"
  lr_handles :: "nat list"
  lr_reaped :: "nat list"
  lr_current_concurrency :: usize
  lr_completed :: "request_metric list"
  lr_cut :: nat

definition run_start :: "concurrency_strategy \<Rightarrow> local_run" where
  "run_start strategy =
     (let r = \<lparr>lr_counters = live_counters_new, lr_workers = [], lr_sent = [], lr_rx_open = True, lr_cancel = False,
               lr_interrupted = False, lr_sup = SIdle, lr_child_tokens = [], lr_handles = [], lr_reaped = [],
               lr_current_concurrency = 0, lr_completed = [], lr_cut = 0\<rparr>
      in case strategy of
           SConstant concurrency duration_secs \<Rightarrow>
             r\<lparr>lr_workers := replicate concurrency (spawn_worker (from_secs (unat duration_secs))),
               lr_handles := [0..<concurrency], lr_sup := STeardown\<rparr>
         | SDynamic profile \<Rightarrow> r)"

record run_settings =
  rg_timeout :: duration
  rg_total :: duration
  rg_profile :: load_profile

definition is_cancelled :: "local_run \<Rightarrow> nat \<Rightarrow> bool" where
  "is_cancelled s i \<longleftrightarrow> lr_cancel s \<or> wk_cancelled (lr_workers s ! i)"

definition at_pc :: "local_run \<Rightarrow> nat \<Rightarrow> worker_pc \<Rightarrow> bool" where
  "at_pc s i pc \<longleftrightarrow> i < length (lr_workers s) \<and> wk_pc (lr_workers s ! i) = pc"

definition goto :: "nat \<Rightarrow> worker_pc \<Rightarrow> local_run \<Rightarrow> local_run" where
  "goto i pc s = s\<lparr>lr_workers := (lr_workers s)[i := (lr_workers s ! i)\<lparr>wk_pc := pc\<rparr>]\<rparr>"

definition cancel_token :: "nat \<Rightarrow> local_run \<Rightarrow> local_run" where
  "cancel_token i s = s\<lparr>lr_workers := (lr_workers s)[i := (lr_workers s ! i)\<lparr>wk_cancelled := True\<rparr>]\<rparr>"

definition finished :: "local_run \<Rightarrow> nat \<Rightarrow> bool" where
  "finished s i \<longleftrightarrow> wk_pc (lr_workers s ! i) = PFinished"

datatype worker_event =
    Begins
  | Tests duration
  | Completes iteration_outcome
  | IsCut
  | Sends
  | SendFails
  | Closes

definition worker_step :: "run_settings \<Rightarrow> nat \<Rightarrow> worker_event \<Rightarrow> local_run \<Rightarrow> local_run" where
  "worker_step g i ev s =
     (let c = lr_counters s
      in case ev of
           Begins \<Rightarrow>
             (if at_pc s i PSpawned
              then goto i PLoop (s\<lparr>lr_counters := c\<lparr>lc_active_workers := lc_active_workers c + 1\<rparr>\<rparr>) else s)
         | Tests t \<Rightarrow>
             (if at_pc s i PLoop
              then if t < wk_duration (lr_workers s ! i) \<and> \<not> is_cancelled s i
                   then goto i PRunning (s\<lparr>lr_counters := c\<lparr>lc_total_requests := lc_total_requests c + 1\<rparr>\<rparr>)
                   else goto i PEnding s
              else s)
         | Completes outcome \<Rightarrow>
             (if at_pc s i PRunning
              then let metric = iteration_metric (rg_timeout g) outcome
                   in goto i (PSending metric)
                        (s\<lparr>lr_counters := count_completion metric c, lr_completed := lr_completed s @ [metric]\<rparr>)
              else s)
         | IsCut \<Rightarrow> (if at_pc s i PRunning \<and> is_cancelled s i then goto i PEnding (s\<lparr>lr_cut := lr_cut s + 1\<rparr>) else s)
         | Sends \<Rightarrow>
             (if i < length (lr_workers s) \<and> lr_rx_open s
              then case wk_pc (lr_workers s ! i) of
                     PSending metric \<Rightarrow> goto i PLoop (s\<lparr>lr_sent := lr_sent s @ [metric]\<rparr>)
                   | _ \<Rightarrow> s
              else s)
         | SendFails \<Rightarrow>
             (if i < length (lr_workers s) \<and> \<not> lr_rx_open s
              then case wk_pc (lr_workers s ! i) of PSending metric \<Rightarrow> goto i PEnding s | _ \<Rightarrow> s
              else s)
         | Closes \<Rightarrow>
             (if at_pc s i PEnding
              then goto i PFinished (s\<lparr>lr_counters := c\<lparr>lc_active_workers := lc_active_workers c - 1\<rparr>\<rparr>) else s))"

text \<open>\<open>saturating_sub\<close> of durations is the subtraction of natural numbers.\<close>

datatype supervisor_event = Looks duration | Spawns | Reaps | Scaled | Joined | TornDown

definition supervisor_step :: "run_settings \<Rightarrow> supervisor_event \<Rightarrow> local_run \<Rightarrow> local_run" where
  "supervisor_step g ev s =
     (case ev of
        Looks t \<Rightarrow>
          (if lr_sup s = SIdle
           then if rg_total g \<le> t \<or> lr_cancel s
                then (fold cancel_token (lr_child_tokens s) s)\<lparr>lr_sup := STeardown\<rparr>
                else s\<lparr>lr_sup := SScale (target_concurrency (rg_profile g) t) (rg_total g - t)\<rparr>
           else s)
      | Spawns \<Rightarrow>
          (case lr_sup s of
             SScale target remaining \<Rightarrow>
               (if lr_current_concurrency s < target
                then let i = length (lr_workers s)
                     in s\<lparr>lr_workers := lr_workers s @ [spawn_worker remaining],
                          lr_child_tokens := lr_child_tokens s @ [i], lr_handles := lr_handles s @ [i],
                          lr_current_concurrency := lr_current_concurrency s + 1\<rparr>
                else s)
           | _ \<Rightarrow> s)
      | Reaps \<Rightarrow>
          (case lr_sup s of
             SScale target remaining \<Rightarrow>
               (if target < lr_current_concurrency s \<and> lr_child_tokens s \<noteq> []
                then let s = cancel_token (last (lr_child_tokens s)) s;
                         s = s\<lparr>lr_child_tokens := butlast (lr_child_tokens s)\<rparr>;
                         s = (if lr_handles s = [] then s
                              else s\<lparr>lr_reaped := lr_reaped s @ [last (lr_handles s)], lr_handles := butlast (lr_handles s)\<rparr>)
                     in s\<lparr>lr_current_concurrency := lr_current_concurrency s - 1\<rparr>
                else s)
           | _ \<Rightarrow> s)
      | Scaled \<Rightarrow>
          (case lr_sup s of
             SScale target remaining \<Rightarrow> (if lr_current_concurrency s = target then s\<lparr>lr_sup := SJoin\<rparr> else s)
           | _ \<Rightarrow> s)
      | Joined \<Rightarrow>
          (if lr_sup s = SJoin \<and> list_all (finished s) (lr_reaped s) then s\<lparr>lr_reaped := [], lr_sup := SIdle\<rparr> else s)
      | TornDown \<Rightarrow>
          (if lr_sup s = STeardown \<and> list_all (finished s) (lr_handles s) then s\<lparr>lr_sup := SEnded\<rparr> else s))"

text \<open>The interrupt of the user and the end of the receiving task come from outside.\<close>

datatype run_event = WorkerEvent nat worker_event | SupervisorEvent supervisor_event | SigInt | ReceiverCloses

definition run_step :: "run_settings \<Rightarrow> local_run \<Rightarrow> run_event \<Rightarrow> local_run" where
  "run_step g s ev =
     (case ev of
        WorkerEvent i e \<Rightarrow> worker_step g i e s
      | SupervisorEvent e \<Rightarrow> supervisor_step g e s
      | SigInt \<Rightarrow> s\<lparr>lr_interrupted := True, lr_cancel := True\<rparr>
      | ReceiverCloses \<Rightarrow> s\<lparr>lr_rx_open := False\<rparr>)"

section \<open>The summary of a run\<close>

record stomp_run_info =
  sri_destination :: string
  sri_mode :: string
  sri_ack_mode :: string
  sri_receipts_enabled :: bool

definition stomp_run_info_of :: "test_config \<Rightarrow> stomp_run_info option" where
  "stomp_run_info_of config =
     (if starts_with (tg_url config) ''stomp://'' \<or> starts_with (tg_url config) ''stomps://''
      then Some \<lparr>sri_destination = or_default [] (tg_stomp_destination config), sri_mode = stomp_mode_as_str (tg_stomp_mode config),
                 sri_ack_mode = stomp_ack_as_str (tg_stomp_ack config), sri_receipts_enabled = tg_stomp_receipt config\<rparr>
      else None)"

definition config_db_run_info :: "test_config \<Rightarrow> db_run_info option" where
  "config_db_run_info config = db_run_info_of (tg_url config) (run_pool_max config) (tg_db_fetch config)"

text \<open>What is constant in a run and stamped onto the report.\<close>

record run_labels =
  rl_graphql_operation_type :: "string option"
  rl_soap_version :: "string option"
  rl_stomp_info :: "stomp_run_info option"
  rl_db_info :: "db_run_info option"

definition run_labels_of :: "test_config \<Rightarrow> run_labels" where
  "run_labels_of config =
     \<lparr>rl_graphql_operation_type = map_option parse_operation_type (tg_graphql_query config),
      rl_soap_version = (if tg_soap_enabled config then Some (soap_version_as_str (tg_soap_version config)) else None),
      rl_stomp_info = stomp_run_info_of config, rl_db_info = config_db_run_info config\<rparr>"

definition stamp_graphql :: "run_labels \<Rightarrow> graphql_metrics \<Rightarrow> graphql_metrics" where
  "stamp_graphql l m = m\<lparr>gm_operation_type := or_default ''query'' (rl_graphql_operation_type l)\<rparr>"

definition stamp_soap :: "run_labels \<Rightarrow> soap_metrics \<Rightarrow> soap_metrics" where
  "stamp_soap l m = m\<lparr>som_soap_version := or_default ''1.1'' (rl_soap_version l)\<rparr>"

definition stamp_stomp :: "run_labels \<Rightarrow> stomp_metrics \<Rightarrow> stomp_metrics" where
  "stamp_stomp l m =
     (case rl_stomp_info l of
        None \<Rightarrow> m
      | Some info \<Rightarrow>
          m\<lparr>stm_destination := sri_destination info, stm_mode := sri_mode info, stm_ack_mode := sri_ack_mode info,
            stm_receipts_enabled := sri_receipts_enabled info\<rparr>)"

definition stamp_db :: "run_labels \<Rightarrow> database_metrics \<Rightarrow> database_metrics" where
  "stamp_db l m =
     (case rl_db_info l of
        None \<Rightarrow> m
      | Some info \<Rightarrow> m\<lparr>dbm_driver := dri_driver info, dbm_pool_max := dri_pool_max info, dbm_fetch_mode := dri_fetch_mode info\<rparr>)"

text \<open>Clock readings of the aggregation, the duration of the test and the samples of the resource monitor.\<close>

record run_readings =
  rr_clock :: "nat \<Rightarrow> emit_clock"
  rr_starts :: "instant \<times> instant"
  rr_ends :: "instant \<times> instant"
  rr_elapsed :: duration
  rr_samples :: "resource_sample list"

definition received_metrics :: "run_readings \<Rightarrow> local_run \<Rightarrow> (request_metric \<times> emit_clock) list" where
  "received_metrics r s = map (\<lambda>k. (lr_sent s ! k, rr_clock r k)) [0..<length (lr_sent s)]"

text \<open>The end of \<open>execute_test\<close>, for a run that has reached the state \<open>s\<close>.\<close>

definition execute_test ::
    "'h hdr_ops \<Rightarrow> string \<Rightarrow> concurrency_strategy \<Rightarrow> run_labels \<Rightarrow> u64 \<Rightarrow> u64 \<Rightarrow> run_readings \<Rightarrow> local_run \<Rightarrow> py_error + test_summary" where
  "execute_test H url strategy labels sys_sample_interval timeline_interval_ms r s =
     (if lr_interrupted s then Inl (PyKeyboardInterrupt ''load test interrupted by user'')
      else let aggregated = finalize_metrics H (received_metrics r s) timeline_interval_ms (rr_starts r) (rr_ends r)
           in Inr (calculate_summary H
                \<lparr>si_url = url, si_total_requests = lc_total_requests (lr_counters s), si_total_errors = lc_errors (lr_counters s),
                 si_latency_histogram = am_latency_histogram aggregated, si_total_bytes = am_total_bytes aggregated,
                 si_duration_secs = as_secs_f64 (rr_elapsed r), si_workers = strategy_max_concurrency strategy,
                 si_status_codes = am_status_codes aggregated, si_e2e_latency_histogram = am_e2e_latency_histogram aggregated,
                 si_connection_latency_histogram = am_connection_latency_histogram aggregated,
                 si_quic_metrics = am_quic_metrics aggregated, si_sse_metrics = am_sse_metrics aggregated,
                 si_ws_metrics = am_ws_metrics aggregated, si_grpc_metrics = am_grpc_metrics aggregated,
                 si_http3_metrics = am_http3_metrics aggregated,
                 si_graphql_metrics = map_option (stamp_graphql labels) (am_graphql_metrics aggregated),
                 si_graphql_ws_metrics = am_graphql_ws_metrics aggregated,
                 si_soap_metrics = map_option (stamp_soap labels) (am_soap_metrics aggregated),
                 si_stomp_metrics = map_option (stamp_stomp labels) (am_stomp_metrics aggregated),
                 si_db_metrics = map_option (stamp_db labels) (am_db_metrics aggregated),
                 si_timeline = am_timeline aggregated, si_chaos_injected_total = am_chaos_injected_total aggregated,
                 si_chaos_faults_by_type = am_chaos_faults_by_type aggregated,
                 si_resource_samples = (if sampler_interval sys_sample_interval = None then [] else rr_samples r),
                 si_total_sockets_created = am_total_sockets_created aggregated,
                 si_total_connections_reused = am_total_connections_reused aggregated,
                 si_dns_resolution_sum_us = am_dns_resolution_sum_us aggregated,
                 si_dns_resolution_count = am_dns_resolution_count aggregated\<rparr>))"

definition ensure_concurrency_limit :: "usize \<Rightarrow> py_error + unit" where
  "ensure_concurrency_limit concurrency =
     (if concurrency = 0 \<or> max_concurrency_limit < concurrency
      then Inl (PyValueError ''concurrency must be between 1 and 10000'') else Inr ())"

text \<open>
  A whole run: the schedule is a function of the engine, which it drives; the runtime of the tasks may fail to start.
\<close>

definition run_strategy ::
    "'h hdr_ops \<Rightarrow> crates \<Rightarrow> string + unit \<Rightarrow> run_readings \<Rightarrow> (protocol_engine \<Rightarrow> run_event list) \<Rightarrow> test_config \<Rightarrow>
     usize \<Rightarrow> usize \<Rightarrow> load_profile \<Rightarrow> concurrency_strategy \<Rightarrow> py_error + test_summary" where
  "run_strategy H cr runtime r schedule config limit pool_size profile strategy =
     (case ensure_concurrency_limit limit of
        Inl e \<Rightarrow> Inl e
      | Inr _ \<Rightarrow>
          (case build_engine cr config (chaos_engine_new (tg_chaos config) (tg_chaos_rate config)) pool_size of
             Inl e \<Rightarrow> Inl e
           | Inr engine \<Rightarrow>
               (case runtime of
                  Inl e \<Rightarrow> Inl (PyRuntimeError e)
                | Inr _ \<Rightarrow>
                    (let g = \<lparr>rg_timeout = iteration_timeout (tg_timeout_secs config),
                              rg_total = from_secs (unat (total_duration_secs strategy)), rg_profile = profile\<rparr>;
                         s = foldl (run_step g) (run_start strategy) (schedule engine)
                     in execute_test H (tg_url config) strategy (run_labels_of config) (tg_sys_sample_interval config)
                          (tg_timeline_interval_ms config) r s))))"

definition run_load_test ::
    "'h hdr_ops \<Rightarrow> crates \<Rightarrow> string + unit \<Rightarrow> run_readings \<Rightarrow> (protocol_engine \<Rightarrow> run_event list) \<Rightarrow> test_config \<Rightarrow>
     py_error + test_summary" where
  "run_load_test H cr runtime r schedule config =
     run_strategy H cr runtime r schedule config (tg_concurrency config) (tg_concurrency config)
       (LConstant (tg_concurrency config) (tg_duration_secs config))
       (SConstant (tg_concurrency config) (tg_duration_secs config))"

definition run_load_profiles ::
    "'h hdr_ops \<Rightarrow> crates \<Rightarrow> string + unit \<Rightarrow> run_readings \<Rightarrow> (protocol_engine \<Rightarrow> run_event list) \<Rightarrow> test_config \<Rightarrow>
     load_profile \<Rightarrow> py_error + test_summary" where
  "run_load_profiles H cr runtime r schedule config profile =
     run_strategy H cr runtime r schedule config (concurrency_upper_bound profile) (max_concurrency profile) profile (SDynamic profile)"

section \<open>Progress\<close>

text \<open>The numbers of a progress message; the bar and its formatting belong to another crate.\<close>

record progress_message =
  pm_position :: nat
  pm_instant_rps :: f64
  pm_active :: u64
  pm_errors :: u64
  pm_avg_latency_ms :: f64

datatype render_event = RTick instant duration live_counters | RCancelled

datatype render_end = Finished u64 u64 | Abandoned

definition render_done :: "duration \<Rightarrow> duration \<Rightarrow> live_counters \<Rightarrow> bool" where
  "render_done total_dur t c \<longleftrightarrow> total_dur \<le> t \<or> lc_active_workers c = 0 \<and> lc_completed_requests c > 0"

definition render_message :: "duration \<Rightarrow> duration \<Rightarrow> duration \<Rightarrow> u64 \<Rightarrow> live_counters \<Rightarrow> progress_message" where
  "render_message total_dur t delta prev_completed c =
     (let pct = (if total_dur = 0 then 0
                 else f_to_usize (f64_mul (f64_div (as_secs_f64 t) (as_secs_f64 total_dur)) (Fin 100)));
          delta_sec = as_secs_f64 delta;
          delta_completed = u64_saturating_sub (lc_completed_requests c) prev_completed
      in \<lparr>pm_position = min pct 99,
          pm_instant_rps = (if f_less (Fin 0) delta_sec then f64_div (f64_of_u64 delta_completed) delta_sec else Fin 0),
          pm_active = lc_active_workers c, pm_errors = lc_errors c,
          pm_avg_latency_ms =
            (if lc_latency_count c > 0
             then f64_div (f64_div (f64_of_u64 (lc_latency_sum_micros c)) (f64_of_u64 (lc_latency_count c))) micros_per_milli
             else Fin 0)\<rparr>)"

text \<open>The loop: the messages it shows and how it ends; \<open>final\<close> are the counters after the loop.\<close>

fun render_loop :: "duration \<Rightarrow> live_counters \<Rightarrow> instant \<Rightarrow> u64 \<Rightarrow> render_event list \<Rightarrow> progress_message list \<times> render_end option" where
  "render_loop total_dur final last_tick prev_completed [] = ([], None)"
| "render_loop total_dur final last_tick prev_completed (RCancelled # evs) = ([], Some Abandoned)"
| "render_loop total_dur final last_tick prev_completed (RTick now t c # evs) =
     (if render_done total_dur t c then ([], Some (Finished (lc_completed_requests final) (lc_errors final)))
      else case render_loop total_dur final now (lc_completed_requests c) evs of
             (shown, e) \<Rightarrow> (render_message total_dur t (now - last_tick) prev_completed c # shown, e))"

text \<open>The bar never shows the end before it, and the loop ends at the latest with the first tick after the duration.\<close>

lemma render_position: "m \<in> set (fst (render_loop total_dur final last_tick prev evs)) \<Longrightarrow> pm_position m \<le> 99"
  by (induction total_dur final last_tick prev evs rule: render_loop.induct)
    (auto simp: render_message_def Let_def split: if_splits prod.splits)

lemma render_ends:
  "RTick now t c \<in> set evs \<Longrightarrow> total_dur \<le> t \<Longrightarrow> snd (render_loop total_dur final last_tick prev evs) \<noteq> None"
  by (induction total_dur final last_tick prev evs rule: render_loop.induct) (auto simp: render_done_def split: prod.splits)

section \<open>The counters\<close>

text \<open>Sums over the workers: iterations in flight, metrics being handed over, started workers.\<close>

definition in_iteration :: "worker \<Rightarrow> nat" where
  "in_iteration w = (if wk_pc w = PRunning then 1 else 0)"

definition handing_over :: "worker \<Rightarrow> request_metric multiset" where
  "handing_over w = (case wk_pc w of PSending m \<Rightarrow> {#m#} | _ \<Rightarrow> {#})"

definition started :: "worker \<Rightarrow> nat" where
  "started w = (if wk_pc w = PSpawned \<or> wk_pc w = PFinished then 0 else 1)"

lemmas worker_sums = in_iteration_def handing_over_def started_def

lemma sum_list_update_add:
  "i < length xs \<Longrightarrow> sum_list (map f (xs[i := y])) + f (xs ! i) = sum_list (map f xs) + (f y :: 'a :: cancel_comm_monoid_add)"
proof (induction xs arbitrary: i)
  case (Cons x xs)
  then show ?case by (cases i) (simp_all add: ac_simps)
qed simp

definition count_inv :: "local_run \<Rightarrow> bool" where
  "count_inv s \<longleftrightarrow>
     (let c = lr_counters s; ms = lr_completed s; ws = lr_workers s
      in lc_total_requests c = of_nat (length ms + sum_list (map in_iteration ws) + lr_cut s) \<and>
         lc_completed_requests c = of_nat (length ms) \<and> lc_latency_count c = of_nat (length ms) \<and>
         lc_errors c = of_nat (length (filter rm_is_error ms)) \<and>
         lc_bytes_received c = sum_list (map rm_bytes_received ms) \<and>
         lc_latency_sum_micros c = sum_list (map (\<lambda>m. ucast (rm_latency_micros m)) ms) \<and>
         lc_active_workers c = of_nat (sum_list (map started ws)) \<and>
         (lr_rx_open s \<longrightarrow> mset ms = mset (lr_sent s) + sum_list (map handing_over ws)))"

lemma goto_sums:
  assumes "i < length (lr_workers s)"
  shows "sum_list (map f (lr_workers (goto i pc s))) + f (lr_workers s ! i) =
    sum_list (map f (lr_workers s)) + (f ((lr_workers s ! i)\<lparr>wk_pc := pc\<rparr>) :: 'a :: cancel_comm_monoid_add)"
  using sum_list_update_add[OF assms] by (simp add: goto_def)

lemma cancel_token_sums:
  "(\<And>w. f (w\<lparr>wk_cancelled := True\<rparr>) = f w) \<Longrightarrow> i < length (lr_workers s) \<Longrightarrow>
    sum_list (map f (lr_workers (cancel_token i s))) = sum_list (map f (lr_workers s) :: 'a :: cancel_comm_monoid_add list)"
  using sum_list_update_add[of i "lr_workers s" f "(lr_workers s ! i)\<lparr>wk_cancelled := True\<rparr>"] by (simp add: cancel_token_def)

lemma goto_fields [simp]:
  "lr_counters (goto i pc s) = lr_counters s" "lr_sent (goto i pc s) = lr_sent s" "lr_rx_open (goto i pc s) = lr_rx_open s"
  "lr_cancel (goto i pc s) = lr_cancel s" "lr_sup (goto i pc s) = lr_sup s" "lr_child_tokens (goto i pc s) = lr_child_tokens s"
  "lr_handles (goto i pc s) = lr_handles s" "lr_reaped (goto i pc s) = lr_reaped s"
  "lr_current_concurrency (goto i pc s) = lr_current_concurrency s" "lr_completed (goto i pc s) = lr_completed s"
  "lr_cut (goto i pc s) = lr_cut s" "length (lr_workers (goto i pc s)) = length (lr_workers s)"
  by (simp_all add: goto_def)

lemma word_balance:
  assumes "of_nat x' + of_nat n = (of_nat x + of_nat n' :: u64)"
    and "(t :: u64) + of_nat n + of_nat (l + c) = of_nat (l + x + c) + of_nat n' + of_nat (l' + c')"
  shows "t = of_nat (l' + x' + c')"
proof -
  have "t + of_nat n = of_nat (l' + c') + (of_nat x + of_nat n')" using assms(2) by (simp add: algebra_simps)
  then show ?thesis unfolding assms(1)[symmetric] by (simp add: ac_simps)
qed

text \<open>A step of one worker that moves it, with what it does to the counters.\<close>

lemma count_inv_goto:
  assumes inv: "count_inv s" and i: "i < length (lr_workers s)" and w: "lr_workers s ! i = w" and pc: "wk_pc w = old"
    and s': "lr_workers s' = lr_workers s" "lr_rx_open s' = lr_rx_open s"
    and total: "lc_total_requests (lr_counters s') + of_nat (in_iteration w) + of_nat (length (lr_completed s) + lr_cut s) =
      lc_total_requests (lr_counters s) + of_nat (in_iteration (w\<lparr>wk_pc := new\<rparr>)) + of_nat (length (lr_completed s') + lr_cut s')"
    and active: "lc_active_workers (lr_counters s') + of_nat (started w) = lc_active_workers (lr_counters s) + of_nat (started (w\<lparr>wk_pc := new\<rparr>))"
    and done_: "lc_completed_requests (lr_counters s') = of_nat (length (lr_completed s'))"
      "lc_latency_count (lr_counters s') = of_nat (length (lr_completed s'))"
      "lc_errors (lr_counters s') = of_nat (length (filter rm_is_error (lr_completed s')))"
      "lc_bytes_received (lr_counters s') = sum_list (map rm_bytes_received (lr_completed s'))"
      "lc_latency_sum_micros (lr_counters s') = sum_list (map (\<lambda>m. ucast (rm_latency_micros m)) (lr_completed s'))"
    and over: "lr_rx_open s \<Longrightarrow> mset (lr_completed s') + mset (lr_sent s) + handing_over w =
      mset (lr_completed s) + mset (lr_sent s') + handing_over (w\<lparr>wk_pc := new\<rparr>)"
  shows "count_inv (goto i new s')"
proof -
  have i': "i < length (lr_workers s')" using i s'(1) by simp
  have it: "sum_list (map in_iteration (lr_workers (goto i new s'))) + in_iteration w =
      sum_list (map in_iteration (lr_workers s)) + in_iteration (w\<lparr>wk_pc := new\<rparr>)"
    using goto_sums[OF i', of in_iteration new] w s'(1) by simp
  have st: "sum_list (map started (lr_workers (goto i new s'))) + started w =
      sum_list (map started (lr_workers s)) + started (w\<lparr>wk_pc := new\<rparr>)"
    using goto_sums[OF i', of started new] w s'(1) by simp
  have ho: "sum_list (map handing_over (lr_workers (goto i new s'))) + handing_over w =
      sum_list (map handing_over (lr_workers s)) + handing_over (w\<lparr>wk_pc := new\<rparr>)"
    using goto_sums[OF i', of handing_over new] w s'(1) by simp
  have "lc_total_requests (lr_counters s) = of_nat (length (lr_completed s) + sum_list (map in_iteration (lr_workers s)) + lr_cut s)"
    "lc_active_workers (lr_counters s) = of_nat (sum_list (map started (lr_workers s)))"
    using inv by (simp_all add: count_inv_def Let_def)
  note base = this
  have "of_nat (sum_list (map in_iteration (lr_workers (goto i new s')))) + of_nat (in_iteration w) =
      (of_nat (sum_list (map in_iteration (lr_workers s))) + of_nat (in_iteration (w\<lparr>wk_pc := new\<rparr>)) :: u64)"
    using arg_cong[OF it, of of_nat] by (simp only: of_nat_add)
  then have t: "lc_total_requests (lr_counters s') =
      of_nat (length (lr_completed s') + sum_list (map in_iteration (lr_workers (goto i new s'))) + lr_cut s')"
    by (rule word_balance[OF _ total[unfolded base(1)]])
  have "of_nat (sum_list (map started (lr_workers (goto i new s')))) + of_nat (started w) =
      (of_nat (sum_list (map started (lr_workers s))) + of_nat (started (w\<lparr>wk_pc := new\<rparr>)) :: u64)"
    using arg_cong[OF st, of of_nat] by (simp only: of_nat_add)
  then have a: "lc_active_workers (lr_counters s') = of_nat (sum_list (map started (lr_workers (goto i new s'))))"
    using active unfolding base(2) by (metis add_right_cancel)
  have o: "mset (lr_completed s') = mset (lr_sent s') + sum_list (map handing_over (lr_workers (goto i new s')))" if "lr_rx_open s"
  proof -
    have "mset (lr_completed s) = mset (lr_sent s) + sum_list (map handing_over (lr_workers s))"
      using inv that by (simp add: count_inv_def Let_def)
    then have "mset (lr_completed s') + handing_over w =
        mset (lr_sent s') + (sum_list (map handing_over (lr_workers s)) + handing_over (w\<lparr>wk_pc := new\<rparr>))"
      using over[OF that] by (simp add: ac_simps)
    then show ?thesis unfolding ho[symmetric] by simp
  qed
  show ?thesis using t a o done_ s'(2) by (simp add: count_inv_def Let_def)
qed

lemma count_inv_worker:
  assumes "count_inv s"
  shows "count_inv (worker_step g i ev s)"
proof -
  note f = assms[unfolded count_inv_def Let_def]
  show ?thesis
  proof (cases ev)
    case Begins
    show ?thesis
      using f by (auto simp: assms Begins worker_step_def at_pc_def Let_def worker_sums intro!: count_inv_goto[OF assms])
  next
    case (Tests t)
    show ?thesis
      using f by (auto simp: assms Tests worker_step_def at_pc_def Let_def worker_sums intro!: count_inv_goto[OF assms])
  next
    case (Completes outcome)
    show ?thesis
      using f by (auto simp: assms Completes worker_step_def at_pc_def Let_def worker_sums count_completion_def intro!: count_inv_goto[OF assms])
  next
    case IsCut
    show ?thesis
      using f by (auto simp: assms IsCut worker_step_def at_pc_def Let_def worker_sums intro!: count_inv_goto[OF assms])
  next
    case Sends
    show ?thesis
      using f by (auto simp: assms Sends worker_step_def at_pc_def Let_def worker_sums intro!: count_inv_goto[OF assms] split: worker_pc.splits)
  next
    case SendFails
    show ?thesis
      using f by (auto simp: assms SendFails worker_step_def at_pc_def Let_def worker_sums intro!: count_inv_goto[OF assms] split: worker_pc.splits)
  next
    case Closes
    show ?thesis
      using f by (auto simp: assms Closes worker_step_def at_pc_def Let_def worker_sums intro!: count_inv_goto[OF assms])
  qed
qed

lemma cancel_token_fields [simp]:
  "lr_counters (cancel_token i s) = lr_counters s" "lr_sent (cancel_token i s) = lr_sent s" "lr_rx_open (cancel_token i s) = lr_rx_open s"
  "lr_cancel (cancel_token i s) = lr_cancel s" "lr_sup (cancel_token i s) = lr_sup s" "lr_child_tokens (cancel_token i s) = lr_child_tokens s"
  "lr_handles (cancel_token i s) = lr_handles s" "lr_reaped (cancel_token i s) = lr_reaped s"
  "lr_current_concurrency (cancel_token i s) = lr_current_concurrency s" "lr_completed (cancel_token i s) = lr_completed s"
  "lr_cut (cancel_token i s) = lr_cut s" "length (lr_workers (cancel_token i s)) = length (lr_workers s)"
  by (simp_all add: cancel_token_def)

lemma map_wk_pc_cancel: "map wk_pc (lr_workers (cancel_token i s)) = map wk_pc (lr_workers s)"
  by (cases "i < length (lr_workers s)") (auto simp: cancel_token_def map_update list_update_same_conv list_update_beyond)

lemma worker_sums_pc:
  "in_iteration = (\<lambda>pc. if pc = PRunning then 1 else 0) \<circ> wk_pc" "started = (\<lambda>pc. if pc = PSpawned \<or> pc = PFinished then 0 else 1) \<circ> wk_pc"
  "handing_over = (\<lambda>pc. case pc of PSending m \<Rightarrow> {#m#} | _ \<Rightarrow> {#}) \<circ> wk_pc"
  by (auto simp: worker_sums)

text \<open>Only the positions of the workers matter for the counters.\<close>

lemma count_inv_cong:
  assumes "count_inv s" and "map wk_pc (lr_workers s') = map wk_pc (lr_workers s)" and "lr_counters s' = lr_counters s"
    and "lr_completed s' = lr_completed s" and "lr_cut s' = lr_cut s" and "lr_sent s' = lr_sent s" and "lr_rx_open s' \<Longrightarrow> lr_rx_open s"
  shows "count_inv s'"
  using assms(1,3-) assms(2)[symmetric] unfolding count_inv_def Let_def worker_sums_pc map_map[symmetric] by simp

lemma fold_cancel_token:
  "map wk_pc (lr_workers (fold cancel_token is s)) = map wk_pc (lr_workers s) \<and> lr_counters (fold cancel_token is s) = lr_counters s \<and>
   lr_sent (fold cancel_token is s) = lr_sent s \<and> lr_rx_open (fold cancel_token is s) = lr_rx_open s \<and>
   lr_cancel (fold cancel_token is s) = lr_cancel s \<and> lr_child_tokens (fold cancel_token is s) = lr_child_tokens s \<and>
   lr_handles (fold cancel_token is s) = lr_handles s \<and> lr_reaped (fold cancel_token is s) = lr_reaped s \<and>
   lr_current_concurrency (fold cancel_token is s) = lr_current_concurrency s \<and>
   lr_completed (fold cancel_token is s) = lr_completed s \<and> lr_cut (fold cancel_token is s) = lr_cut s"
  by (induction "is" arbitrary: s) (simp_all add: map_wk_pc_cancel)

lemma count_inv_spawn:
  assumes "count_inv s"
  shows "count_inv (s\<lparr>lr_workers := lr_workers s @ [spawn_worker d]\<rparr>)"
  using assms by (simp add: count_inv_def Let_def worker_sums spawn_worker_def)

lemma count_inv_supervisor:
  assumes "count_inv s"
  shows "count_inv (supervisor_step g ev s)"
proof (cases ev)
  case (Looks t)
  show ?thesis
    by (auto simp: Looks supervisor_step_def assms fold_cancel_token intro!: count_inv_cong[OF assms])
next
  case Spawns
  show ?thesis
    by (auto simp: Spawns supervisor_step_def assms Let_def split: supervisor_pc.split intro!: count_inv_cong[OF count_inv_spawn[OF assms]])
next
  case Reaps
  show ?thesis
    by (auto simp: Reaps supervisor_step_def assms Let_def map_wk_pc_cancel split: supervisor_pc.split intro!: count_inv_cong[OF assms])
next
  case Scaled
  show ?thesis by (auto simp: Scaled supervisor_step_def assms split: supervisor_pc.split intro!: count_inv_cong[OF assms])
next
  case Joined
  show ?thesis by (auto simp: Joined supervisor_step_def assms intro!: count_inv_cong[OF assms])
next
  case TornDown
  show ?thesis by (auto simp: TornDown supervisor_step_def assms intro!: count_inv_cong[OF assms])
qed

interpretation local_counts: guarded_machine "run_step g" count_inv "\<lambda>_. True"
proof unfold_locales
  fix s ev
  assume inv: "count_inv s"
  show "count_inv (run_step g s ev)"
    using count_inv_worker[OF inv] count_inv_supervisor[OF inv]
    by (auto simp: run_step_def split: run_event.split intro!: count_inv_cong[OF inv])
qed

lemma sum_list_zeros: "sum_list (replicate n (0 :: 'a :: monoid_add)) = 0"
  by (induction n) simp_all

lemma count_inv_start: "count_inv (run_start strategy)"
  by (cases strategy)
    (simp_all add: run_start_def count_inv_def live_counters_new_def worker_sums spawn_worker_def sum_list_zeros)

section \<open>The workers of a profile\<close>

definition in_use :: "local_run \<Rightarrow> nat list" where
  "in_use s = lr_child_tokens s @ lr_reaped s"

definition supervised :: "nat \<Rightarrow> local_run \<Rightarrow> bool" where
  "supervised b s \<longleftrightarrow>
     lr_handles s = lr_child_tokens s \<and> lr_current_concurrency s = length (lr_child_tokens s) \<and>
     distinct (in_use s) \<and> (\<forall>i\<in>set (in_use s). i < length (lr_workers s)) \<and>
     (\<forall>i<length (lr_workers s). i \<notin> set (in_use s) \<longrightarrow> finished s i) \<and> length (in_use s) \<le> b \<and>
     (case lr_sup s of
        SIdle \<Rightarrow> lr_reaped s = []
      | SScale target _ \<Rightarrow> target \<le> b \<and> (lr_reaped s \<noteq> [] \<longrightarrow> target \<le> lr_current_concurrency s)
      | SJoin \<Rightarrow> True
      | STeardown \<Rightarrow> lr_reaped s = []
      | SEnded \<Rightarrow> \<forall>i<length (lr_workers s). finished s i)"

lemma worker_step_control:
  "lr_sup (worker_step g i ev s) = lr_sup s \<and> lr_child_tokens (worker_step g i ev s) = lr_child_tokens s \<and>
   lr_handles (worker_step g i ev s) = lr_handles s \<and> lr_reaped (worker_step g i ev s) = lr_reaped s \<and>
   lr_current_concurrency (worker_step g i ev s) = lr_current_concurrency s \<and>
   length (lr_workers (worker_step g i ev s)) = length (lr_workers s)"
  by (auto simp: worker_step_def Let_def split: worker_event.split worker_pc.split)

lemma goto_other: "wk_pc (lr_workers s ! i) \<noteq> PFinished \<Longrightarrow> finished s j \<Longrightarrow> finished (goto i pc s) j"
  by (cases "i < length (lr_workers s)"; cases "i = j") (auto simp: goto_def finished_def)

lemma finished_stays: "finished s j \<Longrightarrow> finished (worker_step g i ev s) j"
proof -
  assume j: "finished s j"
  have "finished (goto i pc s') j" if "lr_workers s' = lr_workers s" "wk_pc (lr_workers s ! i) \<noteq> PFinished" for pc s'
    using goto_other[of s' i j pc] that j by (simp add: finished_def)
  then show ?thesis
    using j by (auto simp: worker_step_def Let_def at_pc_def split: worker_event.split worker_pc.split)
qed

lemma supervised_worker: "supervised b s \<Longrightarrow> supervised b (worker_step g i ev s)"
  using worker_step_control[of g i ev s] finished_stays[of s _ g i ev]
  by (auto simp: supervised_def in_use_def split: supervisor_pc.split)

lemma finished_pcs: "map wk_pc (lr_workers s') = map wk_pc (lr_workers s) \<Longrightarrow> i < length (lr_workers s) \<Longrightarrow> finished s' i = finished s i"
  by (metis finished_def length_map nth_map)

lemma supervised_cancel: "supervised b s \<Longrightarrow> supervised b (cancel_token i s)"
  using finished_pcs[OF map_wk_pc_cancel, of _ s i]
  by (auto simp: supervised_def in_use_def split: supervisor_pc.split)

lemma supervised_step:
  assumes inv: "supervised b s" and p: "concurrency_upper_bound (rg_profile g) \<le> b" "b \<le> 2 ^ 52"
  shows "supervised b (supervisor_step g ev s)"
proof (cases ev)
  case (Looks t)
  have f: "length (lr_workers (fold cancel_token (lr_child_tokens s) s)) = length (lr_workers s)"
    "\<And>i. i < length (lr_workers s) \<Longrightarrow> finished (fold cancel_token (lr_child_tokens s) s) i = finished s i"
    using fold_cancel_token[of "lr_child_tokens s" s] by (metis length_map, metis finished_pcs)
  have "target_concurrency (rg_profile g) t \<le> b" using target_within_bound[of "rg_profile g" t] p by simp
  then show ?thesis
    using inv f by (auto simp: Looks supervisor_step_def supervised_def in_use_def fold_cancel_token finished_def)
next
  case Spawns
  have "supervised b (s\<lparr>lr_workers := lr_workers s @ [spawn_worker r], lr_child_tokens := lr_child_tokens s @ [length (lr_workers s)],
      lr_handles := lr_handles s @ [length (lr_workers s)], lr_current_concurrency := lr_current_concurrency s + 1\<rparr>)"
    if "lr_sup s = SScale target r" "lr_current_concurrency s < target" for target r
    using inv that by (auto simp: supervised_def in_use_def finished_def nth_append less_Suc_eq)
  then show ?thesis using inv by (auto simp: Spawns supervisor_step_def Let_def split: supervisor_pc.split)
next
  case Reaps
  have "supervised b (s1\<lparr>lr_child_tokens := butlast (lr_child_tokens s1), lr_reaped := lr_reaped s1 @ [last (lr_handles s1)],
      lr_handles := butlast (lr_handles s1), lr_current_concurrency := lr_current_concurrency s1 - 1\<rparr>)"
    if a: "supervised b s1" "lr_sup s1 = SScale target r" "target < lr_current_concurrency s1" for s1 target r
  proof -
    obtain ts x where t: "lr_child_tokens s1 = ts @ [x]"
      using a(1,3) by (cases "lr_child_tokens s1" rule: rev_cases) (auto simp: supervised_def)
    show ?thesis using a by (auto simp: supervised_def in_use_def finished_def t)
  qed
  from this[OF supervised_cancel[OF inv]] show ?thesis
    using inv by (auto simp: Reaps supervisor_step_def Let_def supervised_def[of b s] split: supervisor_pc.split)
next
  case Scaled
  show ?thesis using inv by (auto simp: Scaled supervisor_step_def supervised_def in_use_def finished_def split: supervisor_pc.splits)
next
  case Joined
  show ?thesis using inv by (auto simp: Joined supervisor_step_def supervised_def in_use_def finished_def list_all_iff)
next
  case TornDown
  show ?thesis using inv by (auto simp: TornDown supervisor_step_def supervised_def in_use_def finished_def list_all_iff)
qed

interpretation local_supervision: guarded_machine "run_step g" "supervised b"
  "\<lambda>_. concurrency_upper_bound (rg_profile g) \<le> b \<and> b \<le> 2 ^ 52"
proof unfold_locales
  fix s ev
  assume inv: "supervised b s" and p: "concurrency_upper_bound (rg_profile g) \<le> b \<and> b \<le> 2 ^ 52"
  have "supervised b (s\<lparr>lr_interrupted := True, lr_cancel := True\<rparr>)" "supervised b (s\<lparr>lr_rx_open := False\<rparr>)"
    using inv by (auto simp: supervised_def in_use_def finished_def split: supervisor_pc.splits)
  then show "supervised b (run_step g s ev)"
    using supervised_worker[OF inv] supervised_step[OF inv] p by (simp add: run_step_def split: run_event.split)
qed

text \<open>A constant load: its workers are fixed and the end waits for all of them.\<close>

definition constant_load :: "nat \<Rightarrow> local_run \<Rightarrow> bool" where
  "constant_load n s \<longleftrightarrow> lr_handles s = [0..<n] \<and> length (lr_workers s) = n \<and>
     (lr_sup s = STeardown \<or> lr_sup s = SEnded \<and> (\<forall>i<n. finished s i))"

interpretation local_constant: guarded_machine "run_step g" "constant_load n" "\<lambda>_. True"
proof unfold_locales
  fix s ev
  assume inv: "constant_load n s"
  have "constant_load n (worker_step g i e s)" for i e
    using inv worker_step_control[of g i e s] finished_stays[of s _ g i e] by (auto simp: constant_load_def)
  moreover have "constant_load n (supervisor_step g e s)" for e
    using inv by (cases e) (auto simp: constant_load_def supervisor_step_def finished_def list_all_iff)
  ultimately show "constant_load n (run_step g s ev)"
    using inv by (auto simp: run_step_def constant_load_def finished_def split: run_event.split)
qed

lemma started_count: "sum_list (map started ws) = card {i. i < length ws \<and> started (ws ! i) = 1}"
proof -
  have "sum_list (map started ws) = length (filter (\<lambda>w. started w = 1) ws)" by (induction ws) (auto simp: started_def)
  then show ?thesis by (simp add: length_filter_conv_card)
qed

lemma supervised_started: "supervised b s \<Longrightarrow> sum_list (map started (lr_workers s)) \<le> b"
proof -
  assume s: "supervised b s"
  have "sum_list (map started (lr_workers s)) \<le> card (set (in_use s))"
    unfolding started_count using s by (intro card_mono) (auto simp: supervised_def started_def finished_def)
  also have "\<dots> \<le> b" using s distinct_card[of "in_use s"] by (simp add: supervised_def)
  finally show ?thesis .
qed

lemma supervised_start: "supervised b (run_start (SDynamic p))"
  by (simp add: run_start_def supervised_def in_use_def)

lemma constant_start: "constant_load n (run_start (SConstant n d))"
  by (simp add: run_start_def constant_load_def)

text \<open>Nothing but an interrupt cancels the workers of a constant load.\<close>

definition uncut :: "local_run \<Rightarrow> bool" where
  "uncut s \<longleftrightarrow> lr_sup s \<in> {STeardown, SEnded} \<and>
     (\<not> lr_interrupted s \<longrightarrow> \<not> lr_cancel s \<and> lr_cut s = 0 \<and> (\<forall>w\<in>set (lr_workers s). \<not> wk_cancelled w))"

lemma goto_uncut: "uncut s' \<Longrightarrow> uncut (goto i pc s')"
  by (cases "i < length (lr_workers s')")
    (auto simp: uncut_def goto_def list_update_beyond dest!: set_update_subset_insert[THEN subsetD] nth_mem)

interpretation local_uncut: guarded_machine "run_step g" "uncut" "\<lambda>_. True"
proof unfold_locales
  fix s ev
  assume inv: "uncut s"
  have k: "uncut (s\<lparr>lr_counters := c\<rparr>)" "uncut (s\<lparr>lr_counters := c, lr_completed := ms\<rparr>)" "uncut (s\<lparr>lr_sent := ms\<rparr>)" for c ms
    using inv by (simp_all add: uncut_def)
  have "uncut (s\<lparr>lr_cut := n\<rparr>)" if "is_cancelled s i" "i < length (lr_workers s)" for n i
    using inv that by (auto simp: uncut_def is_cancelled_def)
  then have "uncut (worker_step g i e s)" for i e
    using inv k by (auto simp: worker_step_def Let_def at_pc_def intro!: goto_uncut split: worker_event.split worker_pc.split)
  moreover have "uncut (supervisor_step g e s)" for e
    using inv by (cases e) (auto simp: uncut_def supervisor_step_def)
  ultimately show "uncut (run_step g s ev)"
    using inv by (auto simp: run_step_def uncut_def split: run_event.split)
qed

lemma uncut_start: "uncut (run_start (SConstant n d))"
  by (simp add: run_start_def uncut_def spawn_worker_def)

section \<open>What a run reports\<close>

definition all_finished :: "local_run \<Rightarrow> bool" where
  "all_finished s \<longleftrightarrow> (\<forall>i<length (lr_workers s). finished s i)"

lemma all_finished_sums:
  assumes "all_finished s"
  shows "sum_list (map in_iteration (lr_workers s)) = 0" "sum_list (map started (lr_workers s)) = 0"
    "sum_list (map handing_over (lr_workers s)) = {#}"
proof -
  have "\<forall>w\<in>set (lr_workers s). wk_pc w = PFinished"
    using assms by (auto simp: all_finished_def finished_def in_set_conv_nth)
  then have "map in_iteration (lr_workers s) = map (\<lambda>_. 0) (lr_workers s)" "map started (lr_workers s) = map (\<lambda>_. 0) (lr_workers s)"
    "map handing_over (lr_workers s) = map (\<lambda>_. {#}) (lr_workers s)"
    by (simp_all add: worker_sums)
  then show "sum_list (map in_iteration (lr_workers s)) = 0" "sum_list (map started (lr_workers s)) = 0"
    "sum_list (map handing_over (lr_workers s)) = {#}" by (simp_all only: sum_list_0)
qed

lemma mset_eq_sums:
  assumes "mset xs = mset ys"
  shows "length xs = length ys" "length (filter P xs) = length (filter P ys)" "sum_list (map f xs) = (sum_list (map f ys) :: 'b :: comm_monoid_add)"
  using assms by (metis size_mset, metis mset_filter size_mset, metis mset_map sum_mset_sum_list)

lemma count_inv_finished:
  assumes "count_inv s" and "all_finished s" and "lr_rx_open s"
  shows "lc_total_requests (lr_counters s) = of_nat (length (lr_sent s) + lr_cut s)"
    "lc_completed_requests (lr_counters s) = of_nat (length (lr_sent s))" "lc_latency_count (lr_counters s) = of_nat (length (lr_sent s))"
    "lc_errors (lr_counters s) = of_nat (length (filter rm_is_error (lr_sent s)))"
    "lc_bytes_received (lr_counters s) = sum_list (map rm_bytes_received (lr_sent s))"
    "lc_latency_sum_micros (lr_counters s) = sum_list (map (\<lambda>m. ucast (rm_latency_micros m)) (lr_sent s))"
    "lc_active_workers (lr_counters s) = 0"
proof -
  have e: "mset (lr_completed s) = mset (lr_sent s)"
    using assms all_finished_sums[OF assms(2)] by (simp add: count_inv_def Let_def)
  note f = assms(1)[unfolded count_inv_def Let_def] all_finished_sums[OF assms(2)] mset_eq_sums[OF e]
  show "lc_total_requests (lr_counters s) = of_nat (length (lr_sent s) + lr_cut s)"
    "lc_completed_requests (lr_counters s) = of_nat (length (lr_sent s))" "lc_latency_count (lr_counters s) = of_nat (length (lr_sent s))"
    "lc_errors (lr_counters s) = of_nat (length (filter rm_is_error (lr_sent s)))"
    "lc_bytes_received (lr_counters s) = sum_list (map rm_bytes_received (lr_sent s))"
    "lc_latency_sum_micros (lr_counters s) = sum_list (map (\<lambda>m. ucast (rm_latency_micros m)) (lr_sent s))"
    "lc_active_workers (lr_counters s) = 0"
    using f by simp_all
qed

lemma run_reaches:
  "count_inv (foldl (run_step g) (run_start strategy) evs)"
  using local_counts.run_inv[OF count_inv_start] by simp

text \<open>The largest number of workers a strategy may have at once.\<close>

fun worker_limit :: "concurrency_strategy \<Rightarrow> nat" where
  "worker_limit (SConstant n _) = n"
| "worker_limit (SDynamic p) = concurrency_upper_bound p"

lemma run_supervised:
  assumes "worker_limit strategy \<le> 10000" and "\<And>p. strategy = SDynamic p \<Longrightarrow> rg_profile g = p"
  shows "sum_list (map started (lr_workers (foldl (run_step g) (run_start strategy) evs))) \<le> worker_limit strategy"
    and "lr_sup (foldl (run_step g) (run_start strategy) evs) = SEnded \<Longrightarrow> all_finished (foldl (run_step g) (run_start strategy) evs)"
proof -
  let ?s = "foldl (run_step g) (run_start strategy) evs"
  have "sum_list (map started (lr_workers ?s)) \<le> worker_limit strategy \<and> (lr_sup ?s = SEnded \<longrightarrow> all_finished ?s)"
  proof (cases strategy)
    case (SConstant n d)
    have "constant_load n ?s" using local_constant.run_inv[OF constant_start] SConstant by simp
    moreover have "sum_list (map started ws) \<le> length ws" for ws by (induction ws) (auto simp: started_def)
    from this[of "lr_workers ?s"] calculation show ?thesis by (auto simp: constant_load_def SConstant all_finished_def)
  next
    case (SDynamic p)
    have "concurrency_upper_bound (rg_profile g) \<le> worker_limit strategy \<and> worker_limit strategy \<le> 2 ^ 52"
      using assms SDynamic by simp
    then have "supervised (worker_limit strategy) ?s"
      using local_supervision.run_inv[OF supervised_start, where g = g] SDynamic by simp
    then show ?thesis using supervised_started by (auto simp: supervised_def all_finished_def)
  qed
  then show "sum_list (map started (lr_workers ?s)) \<le> worker_limit strategy" "lr_sup ?s = SEnded \<Longrightarrow> all_finished ?s" by auto
qed

text \<open>A short run, for examples: a worker whose one iteration fails, and the end.\<close>

definition sample_schedule :: "run_event list" where
  "sample_schedule =
     [WorkerEvent 0 Begins, WorkerEvent 0 (Tests 0), WorkerEvent 0 (Completes (IDone (rm_error 5 None))), WorkerEvent 0 Sends,
      WorkerEvent 0 (Tests (10 ^ 10)), WorkerEvent 0 Closes, SupervisorEvent TornDown]"

definition sample_settings :: run_settings where
  "sample_settings = \<lparr>rg_timeout = 10 ^ 9, rg_total = 10 ^ 9, rg_profile = LConstant 1 1\<rparr>"

lemmas run_steps = run_step_def worker_step_def supervisor_step_def at_pc_def goto_def is_cancelled_def finished_def Let_def

lemma sample_error: "rm_is_error (rm_error 5 None)"
  by (simp add: rm_error_def rm_builder_def rm_is_error_def)

lemma sample_run:
  assumes "s = foldl (run_step g) (run_start (SConstant 1 1)) sample_schedule"
  shows "lr_sup s = SEnded" "lr_rx_open s" "lr_sent s = [rm_error 5 None]" "\<not> lr_interrupted s" "length (lr_workers s) = 1" "finished s 0"
  using assms
  by (simp_all add: run_start_def sample_schedule_def run_steps spawn_worker_def live_counters_new_def from_secs_def iteration_metric_def)

text \<open>C9: the workers of a run.  Whatever the interleaving of the tasks, a run never has more workers started than its
  strategy allows, never more than the limit the entry points check, the supervisor never waits in its loop for a token
  that does not exist, and once it has ended no worker is left and the counter of active workers is back at zero.\<close>

theorem local_workers_bounded:
  assumes "ensure_concurrency_limit (worker_limit strategy) = Inr ()"
    and "\<forall>p. strategy = SDynamic p \<longrightarrow> rg_profile g = p"
    and "s = foldl (run_step g) (run_start strategy) evs"
  shows "sum_list (map started (lr_workers s)) \<le> worker_limit strategy \<and> worker_limit strategy \<le> max_concurrency_limit \<and>
    lc_active_workers (lr_counters s) = of_nat (sum_list (map started (lr_workers s))) \<and>
    (\<forall>target d. lr_sup s = SScale target d \<and> target < lr_current_concurrency s \<longrightarrow> lr_child_tokens s \<noteq> []) \<and>
    (lr_sup s = SEnded \<longrightarrow> all_finished s \<and> lc_active_workers (lr_counters s) = 0)"
proof -
  have l: "worker_limit strategy \<le> 10000"
    using assms(1) by (auto simp: ensure_concurrency_limit_def max_concurrency_limit_def split: if_splits)
  note sup = run_supervised[OF l, of g evs, folded assms(3)]
  have c: "count_inv s" using run_reaches assms(3) by blast
  have "lr_child_tokens s \<noteq> []" if "lr_sup s = SScale target d" "target < lr_current_concurrency s" for target d
  proof (cases strategy)
    case (SConstant n du)
    then have "constant_load n s" using local_constant.run_inv[OF constant_start] assms(3) by simp
    then show ?thesis using that by (simp add: constant_load_def)
  next
    case (SDynamic p)
    have "supervised (worker_limit strategy) s"
      using local_supervision.run_inv[OF supervised_start, where g = g] SDynamic assms(2,3) l by simp
    then show ?thesis using that by (auto simp: supervised_def)
  qed
  moreover have "lc_active_workers (lr_counters s) = of_nat (sum_list (map started (lr_workers s)))"
    using c by (simp add: count_inv_def Let_def)
  ultimately show ?thesis
    using sup assms(2) l by (auto simp: max_concurrency_limit_def all_finished_sums(2) simp del: sum_list_eq_0_iff)
qed

theorem local_workers_bounded_witness:
  "\<exists>s. s = foldl (run_step sample_settings) (run_start (SConstant 1 1)) sample_schedule \<and> lr_sup s = SEnded \<and>
     sum_list (map started (lr_workers s)) \<le> 1 \<and> all_finished s \<and> lc_active_workers (lr_counters s) = 0"
proof -
  have l: "ensure_concurrency_limit (worker_limit (SConstant 1 1)) = Inr ()"
    by (simp add: ensure_concurrency_limit_def max_concurrency_limit_def)
  obtain s where s: "s = foldl (run_step sample_settings) (run_start (SConstant 1 1)) sample_schedule" by blast
  have "\<forall>p. SConstant 1 1 = SDynamic p \<longrightarrow> rg_profile sample_settings = p" by simp
  from local_workers_bounded[OF l this s] show ?thesis using sample_run(1)[OF s] s unfolding worker_limit.simps by blast
qed



section \<open>Scaling\<close>

lemma spawns_run:
  assumes "lr_sup s = SScale target r" and "lr_current_concurrency s + n \<le> target"
  shows "foldl (run_step g) s (replicate n (SupervisorEvent Spawns)) =
    s\<lparr>lr_workers := lr_workers s @ replicate n (spawn_worker r),
      lr_child_tokens := lr_child_tokens s @ [length (lr_workers s)..<length (lr_workers s) + n],
      lr_handles := lr_handles s @ [length (lr_workers s)..<length (lr_workers s) + n],
      lr_current_concurrency := lr_current_concurrency s + n\<rparr>"
  using assms
proof (induction n arbitrary: s)
  case (Suc n)
  have "foldl (run_step g) s (replicate (Suc n) (SupervisorEvent Spawns)) =
      foldl (run_step g) (s\<lparr>lr_workers := lr_workers s @ [spawn_worker r], lr_child_tokens := lr_child_tokens s @ [length (lr_workers s)],
        lr_handles := lr_handles s @ [length (lr_workers s)], lr_current_concurrency := lr_current_concurrency s + 1\<rparr>)
        (replicate n (SupervisorEvent Spawns))"
    using Suc.prems by (simp add: run_step_def supervisor_step_def Let_def)
  also have "\<dots> = s\<lparr>lr_workers := lr_workers s @ replicate (Suc n) (spawn_worker r),
      lr_child_tokens := lr_child_tokens s @ [length (lr_workers s)..<length (lr_workers s) + Suc n],
      lr_handles := lr_handles s @ [length (lr_workers s)..<length (lr_workers s) + Suc n],
      lr_current_concurrency := lr_current_concurrency s + Suc n\<rparr>"
    using Suc.prems by (subst Suc.IH) (simp_all add: upt_conv_Cons replicate_append_same)
  finally show ?case .
qed simp

lemma cancel_token_workers: "lr_workers (cancel_token i s) = (lr_workers s)[i := (lr_workers s ! i)\<lparr>wk_cancelled := True\<rparr>]"
  by (simp add: cancel_token_def)

lemma reap_step:
  assumes "lr_sup s = SScale target r" and "target < length (lr_child_tokens s)" and "lr_handles s = lr_child_tokens s"
    and "lr_current_concurrency s = length (lr_child_tokens s)"
  shows "run_step g s (SupervisorEvent Reaps) =
    (cancel_token (last (lr_child_tokens s)) s)\<lparr>lr_child_tokens := butlast (lr_child_tokens s), lr_handles := butlast (lr_child_tokens s),
      lr_reaped := lr_reaped s @ [last (lr_child_tokens s)], lr_current_concurrency := length (lr_child_tokens s) - 1\<rparr>"
  using assms by (auto simp: run_step_def supervisor_step_def Let_def cancel_token_def)

lemma reaps_run:
  assumes "lr_sup s = SScale target r" and "target + n \<le> length (lr_child_tokens s)" and "lr_handles s = lr_child_tokens s"
    and "lr_current_concurrency s = length (lr_child_tokens s)" and "s' = foldl (run_step g) s (replicate n (SupervisorEvent Reaps))"
    and "k = length (lr_child_tokens s) - n"
  shows "lr_sup s' = lr_sup s \<and> lr_child_tokens s' = take k (lr_child_tokens s) \<and> lr_handles s' = take k (lr_child_tokens s) \<and>
    lr_reaped s' = lr_reaped s @ rev (drop k (lr_child_tokens s)) \<and> lr_current_concurrency s' = k \<and>
    length (lr_workers s') = length (lr_workers s) \<and>
    (\<forall>i<length (lr_workers s). i \<in> set (drop k (lr_child_tokens s)) \<longrightarrow> wk_cancelled (lr_workers s' ! i)) \<and>
    (\<forall>i<length (lr_workers s). i \<notin> set (drop k (lr_child_tokens s)) \<longrightarrow> lr_workers s' ! i = lr_workers s ! i)"
  using assms
proof (induction n arbitrary: s k)
  case (Suc n)
  define t where "t = run_step g s (SupervisorEvent Reaps)"
  obtain ts i where ts: "lr_child_tokens s = ts @ [i]"
    using Suc.prems(2) by (cases "lr_child_tokens s" rule: rev_cases) auto
  have t: "t = (cancel_token i s)\<lparr>lr_child_tokens := ts, lr_handles := ts, lr_reaped := lr_reaped s @ [i], lr_current_concurrency := length ts\<rparr>"
    using reap_step[of s target r g] Suc.prems by (simp add: t_def ts)
  note IH = Suc.IH[of t k]
  have k: "k \<le> length ts" "k = length ts - n" using Suc.prems by (simp_all add: ts)
  show ?case
    using IH Suc.prems k
    by (auto simp: t ts cancel_token_workers nth_list_update simp flip: t_def)
qed simp

text \<open>C10: scaling ends at its target.  From any state a run of a profile reaches in which the supervisor scales, spawning
  or reaping one worker at a time for as long as the two numbers differ ends the scaling with exactly the target as the
  number of workers.  Workers are reaped last in, first out; each one reaped is told to stop and is joined later, none of
  the others is disturbed, and every new one runs for the time that was left.\<close>

theorem scaling_finishes:
  assumes "concurrency_upper_bound (rg_profile g) \<le> max_concurrency_limit"
    and "s = foldl (run_step g) (run_start (SDynamic (rg_profile g))) evs" and "lr_sup s = SScale target remaining"
    and "s' = foldl (run_step g) s
           (replicate (target - lr_current_concurrency s) (SupervisorEvent Spawns) @
            replicate (lr_current_concurrency s - target) (SupervisorEvent Reaps) @ [SupervisorEvent Scaled])"
  shows "lr_sup s' = SJoin \<and> lr_current_concurrency s' = target \<and> length (lr_child_tokens s') = target \<and>
    lr_child_tokens s' = take target (lr_child_tokens s) @ [length (lr_workers s)..<length (lr_workers s')] \<and>
    lr_reaped s' = lr_reaped s @ rev (drop target (lr_child_tokens s)) \<and>
    (\<forall>i\<in>set (drop target (lr_child_tokens s)). wk_cancelled (lr_workers s' ! i)) \<and>
    (\<forall>i<length (lr_workers s). i \<notin> set (drop target (lr_child_tokens s)) \<longrightarrow> lr_workers s' ! i = lr_workers s ! i) \<and>
    (\<forall>i\<in>{length (lr_workers s)..<length (lr_workers s')}. lr_workers s' ! i = spawn_worker remaining)"
proof -
  have "supervised max_concurrency_limit s"
    using local_supervision.run_inv[OF supervised_start, where g = g] assms(1,2) by (simp add: max_concurrency_limit_def)
  then have inv: "lr_handles s = lr_child_tokens s" "lr_current_concurrency s = length (lr_child_tokens s)"
    "\<And>i. i \<in> set (lr_child_tokens s) \<Longrightarrow> i < length (lr_workers s)"
    by (auto simp: supervised_def in_use_def)
  have scaled: "run_step g u (SupervisorEvent Scaled) = u\<lparr>lr_sup := SJoin\<rparr>"
    if "lr_sup u = SScale target remaining" "lr_current_concurrency u = target" for u
    using that by (simp add: run_step_def supervisor_step_def)
  show ?thesis
  proof (cases "target \<le> lr_current_concurrency s")
    case True
    define u where "u = foldl (run_step g) s (replicate (lr_current_concurrency s - target) (SupervisorEvent Reaps))"
    have k: "target = length (lr_child_tokens s) - (lr_current_concurrency s - target)" using True inv by simp
    note r = reaps_run[OF assms(3) _ inv(1,2) u_def k]
    have "s' = u\<lparr>lr_sup := SJoin\<rparr>" using r scaled assms(3,4) True inv by (simp add: u_def)
    then show ?thesis using r inv True by (auto dest: in_set_dropD)
  next
    case False
    then have "s' = s\<lparr>lr_workers := lr_workers s @ replicate (target - lr_current_concurrency s) (spawn_worker remaining),
        lr_child_tokens := lr_child_tokens s @ [length (lr_workers s)..<length (lr_workers s) + (target - lr_current_concurrency s)],
        lr_handles := lr_handles s @ [length (lr_workers s)..<length (lr_workers s) + (target - lr_current_concurrency s)],
        lr_current_concurrency := target, lr_sup := SJoin\<rparr>"
      using assms(3,4) scaled by (simp add: spawns_run[OF assms(3)])
    then show ?thesis using False inv by (auto simp: nth_append)
  qed
qed

theorem scaling_finishes_witness:
  "\<exists>g s s'. s = foldl (run_step g) (run_start (SDynamic (rg_profile g))) [SupervisorEvent (Looks 0)] \<and>
     s' = foldl (run_step g) s (replicate (2 - 0) (SupervisorEvent Spawns) @ replicate (0 - 2) (SupervisorEvent Reaps) @ [SupervisorEvent Scaled]) \<and>
     lr_sup s' = SJoin \<and> length (lr_child_tokens s') = 2"
proof -
  define g where "g = sample_settings\<lparr>rg_profile := LConstant 2 1\<rparr>"
  obtain s where s: "s = foldl (run_step g) (run_start (SDynamic (rg_profile g))) [SupervisorEvent (Looks 0)]" by blast
  then have c: "lr_sup s = SScale 2 (10 ^ 9)" "lr_current_concurrency s = 0"
    by (simp_all add: run_start_def run_steps sample_settings_def as_secs_def g_def)
  obtain s' where s': "s' = foldl (run_step g) s
    (replicate (2 - 0) (SupervisorEvent Spawns) @ replicate (0 - 2) (SupervisorEvent Reaps) @ [SupervisorEvent Scaled])" by blast
  have "concurrency_upper_bound (rg_profile g) \<le> max_concurrency_limit" by (simp add: max_concurrency_limit_def g_def)
  note r = scaling_finishes[OF this s c(1), unfolded c(2), OF s']
  have "lr_sup s' = SJoin \<and> length (lr_child_tokens s') = 2"
    using conjunct1[OF r] conjunct1[OF conjunct2[OF conjunct2[OF r]]] by (rule conjI)
  then show ?thesis by (intro exI[of _ g] exI[of _ s] exI[of _ s'] conjI s s') simp_all
qed

section \<open>From the schedule to the summary\<close>

lemma map_fst_received [simp]: "map fst (received_metrics r s) = lr_sent s"
  by (simp add: received_metrics_def o_def map_nth)

lemma received_totals:
  assumes "ms = map fst received"
  shows "sum_list (map snd (am_status_codes (finalize_metrics H received iv starts ends))) = of_nat (length ms)"
    "count_of code (am_status_codes (finalize_metrics H received iv starts ends)) =
       of_nat (length (filter (\<lambda>m. code = rm_status_code m) ms))"
    "hm_inv (am_status_codes (finalize_metrics H received iv starts ends))"
    "am_total_bytes (finalize_metrics H received iv starts ends) = sum_list (map rm_bytes_received ms)"
    "am_chaos_injected_total (finalize_metrics H received iv starts ends) =
       of_nat (length (filter (\<lambda>m. rm_chaos_fault m \<noteq> None) ms))"
proof -
  obtain m p t where run: "aggregate_run H received iv starts = (m, p, t)"
    by (cases "aggregate_run H received iv starts")
  have c: "counter_value c (m, p, t) = sum_list (map (counter_weight c) ms)" for c
    using counter_run[of c H received iv starts] by (simp add: run o_def assms)
  show "sum_list (map snd (am_status_codes (finalize_metrics H received iv starts ends))) = of_nat (length ms)"
    "count_of code (am_status_codes (finalize_metrics H received iv starts ends)) =
       of_nat (length (filter (\<lambda>m. code = rm_status_code m) ms))"
    "hm_inv (am_status_codes (finalize_metrics H received iv starts ends))"
    "am_total_bytes (finalize_metrics H received iv starts ends) = sum_list (map rm_bytes_received ms)"
    "am_chaos_injected_total (finalize_metrics H received iv starts ends) =
       of_nat (length (filter (\<lambda>m. rm_chaos_fault m \<noteq> None) ms))"
    using c[of Requests] c[of "StatusOf code"] c[of BytesReceived] c[of ChaosInjected] agg_inv_run[of H received iv starts]
    by (simp_all add: finalize_metrics_run[OF run] finish_into_def counter_weight_fun sum_opt0_one sum_one sum_indicator run agg_inv_def)
qed

lemma run_strategy_Inr:
  assumes "run_strategy H cr runtime r schedule config limit pool_size profile strategy = Inr summary"
  obtains engine s where "ensure_concurrency_limit limit = Inr ()"
    "build_engine cr config (chaos_engine_new (tg_chaos config) (tg_chaos_rate config)) pool_size = Inr engine"
    "s = foldl (run_step \<lparr>rg_timeout = iteration_timeout (tg_timeout_secs config),
          rg_total = from_secs (unat (total_duration_secs strategy)), rg_profile = profile\<rparr>) (run_start strategy) (schedule engine)"
    "execute_test H (tg_url config) strategy (run_labels_of config) (tg_sys_sample_interval config)
       (tg_timeline_interval_ms config) r s = Inr summary"
  using assms by (auto simp: run_strategy_def Let_def split: sum.splits)

lemma execute_test_totals:
  assumes "execute_test H url strategy labels sys iv r s = Inr summary"
  shows "\<not> lr_interrupted s" "su_total_requests summary = unat (lc_total_requests (lr_counters s))"
    "su_total_errors summary = unat (lc_errors (lr_counters s))"
    "su_total_bytes_received summary = sum_list (map rm_bytes_received (lr_sent s))" "su_url summary = url"
    "su_workers summary = strategy_max_concurrency strategy" "su_duration_secs summary = as_secs_f64 (rr_elapsed r)"
  using assms
  by (auto simp: execute_test_def calculate_summary_def Let_def received_totals[OF map_fst_received[symmetric]] split: if_splits)

lemma execute_test_statuses:
  assumes "execute_test H url strategy labels sys iv r s = Inr summary"
  shows "sum_list (map snd (su_status_codes summary)) = of_nat (length (lr_sent s))" "hm_inv (su_status_codes summary)"
    "count_of code (su_status_codes summary) = of_nat (length (filter (\<lambda>m. code = rm_status_code m) (lr_sent s)))"
    "su_chaos_injected_total summary = of_nat (length (filter (\<lambda>m. rm_chaos_fault m \<noteq> None) (lr_sent s)))"
  using assms
  by (auto simp: execute_test_def calculate_summary_def Let_def received_totals[OF map_fst_received[symmetric]] split: if_splits)

lemma unat_u64_mod: "unat (of_nat n :: u64) = n mod 2 ^ 64"
  by (simp add: unsigned_of_nat take_bit_eq_mod)

lemma execute_test_ends: "\<not> lr_interrupted s \<Longrightarrow> \<exists>summary. execute_test H url strategy labels sys iv r s = Inr summary"
  by (simp add: execute_test_def Let_def)

lemma run_strategy_ends:
  assumes "ensure_concurrency_limit limit = Inr ()"
    and "build_engine cr config (chaos_engine_new (tg_chaos config) (tg_chaos_rate config)) pool_size = Inr engine"
    and "\<And>g. \<not> lr_interrupted (foldl (run_step g) (run_start strategy) (schedule engine))"
  shows "\<exists>summary. run_strategy H cr (Inr ()) r schedule config limit pool_size profile strategy = Inr summary"
  using assms by (auto simp: run_strategy_def Let_def intro: execute_test_ends)

text \<open>
  From the schedule of a run to its summary: the engine was built from the configuration, the run was not interrupted,
  and once the supervisor has ended with the receiver open the summary has the counters of the metrics sent.  Under a
  constant load no iteration is cancelled in flight.
\<close>

lemma local_summary_exact:
  assumes "(strategy, Inr summary) \<in>
      {(SConstant (tg_concurrency config) (tg_duration_secs config), run_load_test H cr runtime r schedule config),
       (SDynamic profile, run_load_profiles H cr runtime r schedule config profile)}"
  obtains engine g s where
    "build_engine cr config (chaos_engine_new (tg_chaos config) (tg_chaos_rate config)) (strategy_max_concurrency strategy) = Inr engine"
    "s = foldl (run_step g) (run_start strategy) (schedule engine)" "\<not> lr_interrupted s" "worker_limit strategy \<le> max_concurrency_limit"
    "\<And>n d. strategy = SConstant n d \<Longrightarrow> lr_cut s = 0"
    "execute_test H (tg_url config) strategy (run_labels_of config) (tg_sys_sample_interval config)
       (tg_timeline_interval_ms config) r s = Inr summary"
    "lr_sup s = SEnded \<Longrightarrow> lr_rx_open s \<Longrightarrow> su_total_requests summary = (length (lr_sent s) + lr_cut s) mod 2 ^ 64 \<and>
       su_total_errors summary = length (filter rm_is_error (lr_sent s)) mod 2 ^ 64 \<and>
       su_total_bytes_received summary = lc_bytes_received (lr_counters s)"
proof -
  obtain p where "run_strategy H cr runtime r schedule config (worker_limit strategy) (strategy_max_concurrency strategy) p strategy = Inr summary"
    and p: "\<And>q. strategy = SDynamic q \<Longrightarrow> p = q"
    using assms by (auto simp: run_load_test_def run_load_profiles_def)
  from run_strategy_Inr[OF this(1)] obtain engine g s where
    limit: "ensure_concurrency_limit (worker_limit strategy) = Inr ()" and
    engine: "build_engine cr config (chaos_engine_new (tg_chaos config) (tg_chaos_rate config)) (strategy_max_concurrency strategy) = Inr engine" and
    s: "s = foldl (run_step g) (run_start strategy) (schedule engine)" and g: "rg_profile g = p" and
    res: "execute_test H (tg_url config) strategy (run_labels_of config) (tg_sys_sample_interval config)
       (tg_timeline_interval_ms config) r s = Inr summary"
    by (metis run_settings.select_convs(3))
  have l: "worker_limit strategy \<le> max_concurrency_limit" using limit by (simp add: ensure_concurrency_limit_def split: if_splits)
  note totals = execute_test_totals[OF res]
  have uncut: "lr_cut s = 0" if "strategy = SConstant n d" for n d
    using local_uncut.run_inv[OF uncut_start] that s totals(1) by (auto simp: uncut_def)
  have c: "count_inv s" using run_reaches s by blast
  have f: "all_finished s" if "lr_sup s = SEnded"
    using run_supervised(2)[of strategy g "schedule engine"] p g that l unfolding s by (auto simp: max_concurrency_limit_def)
  have t: "su_total_requests summary = (length (lr_sent s) + lr_cut s) mod 2 ^ 64 \<and>
      su_total_errors summary = length (filter rm_is_error (lr_sent s)) mod 2 ^ 64 \<and>
      su_total_bytes_received summary = lc_bytes_received (lr_counters s)" if "lr_sup s = SEnded" "lr_rx_open s"
    unfolding totals(2,3,4) count_inv_finished(1,4,5)[OF c f[OF that(1)] that(2)] by (intro conjI unat_u64_mod refl)
  show ?thesis by (rule that[OF engine s totals(1) l _ res]) (use uncut t in simp_all)
qed

text \<open>A run for examples, with its summary.\<close>

definition sample_load :: test_config where
  "sample_load = (sample_test ''sse://h/events'')\<lparr>tg_concurrency := 1, tg_duration_secs := 1\<rparr>"

definition sample_readings :: run_readings where
  "sample_readings =
     \<lparr>rr_clock = (\<lambda>_. \<lparr>ec_guard = 0, ec_run = 0, ec_interval = 0, ec_reset = 0\<rparr>), rr_starts = (0, 0), rr_ends = (0, 0), rr_elapsed = 0, rr_samples = []\<rparr>"

lemma sample_summary:
  "\<exists>summary. run_load_test exact_hdr sample_crates (Inr ()) sample_readings (\<lambda>_. sample_schedule) sample_load = Inr summary"
proof -
  have f: "tg_graphql_query sample_load = None" "\<not> tg_soap_enabled sample_load" "tg_url sample_load = ''sse://h/events''"
    "tg_concurrency sample_load = 1" "tg_duration_secs sample_load = 1"
    by (simp_all add: sample_load_def sample_test_def build_def builder_new_def test_config_builder_default_def)
  have "\<exists>e. build_engine sample_crates sample_load (chaos_engine_new (tg_chaos sample_load) (tg_chaos_rate sample_load)) 1 = Inr e"
    by (simp add: build_engine_def f is_protocol_url_def detect_protocol_def)
  then obtain e where
    e: "build_engine sample_crates sample_load (chaos_engine_new (tg_chaos sample_load) (tg_chaos_rate sample_load)) 1 = Inr e" ..
  have "ensure_concurrency_limit 1 = Inr ()" by (simp add: ensure_concurrency_limit_def max_concurrency_limit_def)
  from run_strategy_ends[OF this e sample_run(4)[OF refl]] show ?thesis unfolding run_load_test_def f(4,5) by blast
qed

end
