(* ===== verification/Report_Artifact.thy ===== *)
theory Report_Artifact
  imports Local_Run
begin

text \<open>
  The report of a run (\<open>report/schema.rs\<close>): the artifact built from a summary and a configuration, with the
  evaluation of the service-level objectives.  Writing it as JSON is the derived code of another crate; modelled is which
  keys it has.  The environment variables of the host are arguments.
\<close>

section \<open>The artifact\<close>

record connection_pool_metrics =
  cpm_socket_creation_rate :: f64
  cpm_socket_reuse_rate :: f64
  cpm_dns_lookup_ms :: f64

record slo_check =
  slk_name :: string
  slk_observed :: f64
  slk_threshold :: f64
  slk_comparator :: string
  slk_passed :: bool

record slo_result =
  slr_passed :: bool
  slr_checks :: "slo_check list"

record system_summary_display =
  ssd_peak_cpu_percent :: f64
  ssd_avg_cpu_percent :: f64
  ssd_peak_memory_mb :: f64
  ssd_avg_memory_mb :: f64
  ssd_peak_threads :: usize

record system_sample_display =
  sad_elapsed_sec :: f64
  sad_cpu_percent :: f64
  sad_memory_mb :: f64
  sad_threads :: usize

record system_metrics_display =
  smd_summary :: system_summary_display
  smd_samples :: "system_sample_display list"

record cli_options =
  clo_method :: string
  clo_concurrency :: usize
  clo_timeout_secs :: u64
  clo_chaos :: bool
  clo_chaos_rate :: f32
  clo_test_seed :: u64
  clo_body :: "string option"
  clo_headers :: "(string \<times> string) list option"
  clo_slo_p95_ms :: "f64 option"
  clo_slo_p99_ms :: "f64 option"
  clo_slo_error_rate :: "f64 option"
  clo_slo_min_rps :: "f64 option"

record system_info =
  sin_hostname :: string
  sin_platform :: string
  sin_version :: string

record report_metadata =
  rmd_timestamp :: string
  rmd_duration_secs :: f64
  rmd_target_url :: string
  rmd_cli_options :: cli_options
  rmd_system_info :: system_info

record report_summary =
  rsu_total_requests :: u64
  rsu_successful_requests :: u64
  rsu_failed_requests :: u64
  rsu_rps :: f64
  rsu_bytes_transferred :: u64

record latency_percentiles =
  lp_p50_us :: f64
  lp_p90_us :: f64
  lp_p95_us :: f64
  lp_p99_us :: f64
  lp_p99_99_us :: f64
  lp_min_us :: f64
  lp_max_us :: f64
  lp_mean_us :: f64
  lp_std_dev_us :: f64

record report_artifact =
  ra_metadata :: report_metadata
  ra_summary :: report_summary
  ra_latency_percentiles :: latency_percentiles
  ra_error_breakdown :: "(string, u64) hash_map"
  ra_avg_connection_latency_us :: "f64 option"
  ra_quic :: "quic_metrics option"
  ra_sse :: "sse_metrics option"
  ra_websocket :: "websocket_metrics option"
  ra_grpc :: "grpc_metrics option"
  ra_http3 :: "http3_metrics option"
  ra_graphql :: "graphql_metrics option"
  ra_graphql_ws :: "graphql_ws_metrics option"
  ra_soap :: "soap_metrics option"
  ra_stomp :: "stomp_metrics option"
  ra_database :: "database_metrics option"
  ra_slo :: "slo_result option"
  ra_timeline :: "timeline option"
  ra_chaos :: "chaos_metrics option"
  ra_latency_histogram :: "(string, u64) hash_map option"
  ra_system_metrics :: "system_metrics_display option"
  ra_connection_pool :: "connection_pool_metrics option"

section \<open>Conversions\<close>

definition round1 :: "f64 \<Rightarrow> f64" where
  "round1 v = f64_div (f_round (f64_mul v (Fin 10))) (Fin 10)"

definition megabytes :: "u64 \<Rightarrow> f64" where
  "megabytes n = round1 (f64_div (f64_of_u64 n) (f64_mul (Fin 1024) (Fin 1024)))"

definition system_sample_display_of :: "resource_sample \<Rightarrow> system_sample_display" where
  "system_sample_display_of s =
     \<lparr>sad_elapsed_sec = round1 (f64_div (f64_of_u64 (rsp_timestamp_us s)) (Fin 1000000)),
      sad_cpu_percent = rsp_cpu_usage_percent s, sad_memory_mb = megabytes (rsp_memory_rss_bytes s), sad_threads = rsp_thread_count s\<rparr>"

definition system_metrics_display_of :: "system_metrics \<Rightarrow> system_metrics_display" where
  "system_metrics_display_of sm =
     \<lparr>smd_summary =
        \<lparr>ssd_peak_cpu_percent = sy_peak_cpu_percent sm, ssd_avg_cpu_percent = sy_avg_cpu_percent sm,
         ssd_peak_memory_mb = megabytes (sy_peak_memory_rss_bytes sm), ssd_avg_memory_mb = megabytes (sy_avg_memory_rss_bytes sm),
         ssd_peak_threads = sy_peak_thread_count sm\<rparr>,
      smd_samples = map system_sample_display_of (sy_time_series sm)\<rparr>"

definition micros :: "f64 \<Rightarrow> f64" where
  "micros ms = f64_mul ms (Fin 1000)"

definition latency_percentiles_of :: "test_summary \<Rightarrow> latency_percentiles" where
  "latency_percentiles_of s =
     \<lparr>lp_p50_us = micros (su_p50_latency_ms s), lp_p90_us = micros (su_p90_latency_ms s), lp_p95_us = micros (su_p95_latency_ms s),
      lp_p99_us = micros (su_p99_latency_ms s), lp_p99_99_us = micros (su_p99_99_latency_ms s), lp_min_us = micros (su_min_latency_ms s),
      lp_max_us = micros (su_max_latency_ms s), lp_mean_us = micros (su_average_latency_ms s),
      lp_std_dev_us = micros (su_std_dev_latency_ms s)\<rparr>"

text \<open>The environment of the process and the constants of the build.\<close>

record host_env =
  he_hostname :: "string option"
  he_computername :: "string option"
  he_os :: string
  he_version :: string

definition get_system_info :: "host_env \<Rightarrow> system_info" where
  "get_system_info env =
     \<lparr>sin_hostname = (case he_hostname env of
                         Some h \<Rightarrow> h
                       | None \<Rightarrow> (case he_computername env of Some h \<Rightarrow> h | None \<Rightarrow> ''unknown'')),
      sin_platform = he_os env, sin_version = he_version env\<rparr>"

section \<open>Objectives\<close>

definition slo_push :: "string \<Rightarrow> f64 \<Rightarrow> f64 option \<Rightarrow> string \<Rightarrow> slo_check list \<Rightarrow> slo_check list" where
  "slo_push name seen threshold comparator checks =
     (case threshold of
        None \<Rightarrow> checks
      | Some t \<Rightarrow>
          checks @ [\<lparr>slk_name = name, slk_observed = seen, slk_threshold = t, slk_comparator = comparator,
                     slk_passed = (if comparator = ''>='' then f_le t seen else f_le seen t)\<rparr>])"

definition evaluate_slo :: "test_config \<Rightarrow> f64 \<Rightarrow> f64 \<Rightarrow> f64 \<Rightarrow> f64 \<Rightarrow> slo_result option" where
  "evaluate_slo config p95_ms p99_ms error_rate_percent rps =
     (let checks = slo_push ''p95_latency_ms'' p95_ms (tg_slo_p95_ms config) ''<='' [];
          checks = slo_push ''p99_latency_ms'' p99_ms (tg_slo_p99_ms config) ''<='' checks;
          checks = slo_push ''error_rate_percent'' error_rate_percent (tg_slo_error_rate config) ''<='' checks;
          checks = slo_push ''rps'' rps (tg_slo_min_rps config) ''>='' checks
      in if checks = [] then None else Some \<lparr>slr_passed = list_all slk_passed checks, slr_checks = checks\<rparr>)"

section \<open>Building the artifact\<close>

definition status_breakdown :: "(u16, u64) hash_map \<Rightarrow> (string, u64) hash_map" where
  "status_breakdown codes = foldl (\<lambda>m (k, v). AList.update (show_nat (unat k)) v m) [] codes"

definition summary_rps :: "test_summary \<Rightarrow> f64" where
  "summary_rps summary =
     (if f_less (Fin 0) (su_duration_secs summary)
      then f64_div (f64_of_nat (su_total_requests summary)) (su_duration_secs summary) else Fin 0)"

definition summary_error_rate :: "test_summary \<Rightarrow> f64" where
  "summary_error_rate summary =
     (if su_total_requests summary > 0
      then f64_mul (f64_div (f64_of_nat (su_total_errors summary)) (f64_of_nat (su_total_requests summary))) (Fin 100) else Fin 0)"

definition cli_options_of :: "test_config \<Rightarrow> cli_options" where
  "cli_options_of config =
     \<lparr>clo_method = tg_method config, clo_concurrency = tg_concurrency config, clo_timeout_secs = tg_timeout_secs config,
      clo_chaos = tg_chaos config, clo_chaos_rate = tg_chaos_rate config, clo_test_seed = tg_test_seed config,
      clo_body = tg_body config, clo_headers = tg_headers config, clo_slo_p95_ms = tg_slo_p95_ms config,
      clo_slo_p99_ms = tg_slo_p99_ms config, clo_slo_error_rate = tg_slo_error_rate config, clo_slo_min_rps = tg_slo_min_rps config\<rparr>"

definition from_summary_and_config :: "host_env \<Rightarrow> test_summary \<Rightarrow> test_config \<Rightarrow> report_artifact" where
  "from_summary_and_config env summary config =
     \<lparr>ra_metadata =
        \<lparr>rmd_timestamp = su_timestamp summary, rmd_duration_secs = su_duration_secs summary, rmd_target_url = tg_url config,
         rmd_cli_options = cli_options_of config, rmd_system_info = get_system_info env\<rparr>,
      ra_summary =
        \<lparr>rsu_total_requests = of_nat (su_total_requests summary),
         rsu_successful_requests = of_nat (su_total_requests summary - su_total_errors summary),
         rsu_failed_requests = of_nat (su_total_errors summary), rsu_rps = summary_rps summary,
         rsu_bytes_transferred = su_total_bytes_received summary\<rparr>,
      ra_latency_percentiles = latency_percentiles_of summary, ra_error_breakdown = status_breakdown (su_status_codes summary),
      ra_avg_connection_latency_us =
        (if f_less (Fin 0) (su_avg_connection_latency_us summary) then Some (su_avg_connection_latency_us summary) else None),
      ra_quic = su_quic summary, ra_sse = su_sse summary, ra_websocket = su_ws summary, ra_grpc = su_grpc summary,
      ra_http3 = su_http3 summary, ra_graphql = su_graphql summary, ra_graphql_ws = su_graphql_ws summary, ra_soap = su_soap summary,
      ra_stomp = su_stomp summary, ra_database = su_database summary,
      ra_slo = evaluate_slo config (su_p95_latency_ms summary) (su_p99_latency_ms summary) (summary_error_rate summary) (summary_rps summary),
      ra_timeline = su_timeline summary,
      ra_chaos =
        (if su_chaos_injected_total summary > 0
         then Some \<lparr>chm_total_injected = su_chaos_injected_total summary, chm_faults_by_type = su_chaos_faults_by_type summary\<rparr>
         else None),
      ra_latency_histogram = Some (su_latency_histogram summary),
      ra_system_metrics = map_option system_metrics_display_of (su_system_metrics summary),
      ra_connection_pool =
        (if su_total_requests summary > 0
         then Some \<lparr>cpm_socket_creation_rate = f64_sub (Fin 1) (su_connection_reuse_ratio summary),
                    cpm_socket_reuse_rate = su_connection_reuse_ratio summary, cpm_dns_lookup_ms = su_avg_dns_resolution_ms summary\<rparr>
         else None)\<rparr>"

text \<open>The keys of the JSON object, in order: a section that is absent has none.\<close>

definition key_if :: "string \<Rightarrow> 'a option \<Rightarrow> string list" where
  "key_if name x = (case x of None \<Rightarrow> [] | Some _ \<Rightarrow> [name])"

definition artifact_keys :: "report_artifact \<Rightarrow> string list" where
  "artifact_keys a =
     [''metadata'', ''summary'', ''latency_percentiles'', ''error_breakdown''] @
     key_if ''avg_connection_latency_us'' (ra_avg_connection_latency_us a) @ key_if ''quic'' (ra_quic a) @ key_if ''sse'' (ra_sse a) @
     key_if ''websocket'' (ra_websocket a) @ key_if ''grpc'' (ra_grpc a) @ key_if ''http3'' (ra_http3 a) @
     key_if ''graphql'' (ra_graphql a) @ key_if ''graphql_ws'' (ra_graphql_ws a) @ key_if ''soap'' (ra_soap a) @
     key_if ''stomp'' (ra_stomp a) @ key_if ''database'' (ra_database a) @ key_if ''slo'' (ra_slo a) @
     key_if ''timeline'' (ra_timeline a) @ key_if ''chaos_faults'' (ra_chaos a) @ key_if ''latency_histogram'' (ra_latency_histogram a) @
     key_if ''system_metrics'' (ra_system_metrics a) @ key_if ''connection_pool'' (ra_connection_pool a)"

section \<open>The breakdown by status\<close>

lemma update_absent: "k \<notin> fst ` set m \<Longrightarrow> AList.update k v m = m @ [(k, v)]"
  by (induction m) auto

lemma collect_distinct:
  assumes "distinct (map fst (m @ kvs))"
  shows "foldl (\<lambda>m (k, v). AList.update k v m) m kvs = m @ kvs"
  using assms
proof (induction kvs arbitrary: m)
  case (Cons kv kvs)
  then have "AList.update (fst kv) (snd kv) m = m @ [kv]"
    by (cases kv) (auto intro: update_absent)
  then show ?case using Cons by (simp add: case_prod_beta)
qed simp

lemma status_breakdown_map:
  assumes "hm_inv codes"
  shows "status_breakdown codes = map (\<lambda>(k, v). (show_nat (unat k), v)) codes"
proof -
  have "distinct (map (\<lambda>x. show_nat (unat (fst x))) codes)"
    using assms by (auto simp: hm_inv_def distinct_map inj_on_def word_unat_eq_iff dest!: show_nat_inj)
  then have "distinct (map fst ([] @ map (\<lambda>(k, v). (show_nat (unat k), v)) codes))"
    by (simp add: case_prod_beta o_def)
  from collect_distinct[OF this] show ?thesis
    by (simp add: status_breakdown_def foldl_map case_prod_unfold)
qed

section \<open>The verdict on the objectives\<close>

text \<open>The configured objectives of a run: name, value seen, threshold and whether it is met.\<close>

definition objectives :: "test_config \<Rightarrow> test_summary \<Rightarrow> (string \<times> f64 \<times> f64 \<times> bool) list" where
  "objectives config summary =
     (case tg_slo_p95_ms config of None \<Rightarrow> [] | Some t \<Rightarrow>
        [(''p95_latency_ms'', su_p95_latency_ms summary, t, f_le (su_p95_latency_ms summary) t)]) @
     (case tg_slo_p99_ms config of None \<Rightarrow> [] | Some t \<Rightarrow>
        [(''p99_latency_ms'', su_p99_latency_ms summary, t, f_le (su_p99_latency_ms summary) t)]) @
     (case tg_slo_error_rate config of None \<Rightarrow> [] | Some t \<Rightarrow>
        [(''error_rate_percent'', summary_error_rate summary, t, f_le (summary_error_rate summary) t)]) @
     (case tg_slo_min_rps config of None \<Rightarrow> [] | Some t \<Rightarrow>
        [(''rps'', summary_rps summary, t, f_le t (summary_rps summary))])"

definition check_view :: "slo_check \<Rightarrow> string \<times> f64 \<times> f64 \<times> bool" where
  "check_view c = (slk_name c, slk_observed c, slk_threshold c, slk_passed c)"

lemma evaluate_slo_objectives:
  "evaluate_slo config (su_p95_latency_ms summary) (su_p99_latency_ms summary) (summary_error_rate summary) (summary_rps summary) =
     (let cs = map (\<lambda>(n, v, t, ok). \<lparr>slk_name = n, slk_observed = v, slk_threshold = t,
          slk_comparator = (if n = ''rps'' then ''>='' else ''<=''), slk_passed = ok\<rparr>) (objectives config summary)
      in if cs = [] then None else Some \<lparr>slr_passed = list_all slk_passed cs, slr_checks = cs\<rparr>)"
  by (simp add: evaluate_slo_def slo_push_def objectives_def Let_def split: option.split)

lemma error_rate_percent:
  assumes "su_total_errors summary \<le> su_total_requests summary" "su_total_requests summary < 2 ^ 64"
  shows "f_le (Fin 0) (summary_error_rate summary) \<and> f_le (summary_error_rate summary) (Fin 100)"
  using f64_percent_bounds[OF assms(1) _ assms(2)] by (auto simp: summary_error_rate_def)

lemma key_if_other: "name \<noteq> key \<Longrightarrow> key \<notin> set (key_if name x)"
  by (cases x) (simp_all add: key_if_def)

text \<open>C14: the verdict on the objectives.  The report has a section for them exactly when a threshold is configured; its checks
  are the configured ones in order, each with the value it is about: the two percentiles of the summary, the rate of
  errors, a percentage whenever the errors are among the requests, and the rate of requests.  A check passes exactly when
  its value is on the right side of the threshold, and the run passes exactly when all checks do.\<close>

theorem slo_verdict:
  assumes "a = from_summary_and_config env summary config"
  shows "(''slo'' \<in> set (artifact_keys a) \<longleftrightarrow> objectives config summary \<noteq> []) \<and>
    (ra_slo a = None \<longleftrightarrow> objectives config summary = []) \<and>
    (\<forall>r. ra_slo a = Some r \<longrightarrow> map check_view (slr_checks r) = objectives config summary \<and>
       (slr_passed r \<longleftrightarrow> (\<forall>(name, v, t, met)\<in>set (objectives config summary). met))) \<and>
    (su_total_errors summary \<le> su_total_requests summary \<and> su_total_requests summary < 2 ^ 64 \<longrightarrow>
       f_le (Fin 0) (summary_error_rate summary) \<and> f_le (summary_error_rate summary) (Fin 100))"
proof -
  have slo: "ra_slo a = evaluate_slo config (su_p95_latency_ms summary) (su_p99_latency_ms summary) (summary_error_rate summary) (summary_rps summary)"
    by (simp add: assms from_summary_and_config_def)
  have "''slo'' \<in> set (artifact_keys a) \<longleftrightarrow> ''slo'' \<in> set (key_if ''slo'' (ra_slo a))"
    by (simp add: artifact_keys_def key_if_other)
  then have keys: "''slo'' \<in> set (artifact_keys a) \<longleftrightarrow> ra_slo a \<noteq> None" by (cases "ra_slo a") (simp_all add: key_if_def)
  have view: "map check_view (map (\<lambda>(n, v, t, ok). \<lparr>slk_name = n, slk_observed = v, slk_threshold = t,
          slk_comparator = (if n = ''rps'' then ''>='' else ''<=''), slk_passed = ok\<rparr>) os) = os" for os
    by (induction os) (auto simp: check_view_def)
  show ?thesis
  proof (cases "objectives config summary = []")
    case True
    then have "ra_slo a = None" unfolding slo evaluate_slo_objectives by simp
    then show ?thesis using True keys error_rate_percent[of summary] by simp
  next
    case False
    then obtain r where r: "ra_slo a = Some r" "map check_view (slr_checks r) = objectives config summary"
      "slr_passed r = list_all slk_passed (slr_checks r)"
      using view[of "objectives config summary"] unfolding slo evaluate_slo_objectives Let_def by simp
    have "slr_passed r \<longleftrightarrow> (\<forall>(name, v, t, met)\<in>set (objectives config summary). met)"
      unfolding r(2)[symmetric] r(3) by (auto simp: list_all_iff check_view_def)
    then show ?thesis using False keys r error_rate_percent[of summary] by simp
  qed
qed

theorem slo_verdict_witness:
  "\<exists>summary a r. run_load_test exact_hdr sample_crates (Inr ()) sample_readings (\<lambda>_. sample_schedule) sample_load = Inr summary \<and>
     a = from_summary_and_config \<lparr>he_hostname = None, he_computername = None, he_os = ''linux'', he_version = ''1''\<rparr> summary
           (sample_load\<lparr>tg_slo_min_rps := Some (Fin 1)\<rparr>) \<and>
     ra_slo a = Some r \<and> length (slr_checks r) = 1 \<and> \<not> slr_passed r"
proof -
  let ?config = "sample_load\<lparr>tg_slo_min_rps := Some (Fin 1)\<rparr>"
  obtain summary where
    r: "run_load_test exact_hdr sample_crates (Inr ()) sample_readings (\<lambda>_. sample_schedule) sample_load = Inr summary"
    using sample_summary by blast
  obtain a where
    a: "a = from_summary_and_config \<lparr>he_hostname = None, he_computername = None, he_os = ''linux'', he_version = ''1''\<rparr> summary ?config"
    by blast
  from r have "su_duration_secs summary = as_secs_f64 (rr_elapsed sample_readings)"
    unfolding run_load_test_def by (rule run_strategy_Inr) (rule execute_test_totals(7))
  then have rps: "summary_rps summary = Fin 0"
    by (simp add: sample_readings_def as_secs_f64_def summary_rps_def f64_of_nat_def round64_small_int)
  have os: "objectives ?config summary = [(''rps'', Fin 0, Fin 1, False)]"
    by (simp add: objectives_def rps sample_load_def sample_test_def build_def builder_new_def test_config_builder_default_def)
  note v = slo_verdict[OF a, unfolded os]
  then obtain c where c: "ra_slo a = Some c" by (cases "ra_slo a") simp_all
  then have "map check_view (slr_checks c) = [(''rps'', Fin 0, Fin 1, False)]" "\<not> slr_passed c" using v by simp_all
  then have "length (slr_checks c) = 1" by auto
  then show ?thesis using r a c \<open>\<not> slr_passed c\<close> by blast
qed

end
