(* ===== verification/Spec2Isabelle.thy ===== *)
theory Spec2Isabelle
  imports Chaos Metric_Aggregate Metric_Summary Worker_Runtime Master_Run Cluster Stomp_Session Load_Profile Sse_Engine Soap_Engine
    Db_Engine Graphql_Ws_Engine Grpc_Engine Local_Run Report_Artifact
begin

text \<open>
  Verification of strobengine, a load-testing engine written in Rust.  A configuration names a target; the program builds the
  engine of the target's protocol, lets workers run iterations of it, collects one metric per iteration, and reports.  It runs
  in one process, called from Python, or distributed: a master allocates workers over a gRPC control plane, sends them the
  test and merges the batches of metrics they stream back.

  \<^bold>\<open>The parts and their theories.\<close>  Paths are relative to \<open>src/\<close>; every definition follows the function or type it names.

  \<^item> \<^emph>\<open>The language.\<close>  \<open>Strob_Prelude\<close>: machine integers as words, \<open>HashMap\<close> and \<open>BTreeMap\<close> as association lists, and
    the interfaces below.  \<open>Rust_Float\<close>: IEEE doubles and singles with exact rounding.  \<open>Rust_Std\<close>, \<open>Rust_Utf8\<close>,
    \<open>Rust_Text\<close>, \<open>Rust_Case\<close>: durations, panics, strings as their UTF-8 bytes, and the text functions the program uses.
  \<^item> \<^emph>\<open>Faults and metrics.\<close>  \<open>Chaos\<close> (\<open>chaos.rs\<close>): injected faults.  \<open>Metric_Types\<close>
    (\<open>metrics/request.rs\<close>, \<open>protocols.rs\<close>, \<open>helpers.rs\<close>): one metric and the samples of each protocol.  \<open>Metric_Aggregate\<close>
    (\<open>aggregate.rs\<close>, \<open>timeline.rs\<close>): the loop that folds the metric channel.  \<open>Metric_Summary\<close> (\<open>summary.rs\<close>,
    \<open>system.rs\<close>): the summary and the resource monitor.
  \<^item> \<^emph>\<open>The engines\<close> (\<open>protocols/\<close>).  \<open>Http_Engine\<close>, \<open>Http3_Engine\<close>, \<open>Sse_Engine\<close>, \<open>Ws_Engine\<close>,
    \<open>Graphql_Engine\<close>, \<open>Graphql_Ws_Engine\<close>, \<open>Soap_Engine\<close>, \<open>Db_Engine\<close>, \<open>Grpc_Engine\<close> (both gRPC engines and the
    schema lookup), and \<open>Stomp_Codec\<close>, \<open>Stomp_Engine\<close>, \<open>Stomp_Session\<close>.  An iteration is a function from the session,
    the clock readings and what the network answers to the session afterwards and the metric.
  \<^item> \<^emph>\<open>A local run.\<close>  \<open>Test_Config\<close> and \<open>Load_Profile\<close> (\<open>config.rs\<close>): settings, validation, the shape of the load.
    \<open>Protocols\<close> (\<open>protocols/mod.rs\<close> and \<open>build_engine\<close> of \<open>lib.rs\<close>): from a configuration to its engine.
    \<open>Local_Run\<close> (\<open>lib.rs\<close>, \<open>progress.rs\<close>): worker tasks, supervisor, interrupt, summary.  \<open>Report_Artifact\<close>
    (\<open>report/schema.rs\<close>): the report and its objectives.
  \<^item> \<^emph>\<open>A distributed run\<close> (\<open>distributed/\<close>).  \<open>Proto_Types\<close>: the messages.  \<open>Worker_State\<close>, \<open>Worker_Config\<close>,
    \<open>Worker_Telemetry\<close>, \<open>Worker_Runtime\<close>: the worker's state machine and backoff, its settings and plans, its windowed
    collector, its commands and orchestrator.  \<open>Master_Registry\<close>, \<open>Master_Pipeline\<close>, \<open>Master_Run\<close>: the registry with
    its barrier, the telemetry pipeline with its report, the handlers and the life of a run.  \<open>Cluster\<close>: the worker's session,
    the master's program (\<open>bin/strobengine-master.rs\<close>), and the two sides against each other.

  \<^bold>\<open>How the program is modelled.\<close>  A struct is a record whose fields carry a prefix of the struct, an enum a datatype, a
  counter a word of its width, so that it wraps as the release build does; \<open>usize\<close> is \<open>nat\<close>, bounded where it matters.
  A \<open>Result\<close> is a sum with the error on the left; a panic is a value of \<open>outcome\<close>.  Clocks, random numbers, the operating
  system and the network are arguments: what each call returns is given, in order, and the theorems hold for all of it.
  Concurrent tasks are interleaved explicitly: \<open>wstep\<close> of \<open>Worker_Runtime\<close> is an inductive relation over commands,
  directives and finishing tasks; \<open>start_run_master\<close> takes, for each await, the handler calls made meanwhile;
  \<open>run_step\<close> of \<open>Local_Run\<close> executes one step of any worker, of the supervisor or of the environment, an impossible one
  leaving the state alone, so that a list of events is a schedule; \<open>session_loop\<close> of \<open>Cluster\<close> does the same for a session.
  Code of other crates is a parameter: the HDR histogram (\<open>hdr_ops\<close>, with its documented laws \<open>hdr_laws\<close>, which
  \<open>exact_hdr\<close> meets), the HTTP, JSON, XML, protobuf and URI parsers (\<open>http_ops\<close>, \<open>crates\<close> and the arguments of the
  engines), sockets and QUIC connections (records of their results).

  \<^bold>\<open>Loops.\<close>  All functions are total.  A loop over events recurs on the list of what it sees, and \<open>None\<close> (or a flag) says that it
  is still waiting when the list ends; where returning is claimed it is proved (\<open>barrier_returns\<close>, \<open>stop_completes\<close>,
  \<open>scaling_finishes\<close>, \<open>h2_send_exact\<close>).  Loops that consume a buffer have termination proofs by the length of what is left to read.  The
  only fuel is in the specification of \<open>stream_codec\<close>, where any number above that of the encoded items is enough.

  \<^bold>\<open>The interfaces.\<close>  \<open>entry_map\<close> is what an entry-style map promises; both container models provide it.
  \<open>guarded_machine\<close> turns an invariant of every step into one of every run; the registry, the master, the worker sessions
  and the local run provide it.  \<open>additive_fold\<close> extends it by a measure that each step raises by the weight of its
  event; the collector, the aggregation, the pipeline and the buckets of the histogram provide it, and all conservation
  theorems come from it.  \<open>stream_codec\<close> lifts the decoding of one frame to streams; the STOMP codec provides it.

  \<^bold>\<open>What is shown.\<close>  \<^emph>\<open>Nothing is lost on the way from a metric to a report:\<close> \<open>aggregate_conservation\<close>,
  \<open>protocol_totals\<close>, \<open>collector_conservation\<close>, \<open>orchestrator_delivers\<close>, \<open>stream_metrics_exact\<close>, \<open>report_conservation\<close> and
  \<open>run_report_exact\<close> for the distributed run, \<open>local_counters_exact\<close> and, below, \<open>local_report_exact\<close> for the local one.
  \<^emph>\<open>Control is consistent under every interleaving:\<close> \<open>worker_control_invariant\<close>, \<open>start_exclusive\<close>, \<open>stop_completes\<close>,
  \<open>barrier_allocation\<close>, \<open>one_run_at_a_time\<close>, \<open>local_workers_bounded\<close>, \<open>scaling_finishes\<close>, and between the two sides
  \<open>handshake_ready\<close> and \<open>start_understood\<close>.  \<^emph>\<open>The codecs and engines do what their protocols ask:\<close>
  \<open>decoder_refines\<close>, \<open>frames_survive_chunking\<close>, \<open>sse_chunking\<close>, \<open>send_confirmed\<close>, \<open>stomp_session_coherent\<close>,
  \<open>gws_follows_protocol\<close>, \<open>sink_refines_depth\<close>, \<open>h2_send_exact\<close>, \<open>h3_session_adds_up\<close>, \<open>http_session_transparent\<close>.
  \<^emph>\<open>Settings mean what they say:\<close> \<open>plan_sound\<close>, \<open>ramp_shape\<close>, \<open>engine_matches_scheme\<close>, \<open>validated_setup_errors\<close>,
  \<open>slo_verdict\<close>.  Some theorems show behaviour that is not meant: \<open>slot_freed_only_by_stop\<close>, \<open>sse_total_overcounts\<close>,
  \<open>h2_path_lacks_slash\<close>, \<open>late_start_survives\<close>.

  \<^bold>\<open>Not modelled.\<close>  The tests.  Logging (\<open>logging.rs\<close>) and signal handlers, which configure other crates; the command-line
  parsers, which are derived; the classes and accessors exported to Python and the conversion of the report to a dictionary,
  which copy fields; the drawing of progress bars; the readings of the operating system in \<open>metrics/system.rs\<close>; opening
  sockets, TLS set-up and the compilation of protobuf schemas, which are calls of other crates; a panic of a local worker
  task, which the supervisor only logs; the capacity of the channels, which delays senders without changing what is sent.
\<close>

section \<open>From the schedule of a local run to its report\<close>

lemma sum_status_breakdown: "hm_inv codes \<Longrightarrow> sum_list (map snd (status_breakdown codes)) = sum_list (map snd codes)"
  by (simp add: status_breakdown_map case_prod_unfold o_def)

lemma count_status_breakdown:
  assumes "hm_inv codes"
  shows "count_of (show_nat (unat (code :: u16))) (status_breakdown codes) = count_of code codes"
proof -
  have "map_of (map (\<lambda>(k, v). (show_nat (unat k), v)) codes) (show_nat (unat code)) = map_of codes code"
    by (induction codes) (auto simp: word_unat_eq_iff dest: show_nat_inj)
  then show ?thesis by (simp add: count_of_def status_breakdown_map[OF assms])
qed

text \<open>C2: the report of a local run is about what the run did.  When an entry point of the library returns a summary, the
  engine was the one built from the configuration and the run was not interrupted.  Once its supervisor has ended with the
  receiver of the metrics open, and with less than \<open>2 ^ 64\<close> requests, the report says: as many requests as metrics were
  sent, and those that a scale-down or the end of the profile cancelled in flight, none of these under a constant load; as
  many failures as metrics with errors, the rest successful; for every status as many entries as metrics with it, which
  add up to the metrics sent; the bytes of the metrics.\<close>

theorem local_report_exact:
  assumes "(strategy, Inr summary) \<in>
      {(SConstant (tg_concurrency config) (tg_duration_secs config), run_load_test H cr runtime r schedule config),
       (SDynamic profile, run_load_profiles H cr runtime r schedule config profile)}"
    and "a = from_summary_and_config env summary config"
  shows "\<exists>engine g s.
      build_engine cr config (chaos_engine_new (tg_chaos config) (tg_chaos_rate config)) (strategy_max_concurrency strategy) = Inr engine \<and>
      s = foldl (run_step g) (run_start strategy) (schedule engine) \<and> \<not> lr_interrupted s \<and>
      (lr_sup s = SEnded \<and> lr_rx_open s \<and> length (lr_sent s) + lr_cut s < 2 ^ 64 \<longrightarrow>
        unat (rsu_total_requests (ra_summary a)) = length (lr_sent s) + lr_cut s \<and>
        (strategy = SConstant (tg_concurrency config) (tg_duration_secs config) \<longrightarrow> lr_cut s = 0) \<and>
        unat (rsu_failed_requests (ra_summary a)) = length (filter rm_is_error (lr_sent s)) \<and>
        unat (rsu_successful_requests (ra_summary a)) + unat (rsu_failed_requests (ra_summary a)) = length (lr_sent s) + lr_cut s \<and>
        unat (sum_list (map snd (ra_error_breakdown a))) = length (lr_sent s) \<and>
        (\<forall>code. unat (count_of (show_nat (unat code)) (ra_error_breakdown a)) = length (filter (\<lambda>m. rm_status_code m = code) (lr_sent s))) \<and>
        rsu_bytes_transferred (ra_summary a) = sum_list (map rm_bytes_received (lr_sent s)))"
proof -
  obtain engine g s where
    e: "build_engine cr config (chaos_engine_new (tg_chaos config) (tg_chaos_rate config)) (strategy_max_concurrency strategy) = Inr engine" and
    s: "s = foldl (run_step g) (run_start strategy) (schedule engine)" "\<not> lr_interrupted s" and
    uncut: "\<And>n d. strategy = SConstant n d \<Longrightarrow> lr_cut s = 0" and
    res: "execute_test H (tg_url config) strategy (run_labels_of config) (tg_sys_sample_interval config)
       (tg_timeline_interval_ms config) r s = Inr summary" and
    totals: "lr_sup s = SEnded \<Longrightarrow> lr_rx_open s \<Longrightarrow> su_total_requests summary = (length (lr_sent s) + lr_cut s) mod 2 ^ 64 \<and>
       su_total_errors summary = length (filter rm_is_error (lr_sent s)) mod 2 ^ 64 \<and>
       su_total_bytes_received summary = lc_bytes_received (lr_counters s)"
    by (rule local_summary_exact[OF assms(1)]) blast
  note st = execute_test_statuses[OF res] execute_test_totals(4)[OF res]
  have fields: "rsu_total_requests (ra_summary a) = of_nat (su_total_requests summary)"
    "rsu_failed_requests (ra_summary a) = of_nat (su_total_errors summary)"
    "rsu_successful_requests (ra_summary a) = of_nat (su_total_requests summary - su_total_errors summary)"
    "rsu_bytes_transferred (ra_summary a) = su_total_bytes_received summary"
    "ra_error_breakdown a = status_breakdown (su_status_codes summary)"
    by (simp_all add: assms(2) from_summary_and_config_def)
  have small: "length (filter P (lr_sent s)) < 2 ^ 64" if "length (lr_sent s) + lr_cut s < 2 ^ 64" for P
    using that length_filter_le[of P "lr_sent s"] by linarith
  have reported: "unat (rsu_total_requests (ra_summary a)) = length (lr_sent s) + lr_cut s"
    "unat (rsu_failed_requests (ra_summary a)) = length (filter rm_is_error (lr_sent s))"
    "unat (rsu_successful_requests (ra_summary a)) + unat (rsu_failed_requests (ra_summary a)) = length (lr_sent s) + lr_cut s"
    if "lr_sup s = SEnded" "lr_rx_open s" "length (lr_sent s) + lr_cut s < 2 ^ 64"
    using totals[OF that(1,2)] that(3) small[OF that(3), of rm_is_error] length_filter_le[of rm_is_error "lr_sent s"]
    unfolding fields by (simp_all only: unat_u64_mod mod_less)
  have statuses: "unat (sum_list (map snd (ra_error_breakdown a))) = length (lr_sent s)"
    "unat (count_of (show_nat (unat code)) (ra_error_breakdown a)) = length (filter (\<lambda>m. rm_status_code m = code) (lr_sent s))"
    if "length (lr_sent s) + lr_cut s < 2 ^ 64" for code
    using that small[OF that] unfolding fields sum_status_breakdown[OF st(2)] count_status_breakdown[OF st(2)] st(1,3) unat_u64_mod
    by (simp_all add: eq_commute)
  show ?thesis
    using e s uncut reported statuses st(5) fields(4)
    by (intro exI[of _ engine] exI[of _ g] exI[of _ s] conjI impI allI) simp_all
qed

theorem local_report_exact_witness:
  "\<exists>summary a. run_load_test exact_hdr sample_crates (Inr ()) sample_readings (\<lambda>_. Local_Run.sample_schedule) sample_load = Inr summary \<and>
     a = from_summary_and_config \<lparr>he_hostname = None, he_computername = None, he_os = ''linux'', he_version = ''1''\<rparr> summary sample_load \<and>
     unat (rsu_total_requests (ra_summary a)) = 1 \<and> unat (rsu_failed_requests (ra_summary a)) = 1"
proof -
  have f: "tg_concurrency sample_load = 1" "tg_duration_secs sample_load = 1"
    by (simp_all add: sample_load_def)
  obtain summary where
    r: "run_load_test exact_hdr sample_crates (Inr ()) sample_readings (\<lambda>_. Local_Run.sample_schedule) sample_load = Inr summary"
    using sample_summary by blast
  obtain a where
    a: "a = from_summary_and_config \<lparr>he_hostname = None, he_computername = None, he_os = ''linux'', he_version = ''1''\<rparr> summary sample_load"
    by blast
  have "(SConstant (tg_concurrency sample_load) (tg_duration_secs sample_load), Inr summary) \<in>
      {(SConstant (tg_concurrency sample_load) (tg_duration_secs sample_load),
        run_load_test exact_hdr sample_crates (Inr ()) sample_readings (\<lambda>_. Local_Run.sample_schedule) sample_load),
       (SDynamic (LConstant 1 1), run_load_profiles exact_hdr sample_crates (Inr ()) sample_readings (\<lambda>_. Local_Run.sample_schedule) sample_load (LConstant 1 1))}"
    unfolding r by blast
  from local_report_exact[OF this a] obtain g s where
    s: "s = foldl (run_step g) (run_start (SConstant (tg_concurrency sample_load) (tg_duration_secs sample_load))) Local_Run.sample_schedule" and
    t: "lr_sup s = SEnded \<and> lr_rx_open s \<and> length (lr_sent s) + lr_cut s < 2 ^ 64 \<longrightarrow>
        unat (rsu_total_requests (ra_summary a)) = length (lr_sent s) + lr_cut s \<and>
        unat (rsu_failed_requests (ra_summary a)) = length (filter rm_is_error (lr_sent s))"
    by blast
  have "lr_cut s = 0" using local_uncut.run_inv[OF uncut_start] sample_run(4)[OF s[unfolded f]] unfolding s by (auto simp: uncut_def)
  then have "unat (rsu_total_requests (ra_summary a)) = 1 \<and> unat (rsu_failed_requests (ra_summary a)) = 1"
    using t sample_run(1-3)[OF s[unfolded f]] sample_error by simp
  then show ?thesis using r a by blast
qed

end
